(* ===== verification/Rust_Prelude.thy ===== *)
theory Rust_Prelude
  imports Main "HOL-Library.Word"
begin

text \<open>
  Shared vocabulary of the development: the machine types of the Rust sources, the result type
  of a computation that may abort (a panic, or a thread that blocks on a lock it already holds),
  slices and in-place writes with their bounds checks, overflow-checked arithmetic under the two
  build profiles of the README, and the interface of the \<open>byteorder\<close> crate. \<open>DataPacket\<close>
  (a \<open>SmallVec\<close> of bytes) is the list of its bytes, \<open>usize\<close> is \<^typ>\<open>nat\<close> (no length of the
  program comes near \<open>2^64\<close>; the one subtraction on it is \<open>usize_sub\<close>, which aborts below 0).
\<close>

unbundle bit_operations_syntax

section \<open>Types\<close>

type_synonym u8 = "8 word"
type_synonym u16 = "16 word"
type_synonym u32 = "32 word"
type_synonym bytes = "u8 list"

text \<open>Nanoseconds: \<open>Duration\<close>, and \<open>Instant\<close> and \<open>SystemTime\<close> counted from a fixed origin.\<close>

type_synonym time = nat

abbreviation millis :: "nat \<Rightarrow> time" where
  "millis n \<equiv> 1000000 * n"

abbreviation secs :: "nat \<Rightarrow> time" where
  "secs n \<equiv> 1000000000 * n"

text \<open>
  \<open>std::net::SocketAddr\<close>. An address is its 32 or 128 bits; a \<open>SocketAddrV6\<close> also carries the
  flow information and the scope identifier, which take part in equality.
\<close>

datatype SocketAddr = V4 "32 word" u16 | V6 "128 word" u16 u32 u32

primrec is_ipv4 :: "SocketAddr \<Rightarrow> bool" where
  "is_ipv4 (V4 ip p) = True"
| "is_ipv4 (V6 ip p fl sc) = False"

primrec port :: "SocketAddr \<Rightarrow> u16" where
  "port (V4 ip p) = p"
| "port (V6 ip p fl sc) = p"

text \<open>\<open>Ipv4Addr::octets\<close> and \<open>Ipv6Addr::octets\<close>: the most significant byte first.\<close>

definition octets4 :: "32 word \<Rightarrow> bytes" where
  "octets4 ip = map (\<lambda>i. ucast (drop_bit (8 * i) ip)) [3, 2, 1, 0]"

definition octets6 :: "128 word \<Rightarrow> bytes" where
  "octets6 ip = map (\<lambda>i. ucast (drop_bit (8 * i) ip))
     [15, 14, 13, 12, 11, 10, 9, 8, 7, 6, 5, 4, 3, 2, 1, 0]"

section \<open>Computations that may abort\<close>

datatype abort =
    IndexOutOfBounds
  | SliceOutOfRange
  | CopyLengthMismatch
  | ArithmeticOverflow
  | DurationUnderflow
  | SelfDeadlock
  | ExpectFailed

datatype 'a rust = Ret 'a | Abort abort

primrec rbind :: "'a rust \<Rightarrow> ('a \<Rightarrow> 'b rust) \<Rightarrow> 'b rust" where
  "rbind (Ret x) f = f x"
| "rbind (Abort e) f = Abort e"

primrec returns :: "'a rust \<Rightarrow> bool" where
  "returns (Ret x) = True"
| "returns (Abort e) = False"

text \<open>The operator \<open>?\<close> on a \<open>Result\<close>.\<close>

primrec sbind :: "'e + 'a \<Rightarrow> ('a \<Rightarrow> 'e + 'b) \<Rightarrow> 'e + 'b" where
  "sbind (Inl e) f = Inl e"
| "sbind (Inr x) f = f x"

text \<open>\<open>xs[i]\<close>, \<open>xs[i] = v\<close>, \<open>&xs[a..b]\<close> and \<open>xs[a..b].copy_from_slice(src)\<close>.\<close>

definition idx :: "'a list \<Rightarrow> nat \<Rightarrow> 'a rust" where
  "idx xs i = (if i < length xs then Ret (xs ! i) else Abort IndexOutOfBounds)"

definition set_idx :: "'a list \<Rightarrow> nat \<Rightarrow> 'a \<Rightarrow> 'a list rust" where
  "set_idx xs i v = (if i < length xs then Ret (xs[i := v]) else Abort IndexOutOfBounds)"

definition subslice :: "'a list \<Rightarrow> nat \<Rightarrow> nat \<Rightarrow> 'a list rust" where
  "subslice xs a b =
     (if a \<le> b \<and> b \<le> length xs then Ret (take (b - a) (drop a xs)) else Abort SliceOutOfRange)"

definition copy_from_slice :: "'a list \<Rightarrow> nat \<Rightarrow> nat \<Rightarrow> 'a list \<Rightarrow> 'a list rust" where
  "copy_from_slice xs a b src =
     (if \<not> (a \<le> b \<and> b \<le> length xs) then Abort SliceOutOfRange
      else if length src \<noteq> b - a then Abort CopyLengthMismatch
      else Ret (take a xs @ src @ drop b xs))"

text \<open>A function applied to the sub-slice \<open>&mut xs[a..b]\<close>, which it rewrites in place.\<close>

definition update_slice ::
    "'a list \<Rightarrow> nat \<Rightarrow> nat \<Rightarrow> ('a list \<Rightarrow> 'a list rust) \<Rightarrow> 'a list rust" where
  "update_slice xs a b f = rbind (subslice xs a b) (\<lambda>s. rbind (f s) (\<lambda>s'. copy_from_slice xs a b s'))"

definition usize_sub :: "nat \<Rightarrow> nat \<Rightarrow> nat rust" where
  "usize_sub a b = (if b \<le> a then Ret (a - b) else Abort ArithmeticOverflow)"

section \<open>Overflow-checked arithmetic\<close>

text \<open>
  The README runs the server in two ways: \<open>cargo run\<close>, the debug profile, in which \<open>+\<close>, \<open>-\<close> and
  \<open>*\<close> panic on overflow, and \<open>cargo build --release\<close>, in which they wrap around.
\<close>

datatype profile = Debug | Release

definition overflowing :: "profile \<Rightarrow> bool \<Rightarrow> 'a \<Rightarrow> 'a rust" where
  "overflowing p fits w = (if fits \<or> p = Release then Ret w else Abort ArithmeticOverflow)"

definition add_ovf :: "profile \<Rightarrow> 'a::len word \<Rightarrow> 'a word \<Rightarrow> 'a word rust" where
  "add_ovf p a b = overflowing p (unat a + unat b < 2 ^ LENGTH('a)) (a + b)"

definition sub_ovf :: "profile \<Rightarrow> 'a::len word \<Rightarrow> 'a word \<Rightarrow> 'a word rust" where
  "sub_ovf p a b = overflowing p (b \<le> a) (a - b)"

definition mul_ovf :: "profile \<Rightarrow> 'a::len word \<Rightarrow> 'a word \<Rightarrow> 'a word rust" where
  "mul_ovf p a b = overflowing p (unat a * unat b < 2 ^ LENGTH('a)) (a * b)"

definition saturating_sub :: "'a::len word \<Rightarrow> 'a word \<Rightarrow> 'a word" where
  "saturating_sub a b = (if b \<le> a then a - b else 0)"

text \<open>\<open>NonZeroU16::new\<close> and \<open>NonZeroU32::new\<close>: a nonzero integer is kept as the integer.\<close>

definition nonzero :: "'a::len word \<Rightarrow> 'a word option" where
  "nonzero w = (if w = 0 then None else Some w)"

section \<open>The \<open>byteorder\<close> crate\<close>

text \<open>
  \<open>NetworkEndian\<close> comes from a crate, so its four functions are parameters: a reader takes the
  slice it is given, a writer takes the slice and the number and gives the slice back. What the
  program relies on is \<open>network_endian\<close>: on slices of the exact size, the most significant byte
  comes first.
\<close>

record byteorder =
  read_u16 :: "bytes \<Rightarrow> u16"
  read_u32 :: "bytes \<Rightarrow> u32"
  write_u16 :: "bytes \<Rightarrow> u16 \<Rightarrow> bytes"
  write_u32 :: "bytes \<Rightarrow> u32 \<Rightarrow> bytes"

definition be16 :: "u8 \<Rightarrow> u8 \<Rightarrow> u16" where
  "be16 a b = of_nat (256 * unat a + unat b)"

definition be32 :: "u8 \<Rightarrow> u8 \<Rightarrow> u8 \<Rightarrow> u8 \<Rightarrow> u32" where
  "be32 a b c d = of_nat (256 * (256 * (256 * unat a + unat b) + unat c) + unat d)"

definition bytes16 :: "u16 \<Rightarrow> bytes" where
  "bytes16 n = [of_nat (unat n div 256), of_nat (unat n mod 256)]"

definition bytes32 :: "u32 \<Rightarrow> bytes" where
  "bytes32 n = [of_nat (unat n div 16777216), of_nat (unat n div 65536 mod 256),
     of_nat (unat n div 256 mod 256), of_nat (unat n mod 256)]"

definition network_endian :: "byteorder \<Rightarrow> bool" where
  "network_endian be \<longleftrightarrow>
     (\<forall>a b. read_u16 be [a, b] = be16 a b) \<and>
     (\<forall>a b c d. read_u32 be [a, b, c, d] = be32 a b c d) \<and>
     (\<forall>s n. length s = 2 \<longrightarrow> write_u16 be s n = bytes16 n) \<and>
     (\<forall>s n. length s = 4 \<longrightarrow> write_u32 be s n = bytes32 n)"

text \<open>A concrete instance of the interface, for evaluating the model on concrete packets.\<close>

fun read_be16 :: "bytes \<Rightarrow> u16" where
  "read_be16 (a # b # r) = be16 a b"
| "read_be16 _ = 0"

fun read_be32 :: "bytes \<Rightarrow> u32" where
  "read_be32 (a # b # c # d # r) = be32 a b c d"
| "read_be32 _ = 0"

definition NetworkEndian :: byteorder where
  "NetworkEndian = \<lparr>read_u16 = read_be16, read_u32 = read_be32,
     write_u16 = (\<lambda>s n. bytes16 n @ drop 2 s), write_u32 = (\<lambda>s n. bytes32 n @ drop 4 s)\<rparr>"

section \<open>Lemmas\<close>

named_theorems rust_simps \<open>unfolding of slices, indices and binds\<close>
named_theorems rust_iffs \<open>inversion of a bind that returns or aborts\<close>
named_theorems endian_simps \<open>the byteorder interface under network endianness\<close>

lemma rbind_Ret_iff [rust_iffs]: "rbind m f = Ret y \<longleftrightarrow> (\<exists>x. m = Ret x \<and> f x = Ret y)"
  by (cases m) auto

lemma Ret_rbind_iff [rust_iffs]: "Ret y = rbind m f \<longleftrightarrow> (\<exists>x. m = Ret x \<and> f x = Ret y)"
  by (cases m) auto

lemma rbind_Abort_iff [rust_iffs]:
  "rbind m f = Abort e \<longleftrightarrow> m = Abort e \<or> (\<exists>x. m = Ret x \<and> f x = Abort e)"
  by (cases m) auto

lemma rbind_assoc [rust_simps]: "rbind (rbind m f) g = rbind m (\<lambda>x. rbind (f x) g)"
  by (cases m) auto

lemma sbind_Inr_iff [simp]: "sbind x f = Inr y \<longleftrightarrow> (\<exists>z. x = Inr z \<and> f z = Inr y)"
  by (cases x) auto

lemma returns_iff: "returns m \<longleftrightarrow> (\<exists>x. m = Ret x)"
  by (cases m) auto

lemma returns_bindI:
  assumes "returns m" and "\<And>x. m = Ret x \<Longrightarrow> returns (f x)"
  shows "returns (rbind m f)"
  using assms by (cases m) auto

lemma idx_in [simp]: "i < length xs \<Longrightarrow> idx xs i = Ret (xs ! i)"
  by (simp add: idx_def)

lemma subslice_in [simp]: "a \<le> b \<Longrightarrow> b \<le> length xs \<Longrightarrow> subslice xs a b = Ret (take (b - a) (drop a xs))"
  by (simp add: subslice_def)

lemma subslice_Ret_iff:
  "subslice xs a b = Ret s \<longleftrightarrow> a \<le> b \<and> b \<le> length xs \<and> s = take (b - a) (drop a xs)"
  by (auto simp: subslice_def)

lemma subslice_append [rust_simps]:
  "length p = a \<Longrightarrow> length s = b - a \<Longrightarrow> a \<le> b \<Longrightarrow> subslice (p @ s @ r) a b = Ret s"
  by (simp add: subslice_def)

lemma copy_append [rust_simps]:
  "length p = a \<Longrightarrow> length s = b - a \<Longrightarrow> a \<le> b \<Longrightarrow> length src = b - a \<Longrightarrow>
   copy_from_slice (p @ s @ r) a b src = Ret (p @ src @ r)"
  by (simp add: copy_from_slice_def)

lemma usize_sub_in [simp]: "b \<le> a \<Longrightarrow> usize_sub a b = Ret (a - b)"
  by (simp add: usize_sub_def)

subsection \<open>Checked arithmetic\<close>

lemma overflowing_Release [simp]: "overflowing Release fits w = Ret w"
  by (simp add: overflowing_def)

lemma overflowing_fits [simp]: "fits \<Longrightarrow> overflowing p fits w = Ret w"
  by (simp add: overflowing_def)

lemma overflowing_Ret: "overflowing p fits w = Ret v \<Longrightarrow> v = w"
  by (simp add: overflowing_def split: if_splits)

lemma unat_saturating_sub: "unat (saturating_sub a b) = unat a - unat b"
  by (simp add: saturating_sub_def unat_sub_if' word_le_nat_alt)

lemma nonzero_simps [simp]: "nonzero 0 = None" "w \<noteq> 0 \<Longrightarrow> nonzero w = Some w"
  by (simp_all add: nonzero_def)

subsection \<open>Endianness\<close>

lemma length_bytes16 [simp]: "length (bytes16 n) = 2"
  by (simp add: bytes16_def)

lemma length_bytes32 [simp]: "length (bytes32 n) = 4"
  by (simp add: bytes32_def)

lemma unat_u8_less: "unat (a :: u8) < 256"
  using unsigned_less [of a] by simp

lemma unat_u16_less: "unat (a :: u16) < 65536"
  using unsigned_less [of a] by simp

lemma unat_u32_less: "unat (a :: u32) < 4294967296"
  using unsigned_less [of a] by simp

lemma unat_be16: "unat (be16 a b) = 256 * unat a + unat b"
proof -
  have "256 * unat a + unat b < 2 ^ LENGTH(16)"
    using unat_u8_less [of a] unat_u8_less [of b] by simp
  then show ?thesis
    unfolding be16_def by (simp only: unat_of_nat mod_less)
qed

lemma unat_be32:
  "unat (be32 a b c d) = 256 * (256 * (256 * unat a + unat b) + unat c) + unat d"
proof -
  have "256 * (256 * (256 * unat a + unat b) + unat c) + unat d < 2 ^ LENGTH(32)"
    using unat_u8_less [of a] unat_u8_less [of b] unat_u8_less [of c] unat_u8_less [of d] by simp
  then show ?thesis
    unfolding be32_def by (simp only: unat_of_nat mod_less)
qed

lemma nat_base256:
  fixes m :: nat
  shows "256 * (256 * (256 * (m div 16777216) + m div 65536 mod 256) + m div 256 mod 256)
    + m mod 256 = m"
proof -
  have d: "m div 65536 = m div 256 div 256" "m div 16777216 = m div 256 div 256 div 256"
    by (simp_all add: div_mult2_eq [symmetric])
  show ?thesis
    unfolding d by (simp only: mult_div_mod_eq)
qed

lemma unat_byte_of_nat: "m < 256 \<Longrightarrow> unat (of_nat m :: u8) = m"
  by (simp add: unat_of_nat)

lemma be16_bytes16 [simp]: "be16 (of_nat (unat n div 256)) (of_nat (unat n mod 256)) = n"
proof (rule word_unat_eq_iff [THEN iffD2])
  have "unat n div 256 < 256"
    using unat_u16_less [of n] by simp
  then show "unat (be16 (of_nat (unat n div 256)) (of_nat (unat n mod 256))) = unat n"
    by (simp add: unat_be16 unat_byte_of_nat)
qed

lemma be32_bytes32 [simp]:
  "be32 (of_nat (unat n div 16777216)) (of_nat (unat n div 65536 mod 256))
     (of_nat (unat n div 256 mod 256)) (of_nat (unat n mod 256)) = n"
proof (rule word_unat_eq_iff [THEN iffD2])
  have top: "unat n div 16777216 < 256"
    using unat_u32_less [of n] by simp
  have "unat (be32 (of_nat (unat n div 16777216)) (of_nat (unat n div 65536 mod 256))
     (of_nat (unat n div 256 mod 256)) (of_nat (unat n mod 256))) =
     256 * (256 * (256 * (unat n div 16777216) + unat n div 65536 mod 256) + unat n div 256 mod 256)
       + unat n mod 256"
    using top by (simp add: unat_be32 unat_byte_of_nat)
  also have "\<dots> = unat n"
    by (rule nat_base256)
  finally show "unat (be32 (of_nat (unat n div 16777216)) (of_nat (unat n div 65536 mod 256))
     (of_nat (unat n div 256 mod 256)) (of_nat (unat n mod 256))) = unat n" .
qed

lemma NetworkEndian_endian [simp]: "network_endian NetworkEndian"
  by (simp add: network_endian_def NetworkEndian_def)

lemma read_u16_endian [endian_simps]: "network_endian be \<Longrightarrow> read_u16 be [a, b] = be16 a b"
  by (simp add: network_endian_def)

lemma read_u32_endian [endian_simps]:
  "network_endian be \<Longrightarrow> read_u32 be [a, b, c, d] = be32 a b c d"
  by (simp add: network_endian_def)

lemma write_u16_endian [endian_simps]:
  "network_endian be \<Longrightarrow> length s = 2 \<Longrightarrow> write_u16 be s n = bytes16 n"
  by (simp add: network_endian_def)

lemma write_u32_endian [endian_simps]:
  "network_endian be \<Longrightarrow> length s = 4 \<Longrightarrow> write_u32 be s n = bytes32 n"
  by (simp add: network_endian_def)

lemma read_u16_bytes16 [endian_simps]: "network_endian be \<Longrightarrow> read_u16 be (bytes16 n) = n"
  by (simp add: bytes16_def read_u16_endian)

lemma read_u32_bytes32 [endian_simps]: "network_endian be \<Longrightarrow> read_u32 be (bytes32 n) = n"
  by (simp add: bytes32_def read_u32_endian)

lemma length_octets [simp]: "length (octets4 ip) = 4" "length (octets6 ip6) = 16"
  by (simp_all add: octets4_def octets6_def)

end
