(* ===== verification/Srtp.thy ===== *)
theory Srtp
  imports Rust_Prelude
begin

text \<open>
  \<open>src/src/rtp/srtp.rs\<close>: the pair of SRTP sessions a DTLS-connected client owns, how they are
  keyed from the handshake, the four operations on packets, and the error type of the media path.
  The \<open>srtp\<close> crate and OpenSSL are parameters (\<open>srtp_crate\<close>, \<open>ssl_session\<close>); a session of the
  crate is a value of an arbitrary type, passed in and given back updated, as the crate mutates it.
\<close>

section \<open>Errors\<close>

text \<open>The error values of the crates are opaque to the program; a number tells them apart.\<close>

type_synonym ErrorStack = nat
type_synonym ErrorSrtp = nat
type_synonym MailboxError = nat

datatype ErrorParse =
    Openssl ErrorStack
  | Srtp ErrorSrtp
  | UnsupportedProfile string
  | UnsupportedFormat
  | ClientNotReady SocketAddr
  | CodecNotSet SocketAddr
  | ActorDead MailboxError

definition should_ignored :: "ErrorParse \<Rightarrow> bool" where
  "should_ignored e \<longleftrightarrow> (case e of UnsupportedFormat \<Rightarrow> True | _ \<Rightarrow> False)"

text \<open>The conversions the \<open>?\<close> operators and \<open>into()\<close> apply.\<close>

definition ErrorParse_from_ErrorStack :: "ErrorStack \<Rightarrow> ErrorParse" where
  [simp]: "ErrorParse_from_ErrorStack e = Openssl e"

definition ErrorParse_from_ErrorSrtp :: "ErrorSrtp \<Rightarrow> ErrorParse" where
  [simp]: "ErrorParse_from_ErrorSrtp e = Srtp e"

section \<open>The crates\<close>

datatype CryptoPolicy = AesCm128HmacSha1Bit80
datatype SsrcType = AnyInbound | AnyOutbound

record 's srtp_crate =
  master_len :: "CryptoPolicy \<Rightarrow> nat"
  extract_keying_material :: "CryptoPolicy \<Rightarrow> bytes \<Rightarrow> bytes \<times> bytes"
  srtp_new :: "SsrcType \<Rightarrow> CryptoPolicy \<Rightarrow> CryptoPolicy \<Rightarrow> bytes \<Rightarrow> ErrorSrtp + 's"
  srtp_protect :: "'s \<Rightarrow> bytes \<Rightarrow> (ErrorSrtp + bytes) \<times> 's"
  srtp_protect_rtcp :: "'s \<Rightarrow> bytes \<Rightarrow> (ErrorSrtp + bytes) \<times> 's"
  srtp_unprotect :: "'s \<Rightarrow> bytes \<Rightarrow> (ErrorSrtp + bytes) \<times> 's"
  srtp_unprotect_rtcp :: "'s \<Rightarrow> bytes \<Rightarrow> (ErrorSrtp + bytes) \<times> 's"

record ssl_session =
  selected_srtp_profile :: "string option"
  export_keying_material :: "nat \<Rightarrow> string \<Rightarrow> ErrorStack + bytes"

section \<open>\<open>SrtpTransport\<close>\<close>

record 's SrtpTransport =
  client :: 's
  server :: 's

definition SrtpTransport_new ::
    "'s srtp_crate \<Rightarrow> ssl_session \<Rightarrow> ErrorParse + 's SrtpTransport" where
  "SrtpTransport_new sc ssl =
     (case selected_srtp_profile ssl of
        None \<Rightarrow> Inl (UnsupportedProfile ''empty'')
      | Some name \<Rightarrow>
          if name \<noteq> ''SRTP_AES128_CM_SHA1_80'' then Inl (UnsupportedProfile name)
          else
            let policy = AesCm128HmacSha1Bit80 in
            case export_keying_material ssl (master_len sc policy * 2) ''EXTRACTOR-dtls_srtp'' of
              Inl e \<Rightarrow> Inl (ErrorParse_from_ErrorStack e)
            | Inr dtls_buf \<Rightarrow>
                let (client_key, server_key) = extract_keying_material sc policy dtls_buf in
                case srtp_new sc AnyInbound policy policy client_key of
                  Inl e \<Rightarrow> Inl (ErrorParse_from_ErrorSrtp e)
                | Inr srtp_incoming \<Rightarrow>
                    (case srtp_new sc AnyOutbound policy policy server_key of
                       Inl e \<Rightarrow> Inl (ErrorParse_from_ErrorSrtp e)
                     | Inr srtp_outcoming \<Rightarrow>
                         Inr \<lparr>client = srtp_incoming, server = srtp_outcoming\<rparr>))"

primrec srtp_result :: "ErrorSrtp + bytes \<Rightarrow> ErrorParse + bytes" where
  "srtp_result (Inl e) = Inl (ErrorParse_from_ErrorSrtp e)"
| "srtp_result (Inr buf) = Inr buf"

definition protect ::
    "'s srtp_crate \<Rightarrow> 's SrtpTransport \<Rightarrow> bytes \<Rightarrow> (ErrorParse + bytes) \<times> 's SrtpTransport" where
  "protect sc t buf =
     (let (r, s) = srtp_protect sc (server t) buf in (srtp_result r, t\<lparr>server := s\<rparr>))"

definition protect_rtcp ::
    "'s srtp_crate \<Rightarrow> 's SrtpTransport \<Rightarrow> bytes \<Rightarrow> (ErrorParse + bytes) \<times> 's SrtpTransport" where
  "protect_rtcp sc t buf =
     (let (r, s) = srtp_protect_rtcp sc (server t) buf in (srtp_result r, t\<lparr>server := s\<rparr>))"

definition unprotect ::
    "'s srtp_crate \<Rightarrow> 's SrtpTransport \<Rightarrow> bytes \<Rightarrow> (ErrorParse + bytes) \<times> 's SrtpTransport" where
  "unprotect sc t buf =
     (let (r, s) = srtp_unprotect sc (client t) buf in (srtp_result r, t\<lparr>client := s\<rparr>))"

definition unprotect_rtcp ::
    "'s srtp_crate \<Rightarrow> 's SrtpTransport \<Rightarrow> bytes \<Rightarrow> (ErrorParse + bytes) \<times> 's SrtpTransport" where
  "unprotect_rtcp sc t buf =
     (let (r, s) = srtp_unprotect_rtcp sc (client t) buf in (srtp_result r, t\<lparr>client := s\<rparr>))"

text \<open>A crate whose sessions count packets and leave them as they are, for concrete runs.\<close>

definition counting_crate :: "nat srtp_crate" where
  "counting_crate =
     \<lparr>master_len = (\<lambda>_. 30), extract_keying_material = (\<lambda>_ km. (km, km)),
      srtp_new = (\<lambda>_ _ _ _. Inr 0),
      srtp_protect = (\<lambda>s buf. (Inr buf, Suc s)), srtp_protect_rtcp = (\<lambda>s buf. (Inr buf, Suc s)),
      srtp_unprotect = (\<lambda>s buf. (Inr buf, Suc s)), srtp_unprotect_rtcp = (\<lambda>s buf. (Inr buf, Suc s))\<rparr>"

section \<open>Lemmas\<close>

lemma counting_crate_simps [simp]:
  "srtp_protect counting_crate s buf = (Inr buf, Suc s)"
  "srtp_protect_rtcp counting_crate s buf = (Inr buf, Suc s)"
  "srtp_unprotect counting_crate s buf = (Inr buf, Suc s)"
  "srtp_unprotect_rtcp counting_crate s buf = (Inr buf, Suc s)"
  by (simp_all add: counting_crate_def)

lemma srtp_result_Inr_iff [simp]: "srtp_result r = Inr b \<longleftrightarrow> r = Inr b"
  by (cases r) auto

lemma srtp_result_Inl_iff: "srtp_result r = Inl e \<longleftrightarrow> (\<exists>x. r = Inl x \<and> e = Srtp x)"
  by (cases r) auto

text \<open>Sending never touches the receiving session, and receiving never the sending one.\<close>

lemma protect_frame:
  "client (snd (protect sc t buf)) = client t"
  "client (snd (protect_rtcp sc t buf)) = client t"
  "server (snd (unprotect sc t buf)) = server t"
  "server (snd (unprotect_rtcp sc t buf)) = server t"
  by (simp_all add: protect_def protect_rtcp_def unprotect_def unprotect_rtcp_def Let_def split_def)

text \<open>
  What a DTLS session must give for the pair of SRTP sessions \<open>t\<close> to be made from it: the one
  supported profile, exported keying material, and two sessions keyed by its halves.
\<close>

definition keyed_from :: "'s srtp_crate \<Rightarrow> ssl_session \<Rightarrow> 's SrtpTransport \<Rightarrow> bool" where
  "keyed_from sc ssl t \<longleftrightarrow> selected_srtp_profile ssl = Some ''SRTP_AES128_CM_SHA1_80'' \<and>
    (\<exists>km ck sk. export_keying_material ssl (master_len sc AesCm128HmacSha1Bit80 * 2)
         ''EXTRACTOR-dtls_srtp'' = Inr km \<and>
       extract_keying_material sc AesCm128HmacSha1Bit80 km = (ck, sk) \<and>
       srtp_new sc AnyInbound AesCm128HmacSha1Bit80 AesCm128HmacSha1Bit80 ck = Inr (client t) \<and>
       srtp_new sc AnyOutbound AesCm128HmacSha1Bit80 AesCm128HmacSha1Bit80 sk = Inr (server t))"

lemma SrtpTransport_new_Inr: "SrtpTransport_new sc ssl = Inr t \<longleftrightarrow> keyed_from sc ssl t"
  unfolding SrtpTransport_new_def Let_def keyed_from_def
  by (cases t) (auto split: option.splits if_splits sum.splits prod.splits)

end
