(* ===== verification/Rust_Text.thy ===== *)
theory Rust_Text
  imports Rust_Prelude
begin

text \<open>
  Text in the Rust standard library: a \<open>str\<close> (and a \<open>SmolStr\<close>) is its UTF-8 bytes, here a
  \<^typ>\<open>string\<close> whose characters are those bytes. \<open>str::from_utf8\<close> accepts exactly the well-formed
  byte sequences of the Unicode standard (table 3-7); integers print in decimal.
\<close>

section \<open>Definitions\<close>

definition utf8_cont :: "u8 \<Rightarrow> bool" where
  "utf8_cont b \<longleftrightarrow> 0x80 \<le> b \<and> b \<le> 0xBF"

fun utf8_valid :: "bytes \<Rightarrow> bool" where
  "utf8_valid [] = True"
| "utf8_valid (a # r) =
     (if a \<le> 0x7F then utf8_valid r
      else if 0xC2 \<le> a \<and> a \<le> 0xDF then
        (case r of b # r' \<Rightarrow> utf8_cont b \<and> utf8_valid r' | _ \<Rightarrow> False)
      else if 0xE0 \<le> a \<and> a \<le> 0xEF then
        (case r of
           b # c # r' \<Rightarrow>
             (if a = 0xE0 then 0xA0 \<le> b \<and> b \<le> 0xBF
              else if a = 0xED then 0x80 \<le> b \<and> b \<le> 0x9F
              else utf8_cont b) \<and> utf8_cont c \<and> utf8_valid r'
         | _ \<Rightarrow> False)
      else if 0xF0 \<le> a \<and> a \<le> 0xF4 then
        (case r of
           b # c # d # r' \<Rightarrow>
             (if a = 0xF0 then 0x90 \<le> b \<and> b \<le> 0xBF
              else if a = 0xF4 then 0x80 \<le> b \<and> b \<le> 0x8F
              else utf8_cont b) \<and> utf8_cont c \<and> utf8_cont d \<and> utf8_valid r'
         | _ \<Rightarrow> False)
      else False)"

definition str_of_bytes :: "bytes \<Rightarrow> string" where
  "str_of_bytes bs = map (\<lambda>b. char_of (unat b)) bs"

definition from_utf8 :: "bytes \<Rightarrow> string option" where
  "from_utf8 bs = (if utf8_valid bs then Some (str_of_bytes bs) else None)"

text \<open>\<open>str::as_bytes\<close>.\<close>

definition as_bytes :: "string \<Rightarrow> bytes" where
  "as_bytes s = map (\<lambda>c. of_nat (of_char c)) s"

text \<open>\<open>Iterator::position\<close>.\<close>

fun position :: "('a \<Rightarrow> bool) \<Rightarrow> 'a list \<Rightarrow> nat option" where
  "position p [] = None"
| "position p (x # xs) = (if p x then Some 0 else map_option Suc (position p xs))"

text \<open>\<open>str::replace\<close>: every occurrence of a non-empty pattern, from the left, none inside another.\<close>

fun replace_from :: "nat \<Rightarrow> string \<Rightarrow> string \<Rightarrow> string \<Rightarrow> string" where
  "replace_from skip pat by [] = []"
| "replace_from (Suc skip) pat by (c # s) = replace_from skip pat by s"
| "replace_from 0 pat by (c # s) =
     (if take (length pat) (c # s) = pat then by @ replace_from (length pat - 1) pat by s
      else c # replace_from 0 pat by s)"

definition replace :: "string \<Rightarrow> string \<Rightarrow> string \<Rightarrow> string" where
  "replace s pat by = replace_from 0 pat by s"

text \<open>\<open>to_string\<close> of an unsigned integer.\<close>

fun decimal :: "nat \<Rightarrow> string" where
  "decimal n = (if n < 10 then [char_of (48 + n)] else decimal (n div 10) @ [char_of (48 + n mod 10)])"

declare decimal.simps [simp del]

section \<open>Lemmas\<close>

lemma utf8_valid_ascii: "\<forall>b \<in> set bs. b \<le> 0x7F \<Longrightarrow> utf8_valid bs"
  by (induction bs) auto

lemma from_utf8_ascii: "\<forall>b \<in> set bs. b \<le> 0x7F \<Longrightarrow> from_utf8 bs = Some (str_of_bytes bs)"
  by (simp add: from_utf8_def utf8_valid_ascii)

lemma from_utf8_Some: "from_utf8 bs = Some s \<longleftrightarrow> utf8_valid bs \<and> s = str_of_bytes bs"
  by (auto simp: from_utf8_def)

lemma length_str_of_bytes [simp]: "length (str_of_bytes bs) = length bs"
  by (simp add: str_of_bytes_def)

lemma as_bytes_str_of_bytes [simp]: "as_bytes (str_of_bytes bs) = bs"
proof -
  have "of_nat (of_char (char_of (unat b) :: char) :: nat) = b" for b :: u8
    using unat_u8_less [of b] by (simp add: of_char_of)
  then show ?thesis
    by (simp add: as_bytes_def str_of_bytes_def comp_def)
qed

lemma str_of_bytes_as_bytes [simp]: "str_of_bytes (as_bytes s) = s"
proof -
  have "char_of (unat (of_nat (of_char c) :: u8)) = c" for c :: char
    by (simp add: unat_of_nat)
  then show ?thesis
    by (simp add: as_bytes_def str_of_bytes_def comp_def)
qed

lemma position_less: "position p xs = Some i \<Longrightarrow> i < length xs"
  by (induction xs arbitrary: i) (auto split: if_splits)

lemma position_append:
  "\<forall>x \<in> set xs. \<not> p x \<Longrightarrow> p y \<Longrightarrow> position p (xs @ y # zs) = Some (length xs)"
  by (induction xs) auto

lemma position_Some_split:
  "position p xs = Some i \<Longrightarrow>
     \<exists>ys y zs. xs = ys @ y # zs \<and> length ys = i \<and> p y \<and> (\<forall>x \<in> set ys. \<not> p x)"
proof (induction xs arbitrary: i)
  case Nil
  then show ?case by simp
next
  case (Cons x xs)
  show ?case
  proof (cases "p x")
    case True
    with Cons.prems have "x # xs = [] @ x # xs \<and> length [] = i \<and> p x \<and> (\<forall>x \<in> set []. \<not> p x)"
      by simp
    then show ?thesis by blast
  next
    case False
    with Cons.prems obtain j where j: "position p xs = Some j" "i = Suc j"
      by auto
    from Cons.IH [OF j(1)] obtain ys y zs where
      "xs = ys @ y # zs" "length ys = j" "p y" "\<forall>x \<in> set ys. \<not> p x"
      by blast
    with False j have "x # xs = (x # ys) @ y # zs \<and> length (x # ys) = i \<and> p y \<and>
        (\<forall>z \<in> set (x # ys). \<not> p z)"
      by simp
    then show ?thesis by blast
  qed
qed

lemma replace_from_skip: "length xs = n \<Longrightarrow> replace_from n pat by (xs @ s) = replace_from 0 pat by s"
  by (induction xs arbitrary: n) auto

lemma replace_from_absent:
  "c \<in> set pat \<Longrightarrow> c \<notin> set s \<Longrightarrow> replace_from 0 pat by s = s"
proof (induction s)
  case (Cons x s)
  have "take (length pat) (x # s) \<noteq> pat"
    using Cons.prems by (metis in_set_takeD)
  with Cons show ?case by simp
qed simp

text \<open>Removing a prefix that ends in a character the rest does not have.\<close>

lemma replace_prefix:
  assumes "pat \<noteq> []" and "c \<in> set pat" and "c \<notin> set s"
  shows "replace (pat @ s) pat [] = s"
proof -
  obtain x xs where pat: "pat = x # xs"
    using assms(1) by (cases pat) auto
  then have "replace (pat @ s) pat [] = replace_from (length xs) pat [] (xs @ s)"
    by (simp add: replace_def)
  also have "\<dots> = s"
    using replace_from_skip [of xs "length xs" pat "[]" s] replace_from_absent [OF assms(2,3)] by simp
  finally show ?thesis .
qed

lemma decimal_digits: "\<forall>c \<in> set (decimal n). 48 \<le> (of_char c :: nat) \<and> (of_char c :: nat) < 58"
proof (induction n rule: decimal.induct)
  case (1 n)
  show ?case
  proof (cases "n < 10")
    case True
    then show ?thesis
      by (subst decimal.simps) (simp add: of_char_of)
  next
    case False
    with "1.IH" have "\<forall>c \<in> set (decimal (n div 10)). 48 \<le> (of_char c :: nat) \<and> (of_char c :: nat) < 58"
      by simp
    moreover have "of_char (char_of (48 + n mod 10) :: char) = 48 + n mod 10"
      by (simp add: of_char_of)
    ultimately show ?thesis
      using False by (subst decimal.simps) auto
  qed
qed

end
