(* ===== verification/Media.thy ===== *)
theory Media
  imports Rust_Text
begin

text \<open>
  \<open>src/src/sdp/media.rs\<close>: the payload types, codec names and clock rates a client announced in its
  SDP. The bidirectional map of the \<open>bimap\<close> crate is a parameter with its documented laws: inserting
  a pair removes every pair that shares a side with it.
\<close>

section \<open>Definitions\<close>

subsection \<open>The \<open>bimap\<close> crate\<close>

record 'b bimap_crate =
  bm_default :: 'b
  bm_insert :: "'b \<Rightarrow> string \<Rightarrow> u8 \<Rightarrow> 'b"
  bm_get_by_left :: "'b \<Rightarrow> string \<Rightarrow> u8 option"
  bm_get_by_right :: "'b \<Rightarrow> u8 \<Rightarrow> string option"

definition bimap_laws :: "'b bimap_crate \<Rightarrow> bool" where
  "bimap_laws bm \<longleftrightarrow>
     (\<forall>l. bm_get_by_left bm (bm_default bm) l = None) \<and>
     (\<forall>r. bm_get_by_right bm (bm_default bm) r = None) \<and>
     (\<forall>b l r l'. bm_get_by_left bm (bm_insert bm b l r) l' =
        (if l' = l then Some r
         else if bm_get_by_left bm b l' = Some r then None else bm_get_by_left bm b l')) \<and>
     (\<forall>b l r r'. bm_get_by_right bm (bm_insert bm b l r) r' =
        (if r' = r then Some l
         else if bm_get_by_right bm b r' = Some l then None else bm_get_by_right bm b r'))"

text \<open>A pair of maps satisfies the laws; it is the instance the witnesses evaluate.\<close>

definition two_maps :: "((string \<rightharpoonup> u8) \<times> (u8 \<rightharpoonup> string)) bimap_crate" where
  "two_maps =
     \<lparr>bm_default = (\<lambda>_. None, \<lambda>_. None),
      bm_insert = (\<lambda>(f, g) l r.
        (\<lambda>l'. if l' = l then Some r else if f l' = Some r then None else f l',
         \<lambda>r'. if r' = r then Some l else if g r' = Some l then None else g r')),
      bm_get_by_left = fst, bm_get_by_right = snd\<rparr>"

subsection \<open>\<open>MediaList\<close>\<close>

text \<open>
  The attributes of the \<open>webrtc-sdp\<close> crate: those the program names, with the values it gives or reads
  (an address as its octets), and one constructor for all others. \<open>Rtpmap\<close> has the payload type, the
  codec, the clock rate and the channels.
\<close>

datatype SdpAttributeSetup = Active | Actpass | Holdconn | Passive

datatype SdpAttribute =
    Rtpmap u8 string u32 "u32 option"
  | IceUfrag string
  | IcePwd string
  | FingerprintAttribute string bytes
  | Setup SdpAttributeSetup
  | Rtcp u16 "bytes option"
  | RtcpMux
  | Candidate u32 bytes u16
  | EndOfCandidates
  | Sendonly
  | Recvonly
  | Msid string
  | Ssrc string
  | SsrcGroup string
  | MsidSemantic string "string list"
  | GroupAttribute string "string list"
  | IceLite
  | IceOptions "string list"
  | OtherAttribute nat

record 'b MediaList =
  names :: 'b
  frequencies :: "u8 \<rightharpoonup> u32"

definition MediaList_default :: "'b bimap_crate \<Rightarrow> 'b MediaList" where
  "MediaList_default bm = \<lparr>names = bm_default bm, frequencies = Map.empty\<rparr>"

definition get_name :: "'b bimap_crate \<Rightarrow> 'b MediaList \<Rightarrow> u8 \<Rightarrow> string option" where
  "get_name bm m pt = bm_get_by_right bm (names m) pt"

definition get_id :: "'b bimap_crate \<Rightarrow> 'b MediaList \<Rightarrow> string \<Rightarrow> u8 option" where
  "get_id bm m name = bm_get_by_left bm (names m) name"

definition get_frequency :: "'b MediaList \<Rightarrow> u8 \<Rightarrow> u32 option" where
  "get_frequency m pt = frequencies m pt"

text \<open>
  The values of the hash map, here in the order of their keys; the program uses them as a set.
\<close>

definition get_frequencies :: "'b MediaList \<Rightarrow> u32 list" where
  "get_frequencies m = List.map_filter (\<lambda>i. frequencies m (of_nat i)) [0..<256]"

definition MediaList_insert ::
    "'b bimap_crate \<Rightarrow> 'b MediaList \<Rightarrow> u8 \<Rightarrow> string \<Rightarrow> u32 \<Rightarrow> 'b MediaList" where
  "MediaList_insert bm m pt name frequency =
     m\<lparr>names := bm_insert bm (names m) name pt, frequencies := (frequencies m)(pt \<mapsto> frequency)\<rparr>"

fun rtpmap_of :: "SdpAttribute \<Rightarrow> (u8 \<times> string \<times> u32) option" where
  "rtpmap_of (Rtpmap p c f ch) = Some (p, c, f)"
| "rtpmap_of _ = None"

definition MediaList_from_iter :: "'b bimap_crate \<Rightarrow> SdpAttribute list \<Rightarrow> 'b MediaList" where
  "MediaList_from_iter bm attrs =
     fold (\<lambda>(p, c, f) l. MediaList_insert bm l p c f) (List.map_filter rtpmap_of attrs)
       (MediaList_default bm)"

text \<open>A media section is the list of its attributes.\<close>

definition MediaList_from :: "'b bimap_crate \<Rightarrow> SdpAttribute list list \<Rightarrow> 'b MediaList" where
  "MediaList_from bm media_vec = MediaList_from_iter bm (concat media_vec)"

section \<open>Lemmas\<close>

lemma two_maps_laws [simp]: "bimap_laws two_maps"
  by (simp add: bimap_laws_def two_maps_def split: prod.splits)

lemma bimap_simps:
  assumes "bimap_laws bm"
  shows "bm_get_by_left bm (bm_default bm) l = None"
    and "bm_get_by_right bm (bm_default bm) r = None"
    and "bm_get_by_left bm (bm_insert bm b l r) l' =
      (if l' = l then Some r
       else if bm_get_by_left bm b l' = Some r then None else bm_get_by_left bm b l')"
    and "bm_get_by_right bm (bm_insert bm b l r) r' =
      (if r' = r then Some l
       else if bm_get_by_right bm b r' = Some l then None else bm_get_by_right bm b r')"
  using assms by (auto simp: bimap_laws_def)

definition media_ok :: "'b bimap_crate \<Rightarrow> 'b MediaList \<Rightarrow> bool" where
  "media_ok bm m \<longleftrightarrow>
     (\<forall>pt name. get_name bm m pt = Some name \<longleftrightarrow> get_id bm m name = Some pt) \<and>
     (\<forall>pt name. get_name bm m pt = Some name \<longrightarrow> get_frequency m pt \<noteq> None)"

lemma media_ok_default: "bimap_laws bm \<Longrightarrow> media_ok bm (MediaList_default bm)"
  by (simp add: media_ok_def get_name_def get_id_def MediaList_default_def bimap_simps)

lemma media_ok_insert:
  assumes "bimap_laws bm" and "media_ok bm m"
  shows "media_ok bm (MediaList_insert bm m pt name f)"
proof -
  from assms(2) have bij: "bm_get_by_right bm (names m) i = Some n \<longleftrightarrow>
      bm_get_by_left bm (names m) n = Some i" for i n
    by (auto simp: media_ok_def get_name_def get_id_def)
  have "bm_get_by_left bm (names m) n = Some i \<Longrightarrow> bm_get_by_left bm (names m) n' = Some i \<Longrightarrow> n' = n"
    for n n' i
    by (metis bij option.inject)
  then show ?thesis
    using assms(2) bij
    by (auto simp: media_ok_def get_name_def get_id_def get_frequency_def MediaList_insert_def
        bimap_simps [OF assms(1)])
qed


lemma media_ok_fold:
  assumes "bimap_laws bm"
  shows "media_ok bm m \<Longrightarrow> media_ok bm (fold (\<lambda>(p, c, f) l. MediaList_insert bm l p c f) xs m)"
  by (induction xs arbitrary: m) (auto intro: media_ok_insert [OF assms])

lemma media_ok_from_iter: "bimap_laws bm \<Longrightarrow> media_ok bm (MediaList_from_iter bm attrs)"
  unfolding MediaList_from_iter_def by (intro media_ok_fold media_ok_default)

lemma set_get_frequencies: "set (get_frequencies m) = ran (frequencies m)"
proof -
  have "f \<in> set (get_frequencies m) \<longleftrightarrow> f \<in> ran (frequencies m)" for f
  proof
    assume "f \<in> ran (frequencies m)"
    then obtain pt where pt: "frequencies m pt = Some f"
      by (auto simp: ran_def)
    then have "frequencies m (of_nat (unat pt)) = Some f" and "unat pt \<in> set [0..<256]"
      using unat_u8_less [of pt] by auto
    then show "f \<in> set (get_frequencies m)"
      unfolding get_frequencies_def map_filter_def by force
  qed (auto simp: get_frequencies_def map_filter_def ran_def)
  then show ?thesis by blast
qed

text \<open>
  Later declarations: one for another payload type never gives a name and never changes a clock rate,
  and one that also names another codec keeps the name.
\<close>

definition insert_all :: "'b bimap_crate \<Rightarrow> (u8 \<times> string \<times> u32) list \<Rightarrow> 'b MediaList \<Rightarrow> 'b MediaList" where
  "insert_all bm ds = fold (\<lambda>(p, c, f) l. MediaList_insert bm l p c f) ds"

lemma insert_all_simps [simp]:
  "insert_all bm [] m = m" "insert_all bm ((p, c, f) # ds) m = insert_all bm ds (MediaList_insert bm m p c f)"
  "insert_all bm (ds @ es) m = insert_all bm es (insert_all bm ds m)"
  by (simp_all add: insert_all_def)




section \<open>Properties\<close>

text \<open>
  The table built from an SDP is consistent: payload types and codec names are in one-to-one
  correspondence, and every payload type with a name has a clock rate.
\<close>

theorem media_list_consistent:
  assumes "bimap_laws bm"
  shows "(get_name bm (MediaList_from bm media) pt = Some name \<longleftrightarrow>
      get_id bm (MediaList_from bm media) name = Some pt) \<and>
    (get_name bm (MediaList_from bm media) pt = Some name \<longrightarrow>
      (\<exists>f. get_frequency (MediaList_from bm media) pt = Some f))"
  using media_ok_from_iter [OF assms, of "concat media"]
  by (force simp: media_ok_def MediaList_from_def)

theorem media_list_consistent_witness:
  "get_id two_maps (MediaList_from two_maps [[Rtpmap 96 ''VP8'' 90000 None], [Rtpmap 0 ''PCMU'' 8000 None]]) ''VP8'' =
     Some 96"
proof -
  have "get_name two_maps (MediaList_from two_maps [[Rtpmap 96 ''VP8'' 90000 None], [Rtpmap 0 ''PCMU'' 8000 None]]) 96 =
      Some ''VP8''"
    by (simp add: MediaList_from_def MediaList_from_iter_def map_filter_def MediaList_insert_def
        MediaList_default_def get_name_def two_maps_def)
  then show ?thesis
    using media_list_consistent [OF two_maps_laws, of "[[Rtpmap 96 ''VP8'' 90000 None], [Rtpmap 0 ''PCMU'' 8000 None]]" 96 "''VP8''"]
    by simp
qed



end
