(* ===== verification/Actor.thy ===== *)
theory Actor
  imports Rust_Prelude
begin

text \<open>
  The actor framework as far as the program relies on it: an actor owns its state and handles the
  messages of its mailbox one after the other, each handler giving the new state and the messages it
  sends. \<open>run_actor\<close> is such a run. The locales are the contracts the components prove about their
  handlers: an invariant every handler keeps, handlers that never abort under it, and a buffer that
  neither loses, duplicates nor reorders what it is given; their consequences for whole runs are
  proved once, here.
\<close>

section \<open>Runs\<close>

fun run_actor ::
    "('st \<Rightarrow> 'm \<Rightarrow> ('out list \<times> 'st) rust) \<Rightarrow> 'st \<Rightarrow> 'm list \<Rightarrow> ('out list \<times> 'st) rust" where
  "run_actor handle st [] = Ret ([], st)"
| "run_actor handle st (m # ms) =
     rbind (handle st m) (\<lambda>(out, st').
     rbind (run_actor handle st' ms) (\<lambda>(outs, st''). Ret (out @ outs, st'')))"

lemma run_actor_Cons_Ret:
  assumes "run_actor handle st (m # ms) = Ret (outs, st'')"
  obtains out st' rest where "handle st m = Ret (out, st')"
    "run_actor handle st' ms = Ret (rest, st'')" "outs = out @ rest"
  using assms by (auto simp: rust_iffs split: prod.splits)

section \<open>Contracts of a handler\<close>

locale actor_invariant =
  fixes handle :: "'st \<Rightarrow> 'm \<Rightarrow> ('out list \<times> 'st) rust"
    and inv :: "'st \<Rightarrow> bool"
  assumes handle_inv: "inv st \<Longrightarrow> handle st m = Ret (out, st') \<Longrightarrow> inv st'"
begin

lemma run_inv: "inv st \<Longrightarrow> run_actor handle st ms = Ret (outs, st') \<Longrightarrow> inv st'"
proof (induction ms arbitrary: st outs)
  case Nil
  then show ?case by simp
next
  case (Cons m ms)
  from Cons.prems(2) show ?case
    by (rule run_actor_Cons_Ret) (blast intro: Cons.IH handle_inv Cons.prems(1))
qed

end

locale actor_total = actor_invariant +
  assumes handle_returns: "inv st \<Longrightarrow> returns (handle st m)"
begin

lemma run_returns: "inv st \<Longrightarrow> \<exists>outs st'. run_actor handle st ms = Ret (outs, st') \<and> inv st'"
proof (induction ms arbitrary: st)
  case Nil
  then show ?case by simp
next
  case (Cons m ms)
  obtain out st1 where h: "handle st m = Ret (out, st1)"
    using handle_returns [OF Cons.prems, of m] by (cases "handle st m") auto
  from Cons.IH [OF handle_inv [OF Cons.prems h]] obtain outs st2 where
    "run_actor handle st1 ms = Ret (outs, st2)" "inv st2"
    by blast
  with h show ?case by simp
qed

end

text \<open>
  \<open>accepted m\<close> are the items a message hands to the actor, \<open>released o\<close> the items an output
  carries, \<open>stored st\<close> the items the actor holds, each in order.
\<close>

locale conserving_buffer =
  fixes handle :: "'st \<Rightarrow> 'm \<Rightarrow> ('out list \<times> 'st) rust"
    and accepted :: "'m \<Rightarrow> 'p list"
    and released :: "'out \<Rightarrow> 'p list"
    and stored :: "'st \<Rightarrow> 'p list"
  assumes conserves: "handle st m = Ret (out, st') \<Longrightarrow>
    concat (map released out) @ stored st' = stored st @ accepted m"
begin

lemma run_conserves:
  "run_actor handle st ms = Ret (outs, st') \<Longrightarrow>
   concat (map released outs) @ stored st' = stored st @ concat (map accepted ms)"
proof (induction ms arbitrary: st outs)
  case Nil
  then show ?case by simp
next
  case (Cons m ms)
  from Cons.prems obtain out st1 rest where
    h: "handle st m = Ret (out, st1)" and r: "run_actor handle st1 ms = Ret (rest, st')"
    and outs: "outs = out @ rest"
    by (rule run_actor_Cons_Ret)
  have "concat (map released outs) @ stored st' =
      concat (map released out) @ stored st1 @ concat (map accepted ms)"
    using Cons.IH [OF r] by (simp add: outs)
  also have "\<dots> = stored st @ accepted m @ concat (map accepted ms)"
    using conserves [OF h] by (simp flip: append_assoc)
  finally show ?case by simp
qed

end

end
