(* ===== verification/Rtp_Core.thy ===== *)
theory Rtp_Core
  imports Srtp
begin

text \<open>
  \<open>src/src/rtp/core.rs\<close> (recognising RTP and RTCP and reading the RTP header) and the two helpers
  of \<open>src/src/client/rtc_actor.rs\<close> that write into a header. The lemmas show that reading never
  indexes out of bounds, and that reading back what the server writes gives what it wrote.
\<close>

section \<open>Definitions\<close>

record RtpHeader =
  marker :: bool
  payload :: u8
  sequence :: u16
  timestamp :: u32

definition is_rtp_header :: "bytes \<Rightarrow> bool rust" where
  "is_rtp_header buf =
     (if length buf \<le> 12 then Ret False
      else rbind (idx buf 0) (\<lambda>b0.
        let version = drop_bit 6 b0 in
        if version \<noteq> 2 then Ret False else Ret True))"

definition is_rtcp :: "bytes \<Rightarrow> bool rust" where
  "is_rtcp buf =
     rbind (is_rtp_header buf) (\<lambda>rtp.
       if \<not> rtp then Ret False
       else rbind (idx buf 1) (\<lambda>b1. if b1 < 200 \<or> b1 > 206 then Ret False else Ret True))"

definition from_buf :: "byteorder \<Rightarrow> bytes \<Rightarrow> (ErrorParse + RtpHeader) rust" where
  "from_buf be buf =
     rbind (is_rtp_header buf) (\<lambda>rtp.
       if \<not> rtp then Ret (Inl UnsupportedFormat)
       else
         rbind (subslice buf 2 4) (\<lambda>s.
         rbind (subslice buf 4 8) (\<lambda>t.
         rbind (idx buf 1) (\<lambda>b1.
           Ret (Inr \<lparr>marker = (drop_bit 7 b1 = 1), payload = b1 AND 127,
                     sequence = read_u16 be s, timestamp = read_u32 be t\<rparr>)))))"

definition calculate_payload :: "bool \<Rightarrow> u8 \<Rightarrow> u8" where
  "calculate_payload m p = p OR push_bit 7 (if m then 1 else 0)"

definition replace_sequence_n_timestamp :: "byteorder \<Rightarrow> bytes \<Rightarrow> u16 \<Rightarrow> u32 \<Rightarrow> bytes rust" where
  "replace_sequence_n_timestamp be buf sq ts =
     rbind (update_slice buf 2 4 (\<lambda>s. Ret (write_u16 be s sq))) (\<lambda>buf'.
       update_slice buf' 4 8 (\<lambda>s. Ret (write_u32 be s ts)))"

section \<open>Lemmas\<close>

definition rtp_like :: "bytes \<Rightarrow> bool" where
  "rtp_like buf \<longleftrightarrow> 12 < length buf \<and> drop_bit 6 (buf ! 0) = 2"

definition rtcp_like :: "bytes \<Rightarrow> bool" where
  "rtcp_like buf \<longleftrightarrow> rtp_like buf \<and> 200 \<le> buf ! 1 \<and> buf ! 1 \<le> 206"

lemma is_rtp_header_eq [simp]: "is_rtp_header buf = Ret (rtp_like buf)"
  by (cases buf; cases "length buf \<le> 12") (simp_all add: is_rtp_header_def rtp_like_def Let_def)

lemma is_rtcp_eq [simp]:
  "is_rtcp buf = Ret (rtcp_like buf)"
  by (cases "rtp_like buf") (auto simp: is_rtcp_def rtcp_like_def rtp_like_def not_less)

lemma take_two: "i + 1 < length xs \<Longrightarrow> take 2 (drop i xs) = [xs ! i, xs ! (i + 1)]"
  by (simp add: numeral_eq_Suc Cons_nth_drop_Suc [symmetric] take_Suc)

lemma take_four:
  "i + 3 < length xs \<Longrightarrow> take 4 (drop i xs) = [xs ! i, xs ! (i + 1), xs ! (i + 2), xs ! (i + 3)]"
  by (simp add: numeral_eq_Suc Cons_nth_drop_Suc [symmetric] take_Suc)

lemma from_buf_eq:
  assumes "network_endian be"
  shows "from_buf be buf =
    Ret (if rtp_like buf
         then Inr \<lparr>marker = (drop_bit 7 (buf ! 1) = 1), payload = buf ! 1 AND 127,
                   sequence = be16 (buf ! 2) (buf ! 3),
                   timestamp = be32 (buf ! 4) (buf ! 5) (buf ! 6) (buf ! 7)\<rparr>
         else Inl UnsupportedFormat)"
  using assms take_two [of 2 buf] take_four [of 4 buf]
  by (cases "rtp_like buf") (auto simp: from_buf_def rtp_like_def endian_simps)

lemma from_buf_returns: "returns (from_buf be buf)"
  by (cases "rtp_like buf") (auto simp: from_buf_def rtp_like_def)

lemma byte_marker_payload:
  fixes b :: u8
  shows "(b AND 127) OR push_bit 7 (if drop_bit 7 b = 1 then 1 else 0) = b"
proof (rule bit_word_eqI)
  fix n
  assume n: "n < LENGTH(8)"
  have "drop_bit 7 b = (if bit b 7 then 1 else 0)"
  proof (rule bit_word_eqI)
    fix m assume m: "m < LENGTH(8)"
    show "bit (drop_bit 7 b) m \<longleftrightarrow> bit (if bit b 7 then 1 else (0::u8)) m"
      using m bit_imp_le_length [of b "7 + m"]
      by (cases "m = 0") (auto simp: bit_drop_bit_eq bit_1_iff)
  qed
  then show "bit ((b AND 127) OR push_bit 7 (if drop_bit 7 b = 1 then 1 else 0)) n \<longleftrightarrow> bit b n"
    using n by (auto simp: bit_simps less_Suc_eq numeral_eq_Suc)
qed

text \<open>
  Writing the sequence number and the time stamp changes bytes 2 to 7 and nothing else.
\<close>

lemma replace_sequence_n_timestamp_eq:
  assumes "network_endian be" and "8 \<le> length buf"
  shows "replace_sequence_n_timestamp be buf sq ts =
    Ret (take 2 buf @ bytes16 sq @ bytes32 ts @ drop 8 buf)"
  using assms
  by (simp add: replace_sequence_n_timestamp_def update_slice_def copy_from_slice_def endian_simps
      min_def)

lemma replace_sequence_n_timestamp_Abort:
  assumes "length buf < 8"
  shows "replace_sequence_n_timestamp be buf sq ts = Abort SliceOutOfRange \<or>
    replace_sequence_n_timestamp be buf sq ts = Abort CopyLengthMismatch"
  using assms
  by (auto simp: replace_sequence_n_timestamp_def update_slice_def copy_from_slice_def subslice_def)

text \<open>The second byte of a packet is \<open>calculate_payload\<close> of what is read from it.\<close>

lemma calculate_payload_from_buf:
  assumes "network_endian be" and "from_buf be buf = Ret (Inr h)"
  shows "calculate_payload (marker h) (payload h) = buf ! 1"
  using assms byte_marker_payload [of "buf ! 1"]
  by (auto simp: from_buf_eq calculate_payload_def split: if_splits)

section \<open>Properties\<close>

text \<open>
  Rewriting the sequence number and the time stamp of an RTP packet is faithful: reading the
  header back gives the two values written and the marker and payload type of the original, the length
  is unchanged, and so is every byte outside positions 2 to 7.
\<close>

theorem rtp_rewrite_roundtrip:
  assumes "network_endian be" and "from_buf be buf = Ret (Inr h)"
  shows "\<exists>buf'. replace_sequence_n_timestamp be buf sq ts = Ret buf' \<and>
    from_buf be buf' = Ret (Inr (h\<lparr>sequence := sq, timestamp := ts\<rparr>)) \<and>
    length buf' = length buf \<and> take 2 buf' = take 2 buf \<and> drop 8 buf' = drop 8 buf"
proof -
  have r: "rtp_like buf" and h: "h = \<lparr>marker = (drop_bit 7 (buf ! 1) = 1), payload = buf ! 1 AND 127,
      sequence = be16 (buf ! 2) (buf ! 3), timestamp = be32 (buf ! 4) (buf ! 5) (buf ! 6) (buf ! 7)\<rparr>"
    using assms by (simp_all add: from_buf_eq split: if_splits)
  let ?buf = "take 2 buf @ bytes16 sq @ bytes32 ts @ drop 8 buf"
  have l: "12 < length buf"
    using r by (simp add: rtp_like_def)
  have "?buf ! 0 = buf ! 0" "?buf ! 1 = buf ! 1"
    using l by (simp_all add: nth_append)
  moreover have "be16 (?buf ! 2) (?buf ! 3) = sq"
    using l by (simp add: nth_append bytes16_def)
  moreover have "be32 (?buf ! 4) (?buf ! 5) (?buf ! 6) (?buf ! 7) = ts"
    using l by (simp add: nth_append bytes16_def bytes32_def)
  ultimately have "from_buf be ?buf = Ret (Inr (h\<lparr>sequence := sq, timestamp := ts\<rparr>))"
    using r l by (simp add: from_buf_eq [OF assms(1)] rtp_like_def h)
  then show ?thesis
    using l by (simp add: replace_sequence_n_timestamp_eq [OF assms(1)] min_def)
qed

theorem rtp_rewrite_roundtrip_witness:
  "\<exists>buf'. replace_sequence_n_timestamp NetworkEndian ([128, 224, 0, 1, 0, 0, 0, 2] @ replicate 8 7) 513 65536 = Ret buf' \<and>
    from_buf NetworkEndian buf' =
      Ret (Inr \<lparr>marker = True, payload = 96, sequence = 513, timestamp = 65536\<rparr>)"
proof -
  let ?buf = "[128, 224, 0, 1, 0, 0, 0, 2] @ replicate 8 7 :: bytes"
  have "from_buf NetworkEndian ?buf =
      Ret (Inr \<lparr>marker = True, payload = 96, sequence = 1, timestamp = 2\<rparr>)"
    by (simp add: from_buf_eq rtp_like_def be16_def be32_def)
  from rtp_rewrite_roundtrip [OF NetworkEndian_endian this, of 513 65536] show ?thesis
    by auto
qed

end
