(* ===== verification/Jitter.thy ===== *)
theory Jitter
  imports Actor Rtp_Core
begin

text \<open>
  \<open>src/src/rtp/jitter.rs\<close>: the actor that holds back the RTP packets of each address for the
  current delay of that address. Every reading of the monotonic clock in a handler is an argument:
  \<open>clk n\<close> is the n-th reading. Durations are natural numbers of nanoseconds, so \<open>Duration\<close>'s own
  overflow (above \<open>2^64\<close> seconds) is outside the model; its underflow is a branch.
\<close>

section \<open>Definitions\<close>

definition JITTER_BUFFER_DELAY_INCREASE_STEP :: time where
  "JITTER_BUFFER_DELAY_INCREASE_STEP = millis 10"

definition JITTER_BUFFER_START_DELAY :: time where
  "JITTER_BUFFER_START_DELAY = millis 50"

definition JITTER_BUFFER_VOLATILE :: u32 where
  "JITTER_BUFFER_VOLATILE = 1000"

definition JITTER_RECHECK_TIME :: time where
  "JITTER_RECHECK_TIME = secs 10"

record JitterBuffer =
  buffer :: "bytes list"
  time :: time
  delay :: time

definition JitterBuffer_new :: "time \<Rightarrow> time \<Rightarrow> JitterBuffer" where
  "JitterBuffer_new now d = \<lparr>buffer = [], time = now, delay = d\<rparr>"

definition JitterBuffer_default :: "time \<Rightarrow> JitterBuffer" where
  "JitterBuffer_default now = JitterBuffer_new now JITTER_BUFFER_START_DELAY"

type_synonym JitterBufferStorage = "SocketAddr \<rightharpoonup> JitterBuffer"

datatype JitterMessage =
    IncreaseJitterBufferDelay SocketAddr
  | DecreaseJitterBufferDelay SocketAddr
  | GetOrStoreJitterBuffer SocketAddr bytes

datatype GetOrStoreJitterBufferResponse = Buffer "bytes list option" | Packet bytes

text \<open>\<open>entry(addr).or_default()\<close>, \<open>Instant::elapsed\<close> and \<open>Duration\<close>'s subtraction.\<close>

definition entry_or_default :: "JitterBufferStorage \<Rightarrow> SocketAddr \<Rightarrow> time \<Rightarrow> JitterBuffer" where
  "entry_or_default st addr now =
     (case st addr of Some j \<Rightarrow> j | None \<Rightarrow> JitterBuffer_default now)"

definition elapsed :: "time \<Rightarrow> time \<Rightarrow> time" where
  "elapsed now t = now - t"

definition duration_sub :: "time \<Rightarrow> time \<Rightarrow> time rust" where
  "duration_sub a b = (if b \<le> a then Ret (a - b) else Abort DurationUnderflow)"

definition handle_IncreaseJitterBufferDelay ::
    "(nat \<Rightarrow> time) \<Rightarrow> SocketAddr \<Rightarrow> JitterBufferStorage \<Rightarrow> JitterBufferStorage" where
  "handle_IncreaseJitterBufferDelay clk addr st =
     (let jitter = entry_or_default st addr (clk 0)
      in st(addr \<mapsto> jitter\<lparr>delay := delay jitter + JITTER_BUFFER_DELAY_INCREASE_STEP\<rparr>))"

definition handle_DecreaseJitterBufferDelay ::
    "SocketAddr \<Rightarrow> JitterBufferStorage \<Rightarrow> JitterBufferStorage rust" where
  "handle_DecreaseJitterBufferDelay addr st =
     (case st addr of
        None \<Rightarrow> Ret st
      | Some jitter \<Rightarrow>
          if delay jitter \<le> JITTER_BUFFER_START_DELAY then Ret st
          else rbind (duration_sub (delay jitter) JITTER_BUFFER_DELAY_INCREASE_STEP) (\<lambda>d.
                 Ret (st(addr \<mapsto> jitter\<lparr>delay := d\<rparr>))))"

definition handle_GetOrStoreJitterBuffer ::
    "(nat \<Rightarrow> time) \<Rightarrow> SocketAddr \<Rightarrow> bytes \<Rightarrow> JitterBufferStorage \<Rightarrow>
      (GetOrStoreJitterBufferResponse \<times> JitterBufferStorage) rust" where
  "handle_GetOrStoreJitterBuffer clk addr data st =
     rbind (is_rtcp data) (\<lambda>rtcp.
       if rtcp then Ret (Packet data, st)
       else
         let jitter_buffer = entry_or_default st addr (clk 0);
             jitter_buffer = jitter_buffer\<lparr>buffer := buffer jitter_buffer @ [data]\<rparr>
         in if elapsed (clk 1) (time jitter_buffer) \<ge> delay jitter_buffer
            then Ret (Buffer (Some (buffer jitter_buffer)),
                      st(addr \<mapsto> jitter_buffer\<lparr>time := clk 2, buffer := []\<rparr>))
            else Ret (Buffer None, st(addr \<mapsto> jitter_buffer)))"

text \<open>The mailbox of the actor; an output is the reply to a packet, with the packet's address.\<close>

fun handle_jitter ::
    "JitterBufferStorage \<Rightarrow> (nat \<Rightarrow> time) \<times> JitterMessage \<Rightarrow>
      ((SocketAddr \<times> GetOrStoreJitterBufferResponse) list \<times> JitterBufferStorage) rust" where
  "handle_jitter st (clk, IncreaseJitterBufferDelay addr) =
     Ret ([], handle_IncreaseJitterBufferDelay clk addr st)"
| "handle_jitter st (clk, DecreaseJitterBufferDelay addr) =
     rbind (handle_DecreaseJitterBufferDelay addr st) (\<lambda>st'. Ret ([], st'))"
| "handle_jitter st (clk, GetOrStoreJitterBuffer addr data) =
     rbind (handle_GetOrStoreJitterBuffer clk addr data st) (\<lambda>(r, st'). Ret ([(addr, r)], st'))"

subsection \<open>Specification\<close>

text \<open>The RTP packets of one address that a message brings, a reply carries, the state holds.\<close>

fun accepted_at :: "SocketAddr \<Rightarrow> (nat \<Rightarrow> time) \<times> JitterMessage \<Rightarrow> bytes list" where
  "accepted_at a (clk, GetOrStoreJitterBuffer addr data) =
     (if addr = a \<and> \<not> rtcp_like data then [data] else [])"
| "accepted_at a _ = []"

fun released_at :: "SocketAddr \<Rightarrow> SocketAddr \<times> GetOrStoreJitterBufferResponse \<Rightarrow> bytes list" where
  "released_at a (addr, Buffer (Some b)) = (if addr = a then b else [])"
| "released_at a _ = []"

definition stored_at :: "SocketAddr \<Rightarrow> JitterBufferStorage \<Rightarrow> bytes list" where
  "stored_at a st = (case st a of None \<Rightarrow> [] | Some j \<Rightarrow> buffer j)"

text \<open>
  The delay of an address, abstractly: how many steps of 10 ms it is above the starting delay.
\<close>

definition delay_level :: "time \<Rightarrow> nat" where
  "delay_level d = (d - JITTER_BUFFER_START_DELAY) div JITTER_BUFFER_DELAY_INCREASE_STEP"

definition levels :: "JitterBufferStorage \<Rightarrow> SocketAddr \<Rightarrow> nat" where
  "levels st a = (case st a of None \<Rightarrow> 0 | Some j \<Rightarrow> delay_level (delay j))"

fun level_step :: "(SocketAddr \<Rightarrow> nat) \<Rightarrow> JitterMessage \<Rightarrow> SocketAddr \<Rightarrow> nat" where
  "level_step l (IncreaseJitterBufferDelay a) = l(a := Suc (l a))"
| "level_step l (DecreaseJitterBufferDelay a) = l(a := l a - 1)"
| "level_step l (GetOrStoreJitterBuffer a d) = l"

definition delay_ok :: "time \<Rightarrow> bool" where
  "delay_ok d \<longleftrightarrow>
     d = JITTER_BUFFER_START_DELAY + delay_level d * JITTER_BUFFER_DELAY_INCREASE_STEP"

definition jitter_inv :: "JitterBufferStorage \<Rightarrow> bool" where
  "jitter_inv st \<longleftrightarrow> (\<forall>a j. st a = Some j \<longrightarrow> delay_ok (delay j))"

section \<open>Lemmas\<close>

lemmas jitter_consts = JITTER_BUFFER_DELAY_INCREASE_STEP_def JITTER_BUFFER_START_DELAY_def
  JITTER_BUFFER_VOLATILE_def JITTER_RECHECK_TIME_def

lemma default_delay [simp]:
  "delay (JitterBuffer_default now) = JITTER_BUFFER_START_DELAY"
  "buffer (JitterBuffer_default now) = []"
  by (simp_all add: JitterBuffer_default_def JitterBuffer_new_def)

text \<open>The delay stays on the grid: start plus a multiple of the step, never below the start.\<close>

lemma delay_ok_iff: "delay_ok d \<longleftrightarrow> (\<exists>k. d = millis 50 + k * millis 10)"
  by (auto simp: delay_ok_def delay_level_def jitter_consts)

lemma delay_ok_start [simp]: "delay_ok JITTER_BUFFER_START_DELAY"
  by (simp add: delay_ok_iff jitter_consts exI [of _ 0])

lemma delay_ok_step:
  assumes "delay_ok d"
  shows "delay_ok (d + JITTER_BUFFER_DELAY_INCREASE_STEP)"
    and "delay_level (d + JITTER_BUFFER_DELAY_INCREASE_STEP) = Suc (delay_level d)"
    and "\<not> d \<le> JITTER_BUFFER_START_DELAY \<Longrightarrow> delay_ok (d - JITTER_BUFFER_DELAY_INCREASE_STEP) \<and>
      delay_level (d - JITTER_BUFFER_DELAY_INCREASE_STEP) = delay_level d - 1"
    and "d \<le> JITTER_BUFFER_START_DELAY \<Longrightarrow> delay_level d = 0"
proof -
  from assms obtain k where k: "d = millis 50 + k * millis 10"
    by (auto simp: delay_ok_iff)
  show "delay_ok (d + JITTER_BUFFER_DELAY_INCREASE_STEP)"
    unfolding delay_ok_iff by (rule exI [of _ "Suc k"]) (simp add: k jitter_consts)
  show "delay_level (d + JITTER_BUFFER_DELAY_INCREASE_STEP) = Suc (delay_level d)"
    by (simp add: k jitter_consts delay_level_def)
  show "d \<le> JITTER_BUFFER_START_DELAY \<Longrightarrow> delay_level d = 0"
    by (simp add: k jitter_consts delay_level_def)
  assume "\<not> d \<le> JITTER_BUFFER_START_DELAY"
  then obtain j where "k = Suc j"
    by (cases k) (simp_all add: k jitter_consts)
  then show "delay_ok (d - JITTER_BUFFER_DELAY_INCREASE_STEP) \<and>
      delay_level (d - JITTER_BUFFER_DELAY_INCREASE_STEP) = delay_level d - 1"
    by (auto simp: k jitter_consts delay_level_def delay_ok_iff intro!: exI [of _ j])
qed

lemma jitter_inv_entry: "jitter_inv st \<Longrightarrow> delay_ok (delay (entry_or_default st a now))"
  by (auto simp: jitter_inv_def entry_or_default_def split: option.splits)

lemma jitter_inv_upd: "jitter_inv st \<Longrightarrow> delay_ok (delay j) \<Longrightarrow> jitter_inv (st(a \<mapsto> j))"
  by (simp add: jitter_inv_def)

lemma handle_Decrease_returns: "returns (handle_DecreaseJitterBufferDelay a st)"
  by (auto simp: handle_DecreaseJitterBufferDelay_def duration_sub_def jitter_consts
      split: option.splits)

lemma handle_Decrease_eq:
  assumes "handle_DecreaseJitterBufferDelay a st = Ret st'"
  shows "st' = st \<and> (\<forall>j. st a = Some j \<longrightarrow> delay j \<le> JITTER_BUFFER_START_DELAY) \<or>
    (\<exists>j. st a = Some j \<and> \<not> delay j \<le> JITTER_BUFFER_START_DELAY \<and>
      st' = st(a \<mapsto> j\<lparr>delay := delay j - JITTER_BUFFER_DELAY_INCREASE_STEP\<rparr>))"
  using assms
  by (auto simp: handle_DecreaseJitterBufferDelay_def duration_sub_def rust_iffs
      split: option.splits if_splits)

interpretation jitter: actor_total handle_jitter jitter_inv
proof
  fix st st' :: JitterBufferStorage and m out
  assume i: "jitter_inv st" and h: "handle_jitter st m = Ret (out, st')"
  show "jitter_inv st'"
    using h
  proof (cases rule: handle_jitter.elims)
    case (1 clk addr)
    with i show ?thesis
      by (auto simp: handle_IncreaseJitterBufferDelay_def Let_def
          intro!: jitter_inv_upd delay_ok_step(1) jitter_inv_entry)
  next
    case (2 clk addr)
    with i show ?thesis
      by (auto simp: rust_iffs dest!: handle_Decrease_eq intro!: jitter_inv_upd)
        (auto simp: jitter_inv_def dest: delay_ok_step(3))
  next
    case (3 clk addr data)
    with i jitter_inv_entry [OF i, of addr "clk 0"] show ?thesis
      by (auto simp: handle_GetOrStoreJitterBuffer_def Let_def rust_iffs
          split: if_splits intro!: jitter_inv_upd)
  qed
next
  fix st :: JitterBufferStorage and m
  assume "jitter_inv st"
  show "returns (handle_jitter st m)"
    by (cases "(st, m)" rule: handle_jitter.cases)
      (auto simp: handle_GetOrStoreJitterBuffer_def Let_def
        intro!: returns_bindI handle_Decrease_returns)
qed

interpretation jitter_fifo: conserving_buffer handle_jitter "accepted_at a" "released_at a" "stored_at a"
  for a
proof
  fix st st' :: JitterBufferStorage and m out
  assume h: "handle_jitter st m = Ret (out, st')"
  then show "concat (map (released_at a) out) @ stored_at a st' = stored_at a st @ accepted_at a m"
  proof (cases rule: handle_jitter.elims)
    case (1 clk addr)
    then show ?thesis
      by (auto simp: handle_IncreaseJitterBufferDelay_def stored_at_def entry_or_default_def Let_def
          split: option.splits)
  next
    case (2 clk addr)
    then show ?thesis
      by (auto simp: rust_iffs stored_at_def dest!: handle_Decrease_eq)
  next
    case (3 clk addr data)
    then show ?thesis
      by (auto simp: handle_GetOrStoreJitterBuffer_def Let_def rust_iffs stored_at_def
          entry_or_default_def split: if_splits option.splits)
  qed
qed

text \<open>The abstract delay levels: one handler call is one step of the specification.\<close>

lemma levels_upd [simp]: "levels (st(a \<mapsto> j)) = (levels st)(a := delay_level (delay j))"
  by (auto simp: levels_def)

lemma delay_level_entry: "delay_level (delay (entry_or_default st a now)) = levels st a"
  by (auto simp: entry_or_default_def levels_def delay_level_def split: option.splits)

lemma handle_jitter_levels:
  assumes i: "jitter_inv st" and h: "handle_jitter st m = Ret (out, st')"
  shows "levels st' = level_step (levels st) (snd m)"
  using h
proof (cases rule: handle_jitter.elims)
  case (1 clk addr)
  with i show ?thesis
    by (simp add: handle_IncreaseJitterBufferDelay_def Let_def delay_ok_step(2) jitter_inv_entry
        delay_level_entry)
next
  case (2 clk addr)
  with i show ?thesis
    by (auto simp: rust_iffs jitter_inv_def levels_def delay_ok_step dest!: handle_Decrease_eq
        split: option.splits)
next
  case (3 clk addr data)
  then show ?thesis
    by (auto simp: handle_GetOrStoreJitterBuffer_def Let_def rust_iffs
        delay_level_entry split: if_splits)
qed

lemma run_jitter_levels:
  "jitter_inv st \<Longrightarrow> run_actor handle_jitter st ms = Ret (outs, st') \<Longrightarrow>
   levels st' = fold (\<lambda>m l. level_step l (snd m)) ms (levels st)"
proof (induction ms arbitrary: st outs)
  case Nil
  then show ?case by simp
next
  case (Cons m ms)
  from Cons.prems(2) show ?case
    by (rule run_actor_Cons_Ret)
      (simp add: Cons.IH [OF jitter.handle_inv [OF Cons.prems(1)]] handle_jitter_levels [OF Cons.prems(1)])
qed

section \<open>Properties\<close>

text \<open>
  C14. The jitter buffer neither loses, duplicates nor reorders: over any run of the actor, the RTP
  packets released for an address followed by those still stored for it are those stored before
  followed by those received, in order. Traffic of other addresses and changes of the delay do not
  matter.
\<close>

theorem jitter_conserves_packets:
  assumes "run_actor handle_jitter st ms = Ret (outs, st')"
  shows "concat (map (released_at a) outs) @ stored_at a st' =
    stored_at a st @ concat (map (accepted_at a) ms)"
  using assms by (rule jitter_fifo.run_conserves)

definition rtp_sample :: "u8 \<Rightarrow> bytes" where
  "rtp_sample n = [128, 96, 0, n] @ replicate 12 0"

definition jitter_example :: "((nat \<Rightarrow> time) \<times> JitterMessage) list" where
  "jitter_example =
     [((\<lambda>_. 0), GetOrStoreJitterBuffer (V4 1 1) (rtp_sample 1)),
      ((\<lambda>_. millis 20), GetOrStoreJitterBuffer (V4 1 2) (rtp_sample 9)),
      ((\<lambda>_. millis 50), GetOrStoreJitterBuffer (V4 1 1) (rtp_sample 2)),
      ((\<lambda>_. millis 60), GetOrStoreJitterBuffer (V4 1 1) (rtp_sample 3))]"

lemma rtp_sample_not_rtcp [simp]: "\<not> rtcp_like (rtp_sample n)"
  by (simp add: rtcp_like_def rtp_sample_def)

theorem jitter_conserves_packets_witness:
  "\<exists>outs st'. run_actor handle_jitter Map.empty jitter_example = Ret (outs, st') \<and>
    concat (map (released_at (V4 1 1)) outs) = [rtp_sample 1, rtp_sample 2] \<and>
    stored_at (V4 1 1) st' = [rtp_sample 3]"
proof -
  obtain outs st' where r: "run_actor handle_jitter Map.empty jitter_example = Ret (outs, st')"
    using jitter.run_returns [of Map.empty jitter_example] by (auto simp: jitter_inv_def)
  have "stored_at (V4 1 1) st' = [rtp_sample 3]"
    using r by (auto simp: jitter_example_def handle_GetOrStoreJitterBuffer_def entry_or_default_def
        JitterBuffer_default_def JitterBuffer_new_def elapsed_def jitter_consts Let_def stored_at_def)
  with jitter_conserves_packets [OF r, of "V4 1 1"] r show ?thesis
    by (auto simp: jitter_example_def stored_at_def)
qed

text \<open>
  From an empty storage the actor handles every message sequence without panicking, and the
  delay of every address is the starting delay of 50 ms plus a whole number of 10 ms steps: never
  below the start, so the subtraction in the decrease handler cannot underflow.
\<close>

theorem jitter_delay_grid:
  "\<exists>outs st'. run_actor handle_jitter Map.empty ms = Ret (outs, st') \<and>
     (\<forall>a j. st' a = Some j \<longrightarrow> millis 50 \<le> delay j \<and> (delay j - millis 50) mod millis 10 = 0)"
proof -
  obtain outs st' where r: "run_actor handle_jitter Map.empty ms = Ret (outs, st')" "jitter_inv st'"
    using jitter.run_returns [of Map.empty ms] by (auto simp: jitter_inv_def)
  have "millis 50 \<le> delay j \<and> (delay j - millis 50) mod millis 10 = 0" if "st' a = Some j" for a j
  proof -
    obtain k where "delay j = millis 50 + k * millis 10"
      using r(2) \<open>st' a = Some j\<close> by (force simp: jitter_inv_def delay_ok_iff)
    then show ?thesis by simp
  qed
  with r(1) show ?thesis by blast
qed

theorem jitter_delay_grid_witness:
  "\<exists>outs st'. run_actor handle_jitter Map.empty
      [((\<lambda>_. 0), IncreaseJitterBufferDelay (V4 1 1)), ((\<lambda>_. 0), DecreaseJitterBufferDelay (V4 1 1)),
       ((\<lambda>_. 0), DecreaseJitterBufferDelay (V4 1 1))] = Ret (outs, st') \<and>
    (\<exists>j. st' (V4 1 1) = Some j \<and> millis 50 \<le> delay j)"
  using jitter_delay_grid [of "[((\<lambda>_. 0), IncreaseJitterBufferDelay (V4 1 1)),
      ((\<lambda>_. 0), DecreaseJitterBufferDelay (V4 1 1)), ((\<lambda>_. 0), DecreaseJitterBufferDelay (V4 1 1))]"]
  by (simp add: handle_IncreaseJitterBufferDelay_def handle_DecreaseJitterBufferDelay_def
      entry_or_default_def duration_sub_def jitter_consts Let_def)

text \<open>
  C21. The delays refine a counter per address that an increase raises by one and a decrease lowers
  by one down to zero: after any run, the number of 10 ms steps of every address above the start is
  the counter folded over the messages.
\<close>

theorem jitter_delay_refines_counter:
  assumes "jitter_inv st" and "run_actor handle_jitter st ms = Ret (outs, st')"
  shows "levels st' = fold (\<lambda>m l. level_step l (snd m)) ms (levels st)"
  using assms by (rule run_jitter_levels)

theorem jitter_delay_refines_counter_witness:
  "\<exists>outs st'. run_actor handle_jitter Map.empty
      [((\<lambda>_. 0), IncreaseJitterBufferDelay (V4 1 1)), ((\<lambda>_. 0), IncreaseJitterBufferDelay (V4 1 1)),
       ((\<lambda>_. 0), DecreaseJitterBufferDelay (V4 1 1))] = Ret (outs, st') \<and> levels st' (V4 1 1) = 1"
proof -
  let ?ms = "[((\<lambda>_::nat. 0 :: time), IncreaseJitterBufferDelay (V4 1 1)),
    ((\<lambda>_. 0), IncreaseJitterBufferDelay (V4 1 1)), ((\<lambda>_. 0), DecreaseJitterBufferDelay (V4 1 1))]"
  have i: "jitter_inv Map.empty"
    by (simp add: jitter_inv_def)
  obtain outs st' where r: "run_actor handle_jitter Map.empty ?ms = Ret (outs, st')"
    using jitter.run_returns [OF i, of ?ms] by blast
  have "levels st' (V4 1 1) = 1"
    unfolding jitter_delay_refines_counter [OF i r] by (simp add: levels_def)
  with r show ?thesis by blast
qed

end
