(* ===== verification/Clients.thy ===== *)
theory Clients
  imports Srtp Media Jitter
begin

text \<open>
  \<open>src/src/client/clients.rs\<close> (the per-client state behind \<open>Arc<Client>\<close>),
  \<open>src/src/dtls/connector.rs\<close> and \<open>src/src/client/dtls.rs\<close> (the DTLS connection of a client).

  A client is shared by reference: the storage of all clients and the receiver tables of the clients
  hold \<open>Arc\<close>s to the same object, which outlives its removal from the storage. The model therefore
  keeps an explicit heap, the list of all clients ever created; a reference is an index into it.
  The byte streams that \<open>ClientState::New\<close> and \<open>ClientState::Connected\<close> carry belong to the TLS
  library, and so do the channels of a client (\<open>Ssl_Stream\<close>); what the library answers is an argument
  of \<open>connect\<close> and \<open>extract_dtls\<close>.
\<close>

section \<open>Definitions\<close>

datatype ClientState = New | Connected | Shutdown

text \<open>The order in which a client goes through its states.\<close>

primrec state_rank :: "ClientState \<Rightarrow> nat" where
  "state_rank New = 0"
| "state_rank Connected = 1"
| "state_rank Shutdown = 2"

instantiation ClientState :: linorder
begin

definition less_eq_ClientState :: "ClientState \<Rightarrow> ClientState \<Rightarrow> bool" where
  "a \<le> b \<longleftrightarrow> state_rank a \<le> state_rank b"

definition less_ClientState :: "ClientState \<Rightarrow> ClientState \<Rightarrow> bool" where
  "a < b \<longleftrightarrow> state_rank a < state_rank b"

instance
proof
  show "a = b" if "a \<le> b" "b \<le> a" for a b :: ClientState
    using that by (cases a; cases b) (simp_all add: less_eq_ClientState_def)
qed (auto simp: less_eq_ClientState_def less_ClientState_def)

end

datatype io_error = TimedOut | WouldBlock | ConnectionAborted | WriteZero | OtherIo nat

datatype ClientError =
    Receive nat
  | NotConnected
  | AlreadyConnected
  | Read io_error
  | SrtpParseError ErrorParse
  | SslErrorStack ErrorStack
  | SslError nat

text \<open>The conversions the \<open>?\<close> operators and \<open>into()\<close> apply; an \<open>ErrorKind\<close> becomes an \<open>io::Error\<close> first.\<close>

definition ClientError_from_SendError :: "nat \<Rightarrow> ClientError" where
  [simp]: "ClientError_from_SendError e = Receive e"

definition ClientError_from_io :: "io_error \<Rightarrow> ClientError" where
  [simp]: "ClientError_from_io e = Read e"

definition ClientError_from_ErrorParse :: "ErrorParse \<Rightarrow> ClientError" where
  [simp]: "ClientError_from_ErrorParse e = SrtpParseError e"

definition ClientError_from_ErrorStack :: "ErrorStack \<Rightarrow> ClientError" where
  [simp]: "ClientError_from_ErrorStack e = SslErrorStack e"

definition ClientError_from_SslError :: "nat \<Rightarrow> ClientError" where
  [simp]: "ClientError_from_SslError e = SslError e"

record ClientRtpRuntime =
  client_ts :: "u32 option"
  server_ts :: u32
  client_sequence :: "u16 option"
  server_sequence :: u16
  started_time :: time
  prev_time_diff :: time

text \<open>
  \<open>ClientRtpRuntime::default\<close>; the two random numbers are arguments, drawn from \<open>1..100000\<close> and
  \<open>1..10000\<close>.
\<close>

definition ClientRtpRuntime_default :: "u32 \<Rightarrow> u16 \<Rightarrow> time \<Rightarrow> ClientRtpRuntime" where
  "ClientRtpRuntime_default ts sq now =
     \<lparr>client_ts = None, server_ts = ts, client_sequence = None, server_sequence = sq,
      started_time = now, prev_time_diff = 0\<rparr>"

record ClientRtpJitterStats =
  jitter_delay :: u32
  jitter_check_timestamp :: time

definition ClientRtpJitterStats_default :: "time \<Rightarrow> ClientRtpJitterStats" where
  "ClientRtpJitterStats_default now =
     \<lparr>jitter_delay = of_nat (JITTER_BUFFER_START_DELAY div 1000000), jitter_check_timestamp = now\<rparr>"

type_synonym client_ref = nat

record ('s, 'b) Client =
  state :: ClientState
  media :: "'b MediaList option"
  srtp :: "'s SrtpTransport option"
  rtp_runtime_storage :: "u32 \<rightharpoonup> ClientRtpRuntime"
  jitter_stats :: ClientRtpJitterStats
  receivers :: "SocketAddr \<rightharpoonup> client_ref"
  sender_addr :: "SocketAddr option"
  is_deleted :: bool
  dtls_connected :: bool

definition Client_default :: "time \<Rightarrow> ('s, 'b) Client" where
  "Client_default now =
     \<lparr>state = New, media = None, srtp = None, rtp_runtime_storage = Map.empty,
      jitter_stats = ClientRtpJitterStats_default now, receivers = Map.empty, sender_addr = None,
      is_deleted = False, dtls_connected = False\<rparr>"

text \<open>The heap of clients and the storage both actors share.\<close>

record ('s, 'b) Shared =
  heap :: "('s, 'b) Client list"
  client_storage :: "SocketAddr \<rightharpoonup> client_ref"

definition client_at :: "('s, 'b, 'z) Shared_scheme \<Rightarrow> client_ref \<Rightarrow> ('s, 'b) Client" where
  "client_at w r = heap w ! r"

definition update_client ::
    "client_ref \<Rightarrow> (('s, 'b) Client \<Rightarrow> ('s, 'b) Client) \<Rightarrow>
      ('s, 'b, 'z) Shared_scheme \<Rightarrow> ('s, 'b, 'z) Shared_scheme" where
  "update_client r f w = w\<lparr>heap := (heap w)[r := f (heap w ! r)]\<rparr>"

text \<open>\<open>self.client_storage.write().entry(addr).or_default()\<close>.\<close>

definition entry_client ::
    "time \<Rightarrow> SocketAddr \<Rightarrow> ('s, 'b, 'z) Shared_scheme \<Rightarrow> client_ref \<times> ('s, 'b, 'z) Shared_scheme" where
  "entry_client now addr w =
     (case client_storage w addr of
        Some r \<Rightarrow> (r, w)
      | None \<Rightarrow> (length (heap w),
                 w\<lparr>heap := heap w @ [Client_default now],
                   client_storage := (client_storage w)(addr \<mapsto> length (heap w))\<rparr>))"

subsection \<open>The DTLS connection\<close>

datatype handshake = HandshakeTimeout | HandshakeError nat | Accepted ssl_session

text \<open>What OpenSSL and the network answer during one call of \<open>connect\<close>.\<close>

record connect_env =
  ssl_new :: "ErrorStack + unit"
  ssl_stream_new :: "ErrorStack + unit"
  ssl_accept :: handshake

text \<open>
  \<open>connect\<close>: the \<open>?\<close> operators of the handshake return from the whole function, with the state
  already replaced by \<open>Shutdown\<close>.
\<close>

definition connect ::
    "'s srtp_crate \<Rightarrow> connect_env \<Rightarrow> ('s, 'b) Client \<Rightarrow>
      (ClientError + 's SrtpTransport) \<times> ('s, 'b) Client" where
  "connect sc env c =
     (case ssl_new env of
        Inl e \<Rightarrow> (Inl (ClientError_from_ErrorStack e), c)
      | Inr _ \<Rightarrow>
          let c' = c\<lparr>state := Shutdown\<rparr> in
          case state c of
            New \<Rightarrow>
              (case ssl_stream_new env of
                 Inl e \<Rightarrow> (Inl (ClientError_from_ErrorStack e), c')
               | Inr _ \<Rightarrow>
                   (case ssl_accept env of
                      HandshakeTimeout \<Rightarrow> (Inl (ClientError_from_io TimedOut), c')
                    | HandshakeError e \<Rightarrow> (Inl (ClientError_from_SslError e), c')
                    | Accepted ssl \<Rightarrow>
                        (case SrtpTransport_new sc ssl of
                           Inl e \<Rightarrow> (Inl (ClientError_from_ErrorParse e), c')
                         | Inr srtp_transport \<Rightarrow> (Inr srtp_transport, c'\<lparr>state := Connected\<rparr>))))
          | Connected \<Rightarrow> (Inl AlreadyConnected, c')
          | Shutdown \<Rightarrow> (Inl (ClientError_from_io WouldBlock), c'))"

definition extract_dtls :: "io_error + nat \<Rightarrow> ('s, 'b) Client \<Rightarrow> ClientError + nat" where
  "extract_dtls ssl_read c =
     (if state c = Connected
      then case ssl_read of Inl e \<Rightarrow> Inl (ClientError_from_io e) | Inr n \<Rightarrow> Inr n
      else Inl NotConnected)"

text \<open>Two addresses for concrete runs.\<close>

abbreviation addr1 :: SocketAddr where "addr1 \<equiv> V4 1 1"
abbreviation addr2 :: SocketAddr where "addr2 \<equiv> V4 2 2"

section \<open>Lemmas\<close>

lemma update_client_simps [simp]:
  "length (heap (update_client r f w)) = length (heap w)"
  "client_storage (update_client r f w) = client_storage w"
  "r < length (heap w) \<Longrightarrow> client_at (update_client r f w) r = f (client_at w r)"
  "r' \<noteq> r \<Longrightarrow> client_at (update_client r f w) r' = client_at w r'"
  by (simp_all add: update_client_def client_at_def)

lemma client_at_update:
  "client_at (update_client r f w) r' =
     (if r' = r \<and> r < length (heap w) then f (client_at w r) else client_at w r')"
  by (auto simp: update_client_def client_at_def list_update_beyond)

lemma Client_default_simps [simp]:
  "receivers (Client_default now) = Map.empty" "is_deleted (Client_default now) = False"
  "srtp (Client_default now) = None" "state (Client_default now) = New"
  by (simp_all add: Client_default_def)

lemma connect_links:
  "receivers (snd (connect sc env c)) = receivers c"
  "is_deleted (snd (connect sc env c)) = is_deleted c"
  by (auto simp: connect_def Let_def split: sum.splits ClientState.splits handshake.splits)

lemma state_order [simp]: "New \<le> s" "s \<le> Shutdown"
  by (cases s; simp add: less_eq_ClientState_def)+

lemma connect_advances: "state c \<le> state (snd (connect sc env c))"
  by (cases "state c")
    (auto simp: connect_def Let_def split: sum.splits handshake.splits)

lemma connect_Inr:
  assumes "connect sc env c = (Inr t, c')"
  shows "state c = New \<and> c' = c\<lparr>state := Connected\<rparr> \<and>
    (\<exists>ssl. ssl_accept env = Accepted ssl \<and> SrtpTransport_new sc ssl = Inr t)"
  using assms
  by (auto simp: connect_def Let_def split: sum.splits ClientState.splits handshake.splits)

lemma connect_Inl:
  assumes "connect sc env c = (Inl e, c')"
  shows "c' = c \<and> (\<exists>x. ssl_new env = Inl x \<and> e = SslErrorStack x) \<or> c' = c\<lparr>state := Shutdown\<rparr>"
  using assms
  by (auto simp: connect_def Let_def split: sum.splits ClientState.splits handshake.splits)

subsection \<open>Well-formed sharing\<close>

text \<open>
  \<open>links\<close> is what ties clients to each other. \<open>occurs w a r\<close>: reference \<open>r\<close> is stored somewhere
  under address \<open>a\<close>, in the storage or in a receiver table. The invariant: references are valid, one
  reference is only ever stored under one address, a registered client is not deleted, and a
  reference that is not marked deleted is the client registered at its address.
\<close>

definition links :: "('s, 'b) Client \<Rightarrow> (SocketAddr \<rightharpoonup> client_ref) \<times> bool" where
  "links c = (receivers c, is_deleted c)"

definition occurs :: "('s, 'b, 'z) Shared_scheme \<Rightarrow> SocketAddr \<Rightarrow> client_ref \<Rightarrow> bool" where
  "occurs w a r \<longleftrightarrow> client_storage w a = Some r \<or>
     (\<exists>q < length (heap w). receivers (client_at w q) a = Some r)"

definition sharing_ok :: "('s, 'b, 'z) Shared_scheme \<Rightarrow> bool" where
  "sharing_ok w \<longleftrightarrow>
     (\<forall>a r. occurs w a r \<longrightarrow> r < length (heap w)) \<and>
     (\<forall>a b r. occurs w a r \<longrightarrow> occurs w b r \<longrightarrow> a = b) \<and>
     (\<forall>a r. client_storage w a = Some r \<longrightarrow> \<not> is_deleted (client_at w r)) \<and>
     (\<forall>a r. occurs w a r \<longrightarrow> \<not> is_deleted (client_at w r) \<longrightarrow> client_storage w a = Some r)"

lemma sharing_okD:
  assumes "sharing_ok w"
  shows "occurs w a r \<Longrightarrow> r < length (heap w)"
    and "occurs w a r \<Longrightarrow> occurs w b r \<Longrightarrow> a = b"
    and "client_storage w a = Some r \<Longrightarrow> \<not> is_deleted (client_at w r)"
    and "occurs w a r \<Longrightarrow> \<not> is_deleted (client_at w r) \<Longrightarrow> client_storage w a = Some r"
  using assms unfolding sharing_ok_def by blast+

lemma storage_occurs [simp]: "client_storage w a = Some r \<Longrightarrow> occurs w a r"
  by (simp add: occurs_def)

lemma storage_valid: "sharing_ok w \<Longrightarrow> client_storage w a = Some r \<Longrightarrow> r < length (heap w)"
  by (rule sharing_okD(1) [where a = a]) simp_all

lemma sharing_frame:
  assumes "client_storage w' = client_storage w" and "map links (heap w') = map links (heap w)"
  shows "sharing_ok w' = sharing_ok w"
proof -
  have l: "length (heap w') = length (heap w)"
    using assms(2) by (metis length_map)
  have e: "receivers (client_at w' q) = receivers (client_at w q)"
    "is_deleted (client_at w' q) = is_deleted (client_at w q)" if "q < length (heap w)" for q
    using nth_map [of q "heap w" links] nth_map [of q "heap w'" links] that l assms(2)
    by (simp_all add: links_def client_at_def)
  have o: "occurs w' a r = occurs w a r" for a r
    using e by (auto simp: occurs_def assms(1) l)
  show ?thesis
  proof (cases "\<forall>a r. occurs w a r \<longrightarrow> r < length (heap w)")
    case True
    then have d: "is_deleted (client_at w' r) = is_deleted (client_at w r)" if "occurs w a r" for a r
      using that e(2) by blast
    have "(\<forall>a r. client_storage w a = Some r \<longrightarrow> \<not> is_deleted (client_at w' r)) =
        (\<forall>a r. client_storage w a = Some r \<longrightarrow> \<not> is_deleted (client_at w r))"
      using d storage_occurs by metis
    moreover have "(\<forall>a r. occurs w a r \<longrightarrow> \<not> is_deleted (client_at w' r) \<longrightarrow> client_storage w a = Some r) =
        (\<forall>a r. occurs w a r \<longrightarrow> \<not> is_deleted (client_at w r) \<longrightarrow> client_storage w a = Some r)"
      using d by metis
    ultimately show ?thesis
      unfolding sharing_ok_def o assms(1) l by (simp only:)
  next
    case False
    then show ?thesis
      unfolding sharing_ok_def o assms(1) l by blast
  qed
qed

lemma update_client_frame:
  assumes "\<And>c. links (f c) = links c"
  shows "sharing_ok (update_client r f w) = sharing_ok w"
proof (rule sharing_frame)
  show "map links (heap (update_client r f w)) = map links (heap w)"
    by (cases "r < length (heap w)")
      (simp_all add: update_client_def map_update assms list_update_beyond list_update_same_conv)
qed simp

lemma occurs_new_client:
  assumes "sharing_ok w" and "client_storage w addr = None"
    and "w' = w\<lparr>heap := heap w @ [Client_default now],
      client_storage := (client_storage w)(addr \<mapsto> length (heap w))\<rparr>"
  shows "occurs w' a q \<longleftrightarrow> (a = addr \<and> q = length (heap w)) \<or> (occurs w a q \<and> q \<noteq> length (heap w))"
    and "q < length (heap w) \<Longrightarrow> client_at w' q = client_at w q"
    and "client_at w' (length (heap w)) = Client_default now"
proof -
  let ?n = "length (heap w)"
  have c: "client_at w' p = (if p < ?n then client_at w p else Client_default now)" if "p \<le> ?n" for p
    using that by (auto simp: assms(3) client_at_def nth_append)
  have "occurs w' a q \<longleftrightarrow> (if a = addr then Some ?n else client_storage w a) = Some q \<or>
      (\<exists>p < ?n. receivers (client_at w p) a = Some q)"
    using c by (auto simp: occurs_def assms(3) less_Suc_eq)
  moreover have "q \<noteq> ?n" if "occurs w a q"
    using sharing_okD(1) [OF assms(1) that] by simp
  ultimately show "occurs w' a q \<longleftrightarrow> (a = addr \<and> q = ?n) \<or> (occurs w a q \<and> q \<noteq> ?n)"
    using assms(2) by (auto simp: occurs_def)
  show "q < ?n \<Longrightarrow> client_at w' q = client_at w q" "client_at w' ?n = Client_default now"
    using c by simp_all
qed

lemma sharing_new_client:
  assumes "sharing_ok w" and "client_storage w addr = None"
    and "w' = w\<lparr>heap := heap w @ [Client_default now],
      client_storage := (client_storage w)(addr \<mapsto> length (heap w))\<rparr>"
  shows "sharing_ok w'"
proof -
  note o = occurs_new_client(1) [OF assms] and c = occurs_new_client(2,3) [OF assms]
  note D = sharing_okD [OF assms(1)]
  have len: "length (heap w') = Suc (length (heap w))"
    by (simp add: assms(3))
  show ?thesis
    unfolding sharing_ok_def
  proof (intro conjI allI impI)
    show "q < length (heap w')" if "occurs w' a q" for a q
      using that D(1) [of a q] by (auto simp: o len)
    show "a = b" if "occurs w' a q" "occurs w' b q" for a b q
      using that D(2) by (auto simp: o)
    show "\<not> is_deleted (client_at w' q)" if st: "client_storage w' a = Some q" for a q
    proof (cases "a = addr")
      case False
      then have "client_storage w a = Some q"
        using st by (simp add: assms(3))
      then show ?thesis
        using D(3) storage_valid [OF assms(1)] by (fastforce simp: c)
    qed (use st in \<open>auto simp: assms(3) c [unfolded assms(3)]\<close>)
    show "client_storage w' a = Some q" if "occurs w' a q" "\<not> is_deleted (client_at w' q)" for a q
    proof (cases "a = addr \<and> q = length (heap w)")
      case False
      with that have oc: "occurs w a q"
        by (auto simp: o)
      then have "client_storage w a = Some q"
        using that(2) c(1) [of q] D(1,4) [OF oc] by simp
      then show ?thesis
        using assms(2) by (auto simp: assms(3))
    qed (simp add: assms(3))
  qed
qed

lemma sharing_entry:
  assumes "sharing_ok w" and "entry_client now addr w = (r, w')"
  shows "sharing_ok w' \<and> client_storage w' addr = Some r \<and> r < length (heap w')"
proof (cases "client_storage w addr")
  case (Some q)
  with assms show ?thesis
    by (auto simp: entry_client_def intro: storage_valid)
next
  case None
  then show ?thesis
    using assms(2) sharing_new_client [OF assms(1) None refl, of now] by (auto simp: entry_client_def)
qed

end
