(* ===== verification/Group_Table.thy ===== *)
theory Group_Table
  imports Rust_Prelude
begin

text \<open>
  \<open>src/src/client/group.rs\<close>: which address currently sends in each group. The locale
  \<open>sender_registry\<close> is what the client actor relies on; it is interpreted on the operations below.
\<close>

section \<open>Definitions\<close>

record Group =
  groups_storage :: "nat \<rightharpoonup> SocketAddr"

definition Group_default :: Group where
  "Group_default = \<lparr>groups_storage = Map.empty\<rparr>"

text \<open>The returned address, and the table after the call.\<close>

definition insert_or_get_sender :: "Group \<Rightarrow> nat \<Rightarrow> SocketAddr \<Rightarrow> bool \<Rightarrow> SocketAddr \<times> Group" where
  "insert_or_get_sender g group_id addr is_sender =
     (if is_sender
      then (case groups_storage g group_id of Some old \<Rightarrow> old | None \<Rightarrow> addr,
            g\<lparr>groups_storage := (groups_storage g)(group_id \<mapsto> addr)\<rparr>)
      else case groups_storage g group_id of
             Some sender \<Rightarrow> (sender, g)
           | None \<Rightarrow> (addr, g\<lparr>groups_storage := (groups_storage g)(group_id \<mapsto> addr)\<rparr>))"

definition remove_sender :: "Group \<Rightarrow> SocketAddr \<Rightarrow> Group" where
  "remove_sender g addr =
     g\<lparr>groups_storage := (\<lambda>k. case groups_storage g k of
         Some sender_addr \<Rightarrow> if addr \<noteq> sender_addr then Some sender_addr else None
       | None \<Rightarrow> None)\<rparr>"

section \<open>The contract of the registry\<close>

locale sender_registry =
  fixes sender_of :: "'g \<Rightarrow> nat \<Rightarrow> SocketAddr option"
    and join :: "'g \<Rightarrow> nat \<Rightarrow> SocketAddr \<Rightarrow> bool \<Rightarrow> SocketAddr \<times> 'g"
    and leave :: "'g \<Rightarrow> SocketAddr \<Rightarrow> 'g"
  assumes join_returns: "fst (join g k a s) = (case sender_of g k of Some p \<Rightarrow> p | None \<Rightarrow> a)"
    and join_sender: "sender_of (snd (join g k a True)) = (sender_of g)(k \<mapsto> a)"
    and join_viewer: "sender_of (snd (join g k a False)) =
      (case sender_of g k of Some p \<Rightarrow> sender_of g | None \<Rightarrow> (sender_of g)(k \<mapsto> a))"
    and leave_eq: "sender_of (leave g a) k = (if sender_of g k = Some a then None else sender_of g k)"
begin

lemma join_has_sender: "\<exists>p. sender_of (snd (join g k a s)) k = Some p"
  by (cases s) (auto simp: join_sender join_viewer split: option.splits)

lemma join_other_group: "k' \<noteq> k \<Longrightarrow> sender_of (snd (join g k a s)) k' = sender_of g k'"
  by (cases s) (auto simp: join_sender join_viewer split: option.splits)

text \<open>Only a sender displaces a sender: after any joins of viewers the group's sender is the same.\<close>

lemma viewers_keep_sender:
  "sender_of g k = Some p \<Longrightarrow>
   sender_of (fold (\<lambda>(k', a) g. snd (join g k' a False)) js g) k = Some p"
proof (induction js arbitrary: g)
  case Nil
  then show ?case by simp
next
  case (Cons j js)
  obtain k' a where j: "j = (k', a)"
    by (cases j)
  have "sender_of (snd (join g k' a False)) k = Some p"
    using Cons.prems by (auto simp: join_viewer split: option.splits)
  then show ?case
    using Cons.IH by (simp add: j)
qed

lemma left_everywhere: "sender_of (leave g a) k \<noteq> Some a"
  by (simp add: leave_eq)

text \<open>A joining address is told to follow itself exactly when it is, or becomes, the sender.\<close>

lemma join_self_iff:
  "fst (join g k a s) = a \<longleftrightarrow> sender_of g k = None \<or> sender_of g k = Some a"
  by (auto simp: join_returns split: option.splits)

end

interpretation groups: sender_registry groups_storage insert_or_get_sender remove_sender
  by unfold_locales
    (auto simp: insert_or_get_sender_def remove_sender_def fun_eq_iff split: option.splits)

end
