(* ===== verification/Stun_Parse.thy ===== *)
theory Stun_Parse
  imports Rust_Text
begin

text \<open>
  \<open>parse_stun_binding_request\<close> of \<open>src/src/stun/mod.rs\<close>, with its constants. The attribute-level
  specification at the end of the definitions (a message as a list of type-length-value attributes)
  is what the byte-level parser is shown to implement: it never indexes out of bounds, its loop
  stops, and on an encoded attribute list it returns the first \<open>USERNAME\<close> attribute, provided at
  least 20 further bytes of attributes follow it.
\<close>

section \<open>Definitions\<close>

subsection \<open>Constants\<close>

datatype StunType = BindingRequest | SuccessResponse

primrec stun_type_code :: "StunType \<Rightarrow> u16" where
  "stun_type_code BindingRequest = 0x0001"
| "stun_type_code SuccessResponse = 0x0101"

datatype StunAttributeType = User | MessageIntegrity | XorMappedAddress | Fingerprint

primrec stun_attribute_code :: "StunAttributeType \<Rightarrow> u16" where
  "stun_attribute_code User = 0x06"
| "stun_attribute_code MessageIntegrity = 0x08"
| "stun_attribute_code XorMappedAddress = 0x20"
| "stun_attribute_code Fingerprint = 0x8028"

definition STUN_TRANSACTION_ID_LEN :: nat where
  "STUN_TRANSACTION_ID_LEN = 12"

definition STUN_MAX_IDENTIFIER_LEN :: nat where
  "STUN_MAX_IDENTIFIER_LEN = 128"

definition STUN_HEADER_LEN :: nat where
  "STUN_HEADER_LEN = 20"

definition STUN_ALIGNMENT :: nat where
  "STUN_ALIGNMENT = 4"

definition STUN_COOKIE :: bytes where
  "STUN_COOKIE = [0x21, 0x12, 0xa4, 0x42]"

subsection \<open>The parser\<close>

record StunBindingRequest =
  transaction_id :: bytes
  remote_user :: string
  server_user :: string

text \<open>\<open>(payload_len + STUN_ALIGNMENT - 1) & !(STUN_ALIGNMENT - 1)\<close> on 64-bit words.\<close>

definition stun_padded_len :: "nat \<Rightarrow> nat" where
  "stun_padded_len payload_len =
     unat ((of_nat (payload_len + STUN_ALIGNMENT - 1) :: 64 word) AND NOT (of_nat (STUN_ALIGNMENT - 1)))"

text \<open>The body of \<open>if payload_type == StunAttributeType::User\<close>.\<close>

definition parse_stun_user :: "bytes \<Rightarrow> bytes \<Rightarrow> StunBindingRequest option rust" where
  "parse_stun_user tid server_and_remote_user =
     (case position (\<lambda>c. c = 0x3a) server_and_remote_user of
        None \<Rightarrow> Ret None
      | Some colon \<Rightarrow>
          rbind (subslice server_and_remote_user 0 colon) (\<lambda>su.
          rbind (subslice server_and_remote_user (colon + 1) (length server_and_remote_user)) (\<lambda>ru.
            if length su > STUN_MAX_IDENTIFIER_LEN \<or> length ru > STUN_MAX_IDENTIFIER_LEN
            then Ret None
            else case from_utf8 su of
                None \<Rightarrow> Ret None
              | Some s \<Rightarrow>
                  (case from_utf8 ru of
                     None \<Rightarrow> Ret None
                   | Some r \<Rightarrow> Ret (Some \<lparr>transaction_id = tid, remote_user = r, server_user = s\<rparr>)))))"

lemma rbind_cong [fundef_cong]:
  "m = m' \<Longrightarrow> (\<And>x. m' = Ret x \<Longrightarrow> f x = g x) \<Longrightarrow> rbind m f = rbind m' g"
  by (cases m') auto

text \<open>The \<open>while\<close> loop over the attributes.\<close>

function parse_stun_attributes ::
    "byteorder \<Rightarrow> bytes \<Rightarrow> nat \<Rightarrow> bytes \<Rightarrow> nat \<Rightarrow> StunBindingRequest option rust" where
  "parse_stun_attributes be bytes len tid offset =
     rbind (usize_sub len 4) (\<lambda>limit.
       if offset < limit then
         rbind (subslice bytes offset (offset + 2)) (\<lambda>ty.
         rbind (subslice bytes (offset + 2) (offset + 4)) (\<lambda>ln.
           let payload_type = read_u16 be ty;
               payload_len = unat (read_u16 be ln);
               offset = offset + 4;
               padded_len = stun_padded_len payload_len
           in if offset + padded_len > len then Ret None
              else if payload_type = stun_attribute_code User then
                rbind (subslice bytes offset (offset + payload_len)) (parse_stun_user tid)
              else parse_stun_attributes be bytes len tid (offset + padded_len)))
       else Ret None)"
  by pat_completeness auto
termination
  by (relation "measure (\<lambda>(be, bytes, len, tid, offset). len - offset)")
    (auto simp: usize_sub_def split: if_splits)

declare parse_stun_attributes.simps [simp del]

definition parse_stun_binding_request :: "byteorder \<Rightarrow> bytes \<Rightarrow> StunBindingRequest option rust" where
  "parse_stun_binding_request be bytes =
     (if length bytes < STUN_HEADER_LEN then Ret None
      else
        rbind (idx bytes 0) (\<lambda>b0.
        if drop_bit 6 b0 \<noteq> 0 then Ret None
        else
          rbind (subslice bytes 0 2) (\<lambda>ty.
          if read_u16 be ty \<noteq> stun_type_code BindingRequest then Ret None
          else
            rbind (subslice bytes 2 4) (\<lambda>ln.
            let len = unat (read_u16 be ln) in
            if len < 4 \<or> STUN_HEADER_LEN + len > length bytes then Ret None
            else
              rbind (subslice bytes 4 8) (\<lambda>cookie.
              if cookie \<noteq> STUN_COOKIE then Ret None
              else
                rbind (subslice bytes 8 STUN_HEADER_LEN) (\<lambda>tid.
                  parse_stun_attributes be bytes len tid STUN_HEADER_LEN))))))"

subsection \<open>Attribute-level specification\<close>

type_synonym stun_attribute = "u16 \<times> bytes"

definition encode_attribute :: "stun_attribute \<Rightarrow> bytes" where
  "encode_attribute a =
     bytes16 (fst a) @ bytes16 (of_nat (length (snd a))) @ snd a @
     replicate (4 * ((length (snd a) + 3) div 4) - length (snd a)) 0"

definition encode_attributes :: "stun_attribute list \<Rightarrow> bytes" where
  "encode_attributes as = concat (map encode_attribute as)"

definition encode_binding_request :: "bytes \<Rightarrow> stun_attribute list \<Rightarrow> bytes" where
  "encode_binding_request tid as =
     bytes16 (stun_type_code BindingRequest) @ bytes16 (of_nat (length (encode_attributes as))) @
     STUN_COOKIE @ tid @ encode_attributes as"

text \<open>The request a user attribute denotes, and the attribute the parser settles on.\<close>

definition user_request :: "bytes \<Rightarrow> bytes \<Rightarrow> StunBindingRequest option" where
  "user_request tid v =
     (let su = takeWhile (\<lambda>c. c \<noteq> 0x3a) v; ru = tl (dropWhile (\<lambda>c. c \<noteq> 0x3a) v)
      in if 0x3a \<in> set v \<and> length su \<le> 128 \<and> length ru \<le> 128 \<and> utf8_valid su \<and> utf8_valid ru
         then Some \<lparr>transaction_id = tid, remote_user = str_of_bytes ru,
                    server_user = str_of_bytes su\<rparr>
         else None)"

fun find_user :: "bytes \<Rightarrow> stun_attribute list \<Rightarrow> StunBindingRequest option" where
  "find_user tid [] = None"
| "find_user tid (a # as) =
     (if length (encode_attributes as) < 20 then None
      else if fst a = stun_attribute_code User then user_request tid (snd a)
      else find_user tid as)"

section \<open>Lemmas\<close>

lemmas stun_consts =
  STUN_TRANSACTION_ID_LEN_def STUN_MAX_IDENTIFIER_LEN_def STUN_HEADER_LEN_def STUN_ALIGNMENT_def

lemma and_not_3: "(w :: 64 word) AND NOT 3 = push_bit 2 (drop_bit 2 w)"
proof (rule bit_word_eqI)
  fix n
  assume n: "n < LENGTH(64)"
  have three: "(3 :: 64 word) = mask 2"
    by (simp add: mask_eq_exp_minus_1)
  have "bit (3 :: 64 word) n \<longleftrightarrow> n < 2"
    unfolding three using n by (simp add: bit_mask_iff)
  with n show "bit (w AND NOT 3) n \<longleftrightarrow> bit (push_bit 2 (drop_bit 2 w)) n"
    by (auto simp: bit_simps simp flip: add_2_eq_Suc)
qed

lemma unat_and_not_3:
  fixes w :: "64 word"
  assumes "unat w < 2 ^ 62"
  shows "unat (w AND NOT 3) = 4 * (unat w div 4)"
proof -
  have d: "unat (drop_bit 2 w) = unat w div 4"
    by (simp add: drop_bit_eq_div unat_div)
  have "unat (push_bit 2 (drop_bit 2 w)) = take_bit 64 (push_bit 2 (unat (drop_bit 2 w)))"
    by (simp only: unsigned_push_bit_eq) simp
  also have "\<dots> = 4 * (unat w div 4)"
    using assms by (simp only: d push_bit_eq_mult take_bit_eq_mod) simp
  finally show ?thesis
    by (simp only: and_not_3)
qed

lemma stun_padded_len_eq:
  assumes "n < 65536"
  shows "stun_padded_len n = 4 * ((n + 3) div 4)"
proof -
  have v: "unat (of_nat (n + 3) :: 64 word) = n + 3"
    using assms by (simp only: unat_of_nat) simp
  then have "unat ((of_nat (n + 3) :: 64 word) AND NOT 3) = 4 * ((n + 3) div 4)"
    using assms by (subst unat_and_not_3) (simp_all only: v, simp_all)
  then show ?thesis
    by (simp add: stun_padded_len_def stun_consts add.commute)
qed

lemma stun_padded_len_ge: "n < 65536 \<Longrightarrow> n \<le> stun_padded_len n"
  by (simp add: stun_padded_len_eq)

text \<open>The user attribute: what the code does with slices is what the specification says.\<close>

lemma position_None_iff: "position p xs = None \<longleftrightarrow> (\<forall>x \<in> set xs. \<not> p x)"
  by (induction xs) auto

lemma parse_stun_user_eq: "parse_stun_user tid v = Ret (user_request tid v)"
proof (cases "position (\<lambda>c. c = 0x3a) v")
  case None
  then have "0x3a \<notin> set v"
    by (auto simp: position_None_iff)
  with None show ?thesis
    by (simp add: parse_stun_user_def user_request_def Let_def)
next
  case (Some colon)
  from position_Some_split [OF this] obtain su ru where
    v: "v = su @ 0x3a # ru" and len: "length su = colon" and su: "\<forall>x \<in> set su. x \<noteq> 0x3a"
    by blast
  have "takeWhile (\<lambda>c. c \<noteq> 0x3a) v = su" and "dropWhile (\<lambda>c. c \<noteq> 0x3a) v = 0x3a # ru"
    using su by (simp_all add: v)
  then show ?thesis
    using Some len
    by (auto simp: parse_stun_user_def user_request_def v subslice_def from_utf8_def stun_consts Let_def)
qed

lemma parse_stun_attributes_returns:
  "4 \<le> len \<Longrightarrow> len \<le> length bytes \<Longrightarrow>
   returns (parse_stun_attributes be bytes len tid offset)"
proof (induction be bytes len tid offset rule: parse_stun_attributes.induct)
  case (1 be bytes len tid offset)
  show ?case
  proof (cases "offset < len - 4")
    case False
    with "1.prems" show ?thesis
      by (subst parse_stun_attributes.simps) simp
  next
    case True
    let ?ty = "take 2 (drop offset bytes)" and ?ln = "take 2 (drop (offset + 2) bytes)"
    let ?n = "unat (read_u16 be ?ln)"
    have n: "?n \<le> stun_padded_len ?n"
      by (rule stun_padded_len_ge [OF unat_u16_less])
    have sl: "subslice bytes offset (offset + 2) = Ret ?ty"
      "subslice bytes (offset + 2) (offset + 4) = Ret ?ln"
      using True "1.prems" by (simp_all add: numeral_eq_Suc)
    have "returns (parse_stun_attributes be bytes len tid (offset + 4 + stun_padded_len ?n))"
      if "\<not> offset + 4 + stun_padded_len ?n > len" "read_u16 be ?ty \<noteq> stun_attribute_code User"
      using that True "1.prems" sl by (intro "1.IH") auto
    moreover have "subslice bytes (offset + 4) (offset + 4 + ?n) = Ret (take ?n (drop (offset + 4) bytes))"
      if "\<not> offset + 4 + stun_padded_len ?n > len"
      using that n "1.prems" by (subst subslice_in) auto
    ultimately show ?thesis
      using True "1.prems" sl
      by (subst parse_stun_attributes.simps) (auto simp: Let_def parse_stun_user_eq)
  qed
qed

lemma parse_stun_binding_request_returns: "returns (parse_stun_binding_request be bytes)"
proof (cases "length bytes < 20")
  case True
  then show ?thesis
    by (simp add: parse_stun_binding_request_def stun_consts)
next
  case False
  then obtain b0 r where "bytes = b0 # r"
    by (cases bytes) auto
  with False show ?thesis
    by (auto simp: parse_stun_binding_request_def stun_consts Let_def
        intro!: parse_stun_attributes_returns)
qed

subsection \<open>Encoded requests\<close>

definition attributes_fit :: "stun_attribute list \<Rightarrow> bool" where
  "attributes_fit as \<longleftrightarrow> (\<forall>a \<in> set as. length (snd a) < 65536)"

lemma length_encode_attribute:
  "length (encode_attribute a) = 4 + 4 * ((length (snd a) + 3) div 4)"
  by (simp add: encode_attribute_def)

lemma encode_attributes_Cons [simp]:
  "encode_attributes [] = []"
  "encode_attributes (a # as) = encode_attribute a @ encode_attributes as"
  by (simp_all add: encode_attributes_def)

lemma find_user_short: "length (encode_attributes as) \<le> 20 \<Longrightarrow> find_user tid as = None"
  by (cases as) (auto simp: length_encode_attribute)

lemma find_user_split:
  "\<forall>a \<in> set pre. fst a \<noteq> stun_attribute_code User \<Longrightarrow>
   find_user tid (pre @ (stun_attribute_code User, v) # post) =
     (if 20 \<le> length (encode_attributes post) then user_request tid v else None)"
  by (induction pre) (auto simp: encode_attributes_def)

text \<open>One turn of the loop on an encoded attribute.\<close>

lemma parse_stun_attributes_step:
  assumes be: "network_endian be" and v: "length (snd a) < 65536"
    and pre: "length pre = offset"
    and len: "4 \<le> len" "len \<le> offset + length (encode_attribute a) + length post"
  shows "parse_stun_attributes be (pre @ encode_attribute a @ post) len tid offset =
    (if offset < len - 4 \<and> offset + length (encode_attribute a) \<le> len
     then if fst a = stun_attribute_code User then Ret (user_request tid (snd a))
          else parse_stun_attributes be (pre @ encode_attribute a @ post) len tid
                 (offset + length (encode_attribute a))
     else Ret None)"
proof -
  let ?pad = "replicate (4 * ((length (snd a) + 3) div 4) - length (snd a)) (0 :: u8)"
  let ?bytes = "pre @ encode_attribute a @ post"
  have b: "?bytes = pre @ bytes16 (fst a) @ bytes16 (of_nat (length (snd a))) @ snd a @ ?pad @ post"
    by (simp add: encode_attribute_def)
  have s1: "subslice ?bytes offset (offset + 2) = Ret (bytes16 (fst a))"
    unfolding b using pre by (simp add: subslice_def)
  have s2: "subslice ?bytes (offset + 2) (offset + 4) = Ret (bytes16 (of_nat (length (snd a))))"
    unfolding b using pre by (simp add: subslice_def)
  have s3: "subslice ?bytes (offset + 4) (offset + 4 + length (snd a)) = Ret (snd a)"
    unfolding b using pre by (simp add: subslice_def)
  have n: "unat (of_nat (length (snd a)) :: u16) = length (snd a)"
    using v by (simp add: unat_of_nat)
  have p: "length (encode_attribute a) = 4 + stun_padded_len (length (snd a))"
    using v by (simp add: stun_padded_len_eq length_encode_attribute)
  show ?thesis
    using len(1) s1 s2 s3 n be unfolding p
    by (subst parse_stun_attributes.simps)
      (auto simp: endian_simps Let_def parse_stun_user_eq add.assoc)
qed

lemma parse_stun_attributes_encoded:
  assumes "network_endian be" and "attributes_fit as"
    and "len = length pre - 20 + length (encode_attributes as)" and "4 \<le> len" and "20 \<le> length pre"
  shows "parse_stun_attributes be (pre @ encode_attributes as @ extra) len tid (length pre) =
    Ret (find_user tid as)"
  using assms
proof (induction as arbitrary: pre)
  case Nil
  then show ?case
    by (subst parse_stun_attributes.simps) simp
next
  case (Cons a as)
  let ?e = "encode_attribute a" and ?r = "encode_attributes as"
  have step: "parse_stun_attributes be (pre @ ?e @ ?r @ extra) len tid (length pre) =
    (if length pre < len - 4 \<and> length pre + length ?e \<le> len
     then if fst a = stun_attribute_code User then Ret (user_request tid (snd a))
          else parse_stun_attributes be (pre @ ?e @ ?r @ extra) len tid (length pre + length ?e)
     else Ret None)"
    using Cons.prems by (intro parse_stun_attributes_step) (auto simp: attributes_fit_def)
  have ih: "parse_stun_attributes be ((pre @ ?e) @ ?r @ extra) len tid (length (pre @ ?e)) =
      Ret (find_user tid as)"
    using Cons.prems by (intro Cons.IH) (auto simp: attributes_fit_def)
  have "user_request tid (snd a) = None" if "length ?e = 4"
    using that by (cases "snd a") (auto simp: length_encode_attribute user_request_def Let_def)
  moreover have "find_user tid as = None" if "length ?r = 20"
    using that by (simp add: find_user_short)
  moreover have "4 \<le> length ?e"
    by (simp add: length_encode_attribute)
  ultimately show ?case
    using Cons.prems step ih by auto
qed

lemma parse_encoded_request:
  assumes "network_endian be" and "attributes_fit as" and "length tid = 12"
    and "length (encode_attributes as) < 65536"
  shows "parse_stun_binding_request be (encode_binding_request tid as @ extra) =
    Ret (find_user tid as)"
proof -
  let ?body = "encode_attributes as"
  let ?ln = "of_nat (length ?body) :: u16"
  let ?hd = "bytes16 0x0001 @ bytes16 ?ln @ STUN_COOKIE @ tid"
  let ?bytes = "?hd @ ?body @ extra"
  have b: "encode_binding_request tid as @ extra = ?bytes"
    by (simp add: encode_binding_request_def)
  have n: "unat ?ln = length ?body"
    using assms(4) by (simp add: unat_of_nat)
  have h: "length ?hd = 20" and c: "length STUN_COOKIE = 4"
    using assms(3) by (simp_all add: STUN_COOKIE_def)
  have i0: "idx ?bytes 0 = Ret 0"
    by (simp add: idx_def bytes16_def)
  have s: "subslice ?bytes 0 2 = Ret (bytes16 0x0001)" "subslice ?bytes 2 4 = Ret (bytes16 ?ln)"
    "subslice ?bytes 4 8 = Ret STUN_COOKIE" "subslice ?bytes 8 20 = Ret tid"
    using assms(3) c by (simp_all add: subslice_def)
  have "find_user tid as = None" if "length ?body < 4"
    using that by (simp add: find_user_short)
  moreover have "parse_stun_attributes be ?bytes (length ?body) tid 20 = Ret (find_user tid as)"
    if "4 \<le> length ?body"
    using parse_stun_attributes_encoded [OF assms(1,2), of "length ?body" ?hd extra tid] h that
    by simp
  moreover have "\<not> length ?bytes < 20"
    using h by simp
  ultimately show ?thesis
    unfolding b parse_stun_binding_request_def
    using i0 s n h assms(1) by (simp add: stun_consts endian_simps Let_def)
qed

subsection \<open>What an accepted request guarantees\<close>

definition request_bounded :: "bytes \<Rightarrow> StunBindingRequest \<Rightarrow> bool" where
  "request_bounded tid req \<longleftrightarrow>
     transaction_id req = tid \<and> length (server_user req) \<le> 128 \<and> length (remote_user req) \<le> 128 \<and>
     CHR '':'' \<notin> set (server_user req) \<and>
     utf8_valid (as_bytes (server_user req)) \<and> utf8_valid (as_bytes (remote_user req))"

lemma colon_char_iff: "char_of (unat (b :: u8)) = CHR '':'' \<longleftrightarrow> b = 0x3a"
proof
  assume "char_of (unat b) = CHR '':''"
  then have "(of_char (char_of (unat b) :: char) :: nat) = 58"
    by (simp only:) simp
  then have "unat b mod 256 = 58"
    by simp
  then show "b = 0x3a"
    using unat_u8_less [of b] by (simp add: word_unat_eq_iff)
next
  assume b: "b = 0x3a"
  have "(of_char (char_of (unat b) :: char) :: nat) = of_char (CHR '':'')"
    by (simp add: b)
  then show "char_of (unat b) = CHR '':''"
    by (simp only: of_char_eq_iff)
qed

lemma colon_in_str_iff: "CHR '':'' \<in> set (str_of_bytes bs) \<longleftrightarrow> 0x3a \<in> set bs"
  unfolding str_of_bytes_def set_map image_iff by (metis colon_char_iff)

lemma user_request_bounded: "user_request tid v = Some req \<Longrightarrow> request_bounded tid req"
  by (auto simp: user_request_def request_bounded_def Let_def colon_in_str_iff
      dest: set_takeWhileD split: if_splits)

lemma parse_stun_attributes_bounded:
  "parse_stun_attributes be bytes len tid offset = Ret (Some req) \<Longrightarrow> request_bounded tid req"
proof (induction be bytes len tid offset rule: parse_stun_attributes.induct)
  case (1 be bytes len tid offset)
  from "1.prems" show ?case
    by (subst (asm) parse_stun_attributes.simps)
      (auto simp: Let_def parse_stun_user_eq rust_iffs user_request_bounded
        dest!: "1.IH" split: if_splits)
qed

lemma parse_stun_binding_request_Some:
  assumes "parse_stun_binding_request be bytes = Ret (Some req)"
  shows "20 \<le> length bytes \<and> take 4 (drop 4 bytes) = STUN_COOKIE \<and>
    request_bounded (take 12 (drop 8 bytes)) req"
  using assms
  by (auto simp: parse_stun_binding_request_def stun_consts Let_def rust_iffs subslice_Ret_iff
      dest: parse_stun_attributes_bounded split: if_splits)

section \<open>Properties\<close>

text \<open>
  C16. Parsing is safe on any datagram: whatever the bytes, and whatever the byte order does, the
  parser returns. No index or slice is out of range, the subtraction \<open>length - 4\<close> does not
  underflow, and the loop over the attributes ends.
\<close>

theorem stun_parse_total: "\<exists>r. parse_stun_binding_request be bytes = Ret r"
  using parse_stun_binding_request_returns [of be bytes] by (simp add: returns_iff)

text \<open>
  C12. The parser implements the attribute-level specification: on the encoding of any attribute list,
  followed by any further bytes of the datagram, it returns what \<open>find_user\<close> finds in the list.
\<close>

theorem stun_parse_refines_find_user:
  assumes "network_endian be" and "attributes_fit as" and "length tid = 12"
    and "length (encode_attributes as) < 65536"
  shows "parse_stun_binding_request be (encode_binding_request tid as @ extra) = Ret (find_user tid as)"
  using assms by (rule parse_encoded_request)

theorem stun_parse_refines_find_user_witness:
  "parse_stun_binding_request NetworkEndian
     (encode_binding_request (replicate 12 7) [(0x24, [1, 2, 3, 4]), (6, [97, 58, 98]), (8, replicate 20 0)] @ [9]) =
   Ret (find_user (replicate 12 7) [(0x24, [1, 2, 3, 4]), (6, [97, 58, 98]), (8, replicate 20 0)])"
  by (rule stun_parse_refines_find_user) (simp_all add: attributes_fit_def length_encode_attribute)

text \<open>
  C17. Which requests are understood: the first \<open>USERNAME\<close> attribute is used exactly when at least 20
  bytes of attributes follow it. (The loop compares \<open>offset\<close>, counted from the start of the
  datagram, with \<open>length\<close>, counted from the end of the 20-byte header, so the last 20 bytes of the
  attributes are never looked at.)
\<close>

theorem stun_username_needs_20_more_bytes:
  assumes "network_endian be" and "length tid = 12"
    and "attributes_fit (pre @ (stun_attribute_code User, v) # post)"
    and "length (encode_attributes (pre @ (stun_attribute_code User, v) # post)) < 65536"
    and "\<forall>a \<in> set pre. fst a \<noteq> stun_attribute_code User"
  shows "parse_stun_binding_request be
      (encode_binding_request tid (pre @ (stun_attribute_code User, v) # post)) =
    Ret (if 20 \<le> length (encode_attributes post) then user_request tid v else None)"
proof -
  have "find_user tid (pre @ (stun_attribute_code User, v) # post) =
      (if 20 \<le> length (encode_attributes post) then user_request tid v else None)"
    using assms(5) by (rule find_user_split)
  then show ?thesis
    using parse_encoded_request [OF assms(1,3,2,4), of "[]"] by simp
qed

theorem stun_username_needs_20_more_bytes_witness:
  "parse_stun_binding_request NetworkEndian
     (encode_binding_request (replicate 12 7) ([] @ (stun_attribute_code User, [97, 58, 98]) # [(8, replicate 20 0)])) =
     Ret (Some \<lparr>transaction_id = replicate 12 7, remote_user = ''b'', server_user = ''a''\<rparr>) \<and>
   parse_stun_binding_request NetworkEndian
     (encode_binding_request (replicate 12 7) ([] @ (stun_attribute_code User, [97, 58, 98]) # [(0x25, [])])) = Ret None"
proof -
  let ?u = "[97, 58, 98] :: bytes"
  have "user_request (replicate 12 7) ?u =
      Some \<lparr>transaction_id = replicate 12 7, remote_user = ''b'', server_user = ''a''\<rparr>"
    by code_simp
  then show ?thesis
    using stun_username_needs_20_more_bytes [of NetworkEndian "replicate 12 7" "[]" ?u "[(8, replicate 20 0)]"]
      stun_username_needs_20_more_bytes [of NetworkEndian "replicate 12 7" "[]" ?u "[(0x25, [])]"]
    by (simp add: attributes_fit_def length_encode_attribute)
qed

text \<open>
  Every accepted request carries the datagram's magic cookie and its transaction identifier, and
  two identifiers of at most 128 bytes of well-formed UTF-8, the server's without a colon.
\<close>

theorem stun_accepted_is_bounded:
  assumes "parse_stun_binding_request be bytes = Ret (Some req)"
  shows "take 4 (drop 4 bytes) = STUN_COOKIE \<and> transaction_id req = take 12 (drop 8 bytes) \<and>
    length (server_user req) \<le> 128 \<and> length (remote_user req) \<le> 128 \<and>
    CHR '':'' \<notin> set (server_user req) \<and>
    utf8_valid (as_bytes (server_user req)) \<and> utf8_valid (as_bytes (remote_user req))"
  using parse_stun_binding_request_Some [OF assms] by (simp add: request_bounded_def)

theorem stun_accepted_is_bounded_witness:
  "\<exists>req. parse_stun_binding_request NetworkEndian
      (encode_binding_request (replicate 12 7) [(6, [97, 58, 98]), (8, replicate 20 0)]) = Ret (Some req) \<and>
    length (server_user req) \<le> 128 \<and> length (remote_user req) \<le> 128"
proof -
  have "find_user (replicate 12 7) [(6, [97, 58, 98]), (8, replicate 20 0)] =
      Some \<lparr>transaction_id = replicate 12 7, remote_user = ''b'', server_user = ''a''\<rparr>"
    by code_simp
  then have "parse_stun_binding_request NetworkEndian
      (encode_binding_request (replicate 12 7) [(6, [97, 58, 98]), (8, replicate 20 0)]) =
      Ret (Some \<lparr>transaction_id = replicate 12 7, remote_user = ''b'', server_user = ''a''\<rparr>)"
    using parse_encoded_request
      [of NetworkEndian "[(6, [97, 58, 98]), (8, replicate 20 0)]" "replicate 12 7" "[]"]
    by (simp add: attributes_fit_def length_encode_attribute)
  then show ?thesis
    using stun_accepted_is_bounded by blast
qed

end
