(* ===== verification/Stun_Response.thy ===== *)
theory Stun_Response
  imports Stun_Parse
begin

text \<open>
  \<open>write_stun_success_response\<close> and \<open>xor_range\<close> of \<open>src/src/stun/mod.rs\<close>. The response is written
  into four disjoint parts of the caller's buffer; each part has a definition of its own, composed
  by \<open>write_stun_success_response\<close> in the order of the code. HMAC-SHA1 (OpenSSL) and CRC-32
  (\<open>crc32fast\<close>) are parameters. The lemmas give the exact bytes written, as an attribute list of
  \<open>Stun_Parse\<close>, and that decoding the mapped address gives the caller's address back.
\<close>

section \<open>Definitions\<close>

text \<open>
  \<open>hmac_sha1 key chunks\<close> is \<open>PKey::hmac\<close>, \<open>Signer::new\<close>, one \<open>update\<close> per chunk and \<open>sign\<close>;
  \<open>crc32 chunks\<close> is \<open>Hasher::new\<close>, one \<open>update\<close> per chunk and \<open>finalize\<close>. A SHA-1 tag has 20
  bytes, and a hash depends on the bytes fed to it, not on how they are cut into chunks.
\<close>

record stun_crypto =
  hmac_sha1 :: "bytes \<Rightarrow> bytes list \<Rightarrow> nat + bytes"
  crc32 :: "bytes list \<Rightarrow> u32"

definition stun_crypto_laws :: "stun_crypto \<Rightarrow> bool" where
  "stun_crypto_laws cr \<longleftrightarrow>
     (\<forall>key cs tag. hmac_sha1 cr key cs = Inr tag \<longrightarrow> length tag = 20) \<and>
     (\<forall>key cs. hmac_sha1 cr key cs = hmac_sha1 cr key [concat cs]) \<and>
     (\<forall>cs. crc32 cr cs = crc32 cr [concat cs])"

datatype StunError = BufferTooSmall | StunOpenssl nat

datatype StunAddressFamily = IPV4 | IPV6

primrec stun_family_code :: "StunAddressFamily \<Rightarrow> u8" where
  "stun_family_code IPV4 = 0x01"
| "stun_family_code IPV6 = 0x02"

definition STUN_CRC_XOR :: u32 where
  "STUN_CRC_XOR = 0x5354554e"

fun xor_range :: "bytes \<Rightarrow> bytes \<Rightarrow> bytes rust" where
  "xor_range [] xs = Ret []"
| "xor_range (t # ts) [] = Abort IndexOutOfBounds"
| "xor_range (t # ts) (x # xs) = rbind (xor_range ts xs) (\<lambda>r. Ret ((t XOR x) # r))"

definition split_at_mut :: "'a list \<Rightarrow> nat \<Rightarrow> ('a list \<times> 'a list) rust" where
  "split_at_mut xs n = (if n \<le> length xs then Ret (take n xs, drop n xs) else Abort SliceOutOfRange)"

definition put_u16 :: "byteorder \<Rightarrow> bytes \<Rightarrow> nat \<Rightarrow> nat \<Rightarrow> u16 \<Rightarrow> bytes rust" where
  "put_u16 be xs a b n = update_slice xs a b (\<lambda>s. Ret (write_u16 be s n))"

definition put_u32 :: "byteorder \<Rightarrow> bytes \<Rightarrow> nat \<Rightarrow> nat \<Rightarrow> u32 \<Rightarrow> bytes rust" where
  "put_u32 be xs a b n = update_slice xs a b (\<lambda>s. Ret (write_u32 be s n))"

definition addr_attribute_len :: "SocketAddr \<Rightarrow> nat" where
  "addr_attribute_len remote_addr = (if is_ipv4 remote_addr then 8 else 20)"

definition content_len_integrity :: "SocketAddr \<Rightarrow> nat" where
  "content_len_integrity remote_addr = 4 * 2 + addr_attribute_len remote_addr + 20"

definition content_len :: "SocketAddr \<Rightarrow> nat" where
  "content_len remote_addr = content_len_integrity remote_addr + 4 + 4"

definition write_stun_header :: "byteorder \<Rightarrow> bytes \<Rightarrow> SocketAddr \<Rightarrow> bytes \<Rightarrow> bytes rust" where
  "write_stun_header be tid remote_addr header =
     rbind (put_u16 be header 0 2 (stun_type_code SuccessResponse)) (\<lambda>h.
     rbind (put_u16 be h 2 4 (of_nat (content_len_integrity remote_addr))) (\<lambda>h.
     rbind (copy_from_slice h 4 8 STUN_COOKIE) (\<lambda>h.
       copy_from_slice h 8 20 tid)))"

definition write_stun_address :: "byteorder \<Rightarrow> bytes \<Rightarrow> SocketAddr \<Rightarrow> bytes \<Rightarrow> bytes rust" where
  "write_stun_address be tid remote_addr attr =
     rbind (put_u16 be attr 0 2 (stun_attribute_code XorMappedAddress)) (\<lambda>a.
     rbind (put_u16 be a 2 4 (of_nat (addr_attribute_len remote_addr))) (\<lambda>a.
       case remote_addr of
         V4 ip p \<Rightarrow>
           rbind (set_idx a 4 0) (\<lambda>a.
           rbind (set_idx a 5 (stun_family_code IPV4)) (\<lambda>a.
           rbind (put_u16 be a 6 8 p) (\<lambda>a.
           rbind (update_slice a 6 8 (\<lambda>s. xor_range s STUN_COOKIE)) (\<lambda>a.
           rbind (copy_from_slice a 8 12 (octets4 ip)) (\<lambda>a.
             update_slice a 8 12 (\<lambda>s. xor_range s STUN_COOKIE))))))
       | V6 ip p fl sc \<Rightarrow>
           rbind (set_idx a 4 0) (\<lambda>a.
           rbind (set_idx a 5 (stun_family_code IPV6)) (\<lambda>a.
           rbind (put_u16 be a 6 8 p) (\<lambda>a.
           rbind (update_slice a 6 8 (\<lambda>s. xor_range s STUN_COOKIE)) (\<lambda>a.
           rbind (copy_from_slice a 8 24 (octets6 ip)) (\<lambda>a.
           rbind (update_slice a 8 12 (\<lambda>s. xor_range s STUN_COOKIE)) (\<lambda>a.
             update_slice a 12 24 (\<lambda>s. xor_range s tid))))))) ))"

definition write_stun_integrity :: "byteorder \<Rightarrow> bytes \<Rightarrow> bytes \<Rightarrow> bytes rust" where
  "write_stun_integrity be hmac attr =
     rbind (put_u16 be attr 0 2 (stun_attribute_code MessageIntegrity)) (\<lambda>a.
     rbind (put_u16 be a 2 4 20) (\<lambda>a.
       copy_from_slice a 4 (length a) hmac))"

definition write_stun_fingerprint :: "byteorder \<Rightarrow> u32 \<Rightarrow> bytes \<Rightarrow> bytes rust" where
  "write_stun_fingerprint be crc attr =
     rbind (put_u16 be attr 0 2 (stun_attribute_code Fingerprint)) (\<lambda>a.
     rbind (put_u16 be a 2 4 4) (\<lambda>a.
       put_u32 be a 4 8 (crc XOR STUN_CRC_XOR)))"

text \<open>The result of the call, and the caller's buffer after it.\<close>

definition write_stun_success_response ::
    "byteorder \<Rightarrow> stun_crypto \<Rightarrow> bytes \<Rightarrow> SocketAddr \<Rightarrow> bytes \<Rightarrow> bytes \<Rightarrow>
      ((StunError + nat) \<times> bytes) rust" where
  "write_stun_success_response be cr tid remote_addr passwd out =
     (if STUN_HEADER_LEN + content_len remote_addr > length out then Ret (Inl BufferTooSmall, out)
      else
        rbind (split_at_mut out STUN_HEADER_LEN) (\<lambda>(header, rest).
        rbind (split_at_mut rest (4 + addr_attribute_len remote_addr)) (\<lambda>(addr_attribute, rest).
        rbind (split_at_mut rest (4 + 20)) (\<lambda>(integrity_attribute, fingerprint_attribute).
        rbind (write_stun_header be tid remote_addr header) (\<lambda>header.
        rbind (write_stun_address be tid remote_addr addr_attribute) (\<lambda>addr_attribute.
          case hmac_sha1 cr passwd [header, addr_attribute] of
            Inl e \<Rightarrow>
              Ret (Inl (StunOpenssl e),
                   header @ addr_attribute @ integrity_attribute @ fingerprint_attribute)
          | Inr hmac \<Rightarrow>
              rbind (write_stun_integrity be hmac integrity_attribute) (\<lambda>integrity_attribute.
              rbind (put_u16 be header 2 4 (of_nat (content_len remote_addr))) (\<lambda>header.
                let crc = crc32 cr [header, addr_attribute, integrity_attribute] in
                rbind (write_stun_fingerprint be crc fingerprint_attribute) (\<lambda>fingerprint_attribute.
                  Ret (Inr (STUN_HEADER_LEN + content_len remote_addr),
                       header @ addr_attribute @ integrity_attribute @ fingerprint_attribute)))))))))
     )"

subsection \<open>Specification: the bytes of a success response\<close>

definition xor_bytes :: "bytes \<Rightarrow> bytes \<Rightarrow> bytes" where
  "xor_bytes xs ys = map2 (XOR) xs ys"

definition ip_octets :: "SocketAddr \<Rightarrow> bytes" where
  "ip_octets a = (case a of V4 ip p \<Rightarrow> octets4 ip | V6 ip p fl sc \<Rightarrow> octets6 ip)"

definition address_family :: "SocketAddr \<Rightarrow> StunAddressFamily" where
  "address_family a = (if is_ipv4 a then IPV4 else IPV6)"

definition xor_mapped_address :: "bytes \<Rightarrow> SocketAddr \<Rightarrow> bytes" where
  "xor_mapped_address tid a =
     [0, stun_family_code (address_family a)] @ xor_bytes (bytes16 (port a)) (STUN_COOKIE @ tid) @
     xor_bytes (ip_octets a) (STUN_COOKIE @ tid)"

definition success_header :: "nat \<Rightarrow> bytes \<Rightarrow> bytes" where
  "success_header n tid = bytes16 0x0101 @ bytes16 (of_nat n) @ STUN_COOKIE @ tid"

text \<open>
  The reader's side of RFC 5389, section 15.2: port and address of an \<open>XOR-MAPPED-ADDRESS\<close> value.
\<close>

definition decode_mapped_address :: "byteorder \<Rightarrow> bytes \<Rightarrow> bytes \<Rightarrow> u16 \<times> bytes" where
  "decode_mapped_address be tid v =
     (read_u16 be (xor_bytes (take 2 (drop 2 v)) STUN_COOKIE),
      xor_bytes (drop 4 v) (STUN_COOKIE @ tid))"

section \<open>Lemmas\<close>

lemma xor_range_eq: "length ts \<le> length xs \<Longrightarrow> xor_range ts xs = Ret (xor_bytes ts xs)"
  by (induction ts xs rule: xor_range.induct) (simp_all add: xor_bytes_def)

lemma length_xor_bytes [simp]: "length (xor_bytes xs ys) = min (length xs) (length ys)"
  by (simp add: xor_bytes_def)

lemma xor_bytes_involution: "length xs \<le> length ys \<Longrightarrow> xor_bytes (xor_bytes xs ys) ys = xs"
  unfolding xor_bytes_def
  by (induction xs ys rule: list_induct2') (simp_all add: xor.assoc)

lemma xor_bytes_append:
  "length xs = length ys \<Longrightarrow> xor_bytes (xs @ xs') (ys @ ys') = xor_bytes xs ys @ xor_bytes xs' ys'"
  by (simp add: xor_bytes_def)

lemma xor_bytes_prefix: "length xs \<le> length ys \<Longrightarrow> xor_bytes xs (ys @ zs) = xor_bytes xs ys"
  unfolding xor_bytes_def by (induction xs ys rule: list_induct2') simp_all

lemma length_STUN_COOKIE [simp]: "length STUN_COOKIE = 4"
  by (simp add: STUN_COOKIE_def)

lemma put_u16_eq:
  assumes "network_endian be" and "a + 2 = b" and "b \<le> length xs"
  shows "put_u16 be xs a b n = Ret (take a xs @ bytes16 n @ drop b xs)"
  using assms by (auto simp: put_u16_def update_slice_def copy_from_slice_def endian_simps)

lemma put_u32_eq:
  assumes "network_endian be" and "a + 4 = b" and "b \<le> length xs"
  shows "put_u32 be xs a b n = Ret (take a xs @ bytes32 n @ drop b xs)"
  using assms by (auto simp: put_u32_def update_slice_def copy_from_slice_def endian_simps)

lemma copy_from_slice_eq:
  "a \<le> b \<Longrightarrow> b \<le> length xs \<Longrightarrow> length src = b - a \<Longrightarrow>
   copy_from_slice xs a b src = Ret (take a xs @ src @ drop b xs)"
  by (simp add: copy_from_slice_def)

lemma set_idx_eq: "i < length xs \<Longrightarrow> set_idx xs i v = Ret (take i xs @ [v] @ drop (Suc i) xs)"
  by (simp add: set_idx_def upd_conv_take_nth_drop)

lemma update_slice_xor:
  assumes "a \<le> b" and "b \<le> length xs" and "b - a \<le> length ys"
  shows "update_slice xs a b (\<lambda>s. xor_range s ys) =
    Ret (take a xs @ xor_bytes (take (b - a) (drop a xs)) ys @ drop b xs)"
  using assms by (simp add: update_slice_def xor_range_eq copy_from_slice_def)

lemma write_stun_header_eq:
  assumes "network_endian be" and "length tid = 12" and "length header = 20"
  shows "write_stun_header be tid a header = Ret (success_header (content_len_integrity a) tid)"
  using assms
  by (simp add: write_stun_header_def put_u16_eq copy_from_slice_eq success_header_def)

lemma write_stun_integrity_eq:
  assumes "network_endian be" and "length hmac = 20" and "length attr = 24"
  shows "write_stun_integrity be hmac attr = Ret (bytes16 0x08 @ bytes16 20 @ hmac)"
  using assms by (simp add: write_stun_integrity_def put_u16_eq copy_from_slice_eq)

lemma write_stun_fingerprint_eq:
  assumes "network_endian be" and "8 \<le> length attr"
  shows "write_stun_fingerprint be crc attr =
    Ret (bytes16 0x8028 @ bytes16 4 @ bytes32 (crc XOR STUN_CRC_XOR) @ drop 8 attr)"
  using assms by (simp add: write_stun_fingerprint_def put_u16_eq put_u32_eq)

lemma write_stun_address_eq:
  assumes "network_endian be" and "length tid = 12"
    and "length attr = 4 + addr_attribute_len a"
  shows "write_stun_address be tid a attr =
    Ret (bytes16 0x20 @ bytes16 (of_nat (addr_attribute_len a)) @ xor_mapped_address tid a)"
proof (cases a)
  case (V4 ip p)
  then show ?thesis
    using assms
    by (simp add: write_stun_address_def put_u16_eq copy_from_slice_eq set_idx_eq update_slice_xor
        addr_attribute_len_def xor_mapped_address_def address_family_def ip_octets_def
        xor_bytes_prefix)
next
  case (V6 ip p fl sc)
  have "xor_bytes (octets6 ip) (STUN_COOKIE @ tid) =
      xor_bytes (take 4 (octets6 ip)) STUN_COOKIE @ xor_bytes (drop 4 (octets6 ip)) tid"
    using xor_bytes_append [of "take 4 (octets6 ip)" STUN_COOKIE "drop 4 (octets6 ip)" tid] by simp
  then show ?thesis
    using V6 assms
    by (simp add: write_stun_address_def put_u16_eq copy_from_slice_eq set_idx_eq update_slice_xor
        addr_attribute_len_def xor_mapped_address_def address_family_def ip_octets_def
        xor_bytes_prefix)
qed

text \<open>The whole response, on a buffer that is large enough.\<close>

lemma length_xor_mapped_address [simp]:
  "length tid = 12 \<Longrightarrow> length (xor_mapped_address tid a) = addr_attribute_len a"
  by (cases a) (simp_all add: xor_mapped_address_def ip_octets_def addr_attribute_len_def)

lemma length_success_header [simp]: "length tid = 12 \<Longrightarrow> length (success_header n tid) = 20"
  by (simp add: success_header_def)

definition response_tag :: "stun_crypto \<Rightarrow> bytes \<Rightarrow> SocketAddr \<Rightarrow> bytes \<Rightarrow> nat + bytes" where
  "response_tag cr tid a passwd =
     hmac_sha1 cr passwd [success_header (content_len_integrity a) tid @
       encode_attribute (stun_attribute_code XorMappedAddress, xor_mapped_address tid a)]"

definition response_prefix :: "bytes \<Rightarrow> SocketAddr \<Rightarrow> bytes \<Rightarrow> bytes" where
  "response_prefix tid a tag =
     success_header (content_len a) tid @
     encode_attributes [(stun_attribute_code XorMappedAddress, xor_mapped_address tid a),
                        (stun_attribute_code MessageIntegrity, tag)]"

definition success_response :: "stun_crypto \<Rightarrow> bytes \<Rightarrow> SocketAddr \<Rightarrow> bytes \<Rightarrow> bytes" where
  "success_response cr tid a tag =
     response_prefix tid a tag @
     encode_attribute (stun_attribute_code Fingerprint,
       bytes32 (crc32 cr [response_prefix tid a tag] XOR STUN_CRC_XOR))"

lemma encode_aligned:
  "length v mod 4 = 0 \<Longrightarrow> encode_attribute (t, v) = bytes16 t @ bytes16 (of_nat (length v)) @ v"
  by (simp add: encode_attribute_def) presburger

lemma encode_address:
  "length tid = 12 \<Longrightarrow>
   encode_attribute (t, xor_mapped_address tid a) =
     bytes16 t @ bytes16 (of_nat (addr_attribute_len a)) @ xor_mapped_address tid a"
  by (subst encode_aligned) (simp_all add: addr_attribute_len_def)

lemma length_success_response:
  "length tid = 12 \<Longrightarrow> length tag = 20 \<Longrightarrow>
   length (success_response cr tid a tag) = 20 + content_len a"
  by (simp add: success_response_def response_prefix_def encode_address encode_aligned
      content_len_def content_len_integrity_def)

lemma response_buffer_parts:
  assumes "20 + content_len a \<le> length out"
  obtains h ad i f where "out = h @ ad @ i @ f" "length h = 20"
    "length ad = 4 + addr_attribute_len a" "length i = 24" "8 \<le> length f"
    "drop (20 + content_len a) out = drop 8 f"
proof
  let ?n = "addr_attribute_len a"
  let ?r = "drop 20 out" and ?s = "drop (24 + ?n) out"
  have l: "56 + ?n \<le> length out"
    using assms by (simp add: content_len_def content_len_integrity_def)
  show "out = take 20 out @ take (4 + ?n) ?r @ take 24 ?s @ drop 24 ?s"
    using append_take_drop_id [of 24 ?s] append_take_drop_id [of "4 + ?n" ?r]
      append_take_drop_id [of 20 out]
    by (simp only: drop_drop) (simp add: add.commute)
  show "drop (20 + content_len a) out = drop 8 (drop 24 ?s)"
    by (simp add: content_len_def content_len_integrity_def add.commute)
qed (use assms in \<open>simp_all add: content_len_def content_len_integrity_def\<close>)

lemma split_at_mut_append: "length xs = n \<Longrightarrow> split_at_mut (xs @ ys) n = Ret (xs, ys)"
  by (auto simp: split_at_mut_def)

lemma write_stun_success_response_ok:
  assumes be: "network_endian be" and cr: "stun_crypto_laws cr" and tid: "length tid = 12"
    and room: "20 + content_len a \<le> length out" and tag: "response_tag cr tid a passwd = Inr tag"
  shows "write_stun_success_response be cr tid a passwd out =
    Ret (Inr (20 + content_len a),
         success_response cr tid a tag @ drop (20 + content_len a) out)"
proof -
  let ?n = "addr_attribute_len a"
  from room obtain h ad i f where out: "out = h @ ad @ i @ f" "length h = 20" "length ad = 4 + ?n"
    "length i = 24" "8 \<le> length f" and rest: "drop (20 + content_len a) out = drop 8 f"
    by (rule response_buffer_parts)
  let ?addr = "bytes16 0x20 @ bytes16 (of_nat ?n) @ xor_mapped_address tid a"
  let ?int = "bytes16 0x08 @ bytes16 20 @ tag"
  have hm: "hmac_sha1 cr passwd [success_header (content_len_integrity a) tid, ?addr] = Inr tag"
    using tag cr tid unfolding response_tag_def stun_crypto_laws_def
    by (metis append_Nil2 concat.simps encode_address stun_attribute_code.simps(3))
  have len: "length tag = 20"
    using hm cr unfolding stun_crypto_laws_def by blast
  have hd: "put_u16 be (success_header (content_len_integrity a) tid) 2 4 (of_nat (content_len a)) =
      Ret (success_header (content_len a) tid)"
    using be tid by (simp add: put_u16_eq) (simp add: success_header_def)
  have int: "encode_attribute (stun_attribute_code MessageIntegrity, tag) = ?int"
    using len by (simp add: encode_aligned)
  have crc: "crc32 cr [success_header (content_len a) tid, ?addr, ?int] =
      crc32 cr [response_prefix tid a tag]"
    using cr tid int unfolding stun_crypto_laws_def response_prefix_def
    by (metis append_Nil2 concat.simps encode_address encode_attributes_Cons stun_attribute_code.simps(3))
  have "\<not> STUN_HEADER_LEN + content_len a > length out"
    using room by (simp add: stun_consts)
  then show ?thesis
    unfolding write_stun_success_response_def rest
    using be tid len out(2-)
    by (simp add: out(1) split_at_mut_append stun_consts write_stun_header_eq write_stun_address_eq hm
        write_stun_integrity_eq hd crc Let_def write_stun_fingerprint_eq success_response_def
        encode_aligned [of "bytes32 x" for x])
      (simp add: encode_address response_prefix_def int [simplified])
qed

lemma write_stun_success_response_Err:
  assumes "network_endian be" and "length tid = 12" and "response_tag cr tid a passwd = Inl e"
    and "stun_crypto_laws cr" and "20 + content_len a \<le> length out"
  shows "\<exists>out'. write_stun_success_response be cr tid a passwd out = Ret (Inl (StunOpenssl e), out')
    \<and> length out' = length out"
proof -
  let ?addr = "bytes16 0x20 @ bytes16 (of_nat (addr_attribute_len a)) @ xor_mapped_address tid a"
  have hm: "hmac_sha1 cr passwd [success_header (content_len_integrity a) tid, ?addr] = Inl e"
    using assms unfolding response_tag_def stun_crypto_laws_def
    by (metis append_Nil2 concat.simps encode_address stun_attribute_code.simps(3))
  from assms(5) obtain h ad i f where "out = h @ ad @ i @ f" "length h = 20"
    "length ad = 4 + addr_attribute_len a" "length i = 24"
    by (rule response_buffer_parts)
  then show ?thesis
    unfolding write_stun_success_response_def using assms(1,2,5)
    by (simp add: split_at_mut_append stun_consts write_stun_header_eq write_stun_address_eq hm)
qed

lemma decode_mapped_address_ok:
  assumes "network_endian be" and "length tid = 12"
  shows "decode_mapped_address be tid (xor_mapped_address tid a) = (port a, ip_octets a)"
proof -
  have "length (ip_octets a) \<le> length (STUN_COOKIE @ tid)"
    using assms by (cases a) (simp_all add: ip_octets_def)
  then show ?thesis
    using assms
    by (simp add: decode_mapped_address_def xor_mapped_address_def xor_bytes_involution
        xor_bytes_prefix endian_simps)
qed

section \<open>Properties\<close>

text \<open>
  C13. A buffer with room receives exactly the success response of RFC 5389: header with the length of
  all three attributes, the XOR-mapped address, the HMAC taken over the message with the length that
  ends at the integrity attribute, and the CRC of everything before the fingerprint, XORed with the
  fingerprint constant. Bytes beyond the response keep their value.
\<close>

theorem stun_response_bytes:
  assumes "network_endian be" and "stun_crypto_laws cr" and "length tid = 12"
    and "20 + content_len a \<le> length out" and "response_tag cr tid a passwd = Inr tag"
  shows "write_stun_success_response be cr tid a passwd out =
    Ret (Inr (20 + content_len a), success_response cr tid a tag @ drop (20 + content_len a) out)"
  using assms by (rule write_stun_success_response_ok)

definition toy_crypto :: stun_crypto where
  "toy_crypto = \<lparr>hmac_sha1 = (\<lambda>key cs. Inr (replicate 20 (sum_list (concat cs)))),
     crc32 = (\<lambda>cs. of_nat (length (concat cs)))\<rparr>"

lemma toy_crypto_laws [simp]: "stun_crypto_laws toy_crypto"
  by (simp add: stun_crypto_laws_def toy_crypto_def)

theorem stun_response_bytes_witness:
  "\<exists>tag. write_stun_success_response NetworkEndian toy_crypto (replicate 12 5) (V4 0x7f000001 3336) [1]
      (replicate 1200 0) =
    Ret (Inr 64, success_response toy_crypto (replicate 12 5) (V4 0x7f000001 3336) tag @ replicate 1136 0)"
proof -
  obtain tag where "response_tag toy_crypto (replicate 12 5) (V4 0x7f000001 3336) [1] = Inr tag"
    by (simp add: response_tag_def toy_crypto_def)
  then show ?thesis
    using stun_response_bytes [of NetworkEndian toy_crypto "replicate 12 5" "V4 0x7f000001 3336"
        "replicate 1200 0" "[1]" tag]
    by (auto simp: content_len_def content_len_integrity_def addr_attribute_len_def)
qed

text \<open>
  What the client reads from a response: its own transaction identifier, and, by decoding the
  XOR-mapped address, the address and port the request came from, for IPv4 and for IPv6.
\<close>

theorem stun_response_address_roundtrip:
  assumes "network_endian be" and "stun_crypto_laws cr" and "length tid = 12"
    and "write_stun_success_response be cr tid a passwd out = Ret (Inr n, out')"
  shows "take 12 (drop 8 out') = tid \<and>
    decode_mapped_address be tid (take (addr_attribute_len a) (drop 24 out')) = (port a, ip_octets a)"
proof -
  have room: "20 + content_len a \<le> length out"
    using assms(4) by (auto simp: write_stun_success_response_def stun_consts split: if_splits)
  obtain tag where tag: "response_tag cr tid a passwd = Inr tag"
    using assms(4) write_stun_success_response_Err [OF assms(1,3) _ assms(2) room]
    by (cases "response_tag cr tid a passwd") fastforce+
  have "out' = success_response cr tid a tag @ drop (20 + content_len a) out"
    using write_stun_success_response_ok [OF assms(1-3) room tag] assms(4) by simp
  then obtain r where "out' = bytes16 0x0101 @ bytes16 (of_nat (content_len a)) @ STUN_COOKIE @ tid @
      bytes16 0x20 @ bytes16 (of_nat (addr_attribute_len a)) @ xor_mapped_address tid a @ r"
    using assms(3)
    by (simp add: success_response_def response_prefix_def success_header_def encode_address)
  then show ?thesis
    using assms(1,3) by (simp add: decode_mapped_address_ok)
qed

theorem stun_response_address_roundtrip_witness:
  "\<exists>out'. write_stun_success_response NetworkEndian toy_crypto (replicate 12 5) (V4 0x7f000001 3336) [1]
      (replicate 1200 0) = Ret (Inr 64, out') \<and>
    decode_mapped_address NetworkEndian (replicate 12 5) (take 8 (drop 24 out')) = (3336, [127, 0, 0, 1])"
proof -
  obtain tag where "response_tag toy_crypto (replicate 12 5) (V4 0x7f000001 3336) [1] = Inr tag"
    by (simp add: response_tag_def toy_crypto_def)
  then obtain out' where w: "write_stun_success_response NetworkEndian toy_crypto (replicate 12 5)
      (V4 0x7f000001 3336) [1] (replicate 1200 0) = Ret (Inr 64, out')"
    using write_stun_success_response_ok [of NetworkEndian toy_crypto "replicate 12 5"
        "V4 0x7f000001 3336" "replicate 1200 0" "[1]" tag]
    by (auto simp: content_len_def content_len_integrity_def addr_attribute_len_def)
  have "ip_octets (V4 0x7f000001 3336) = [127, 0, 0, 1]"
    by (simp add: ip_octets_def octets4_def)
  then show ?thesis
    using stun_response_address_roundtrip [of NetworkEndian toy_crypto "replicate 12 5", OF _ _ _ w] w
    by (simp add: addr_attribute_len_def)
qed

text \<open>
  C18. Writing a response never panics, and fails in two ways only: the buffer is smaller than the
  response (then it is left alone), or the HMAC fails. The 1200-byte buffer of the sender is always
  large enough.
\<close>

theorem stun_response_errors:
  assumes "network_endian be" and "stun_crypto_laws cr" and "length tid = 12"
  shows "\<exists>r out'. write_stun_success_response be cr tid a passwd out = Ret (r, out') \<and>
    length out' = length out \<and>
    (r = Inl BufferTooSmall \<longleftrightarrow> length out < 20 + content_len a) \<and>
    (r = Inl BufferTooSmall \<longrightarrow> out' = out) \<and>
    (\<forall>e. r = Inl (StunOpenssl e) \<longleftrightarrow>
       20 + content_len a \<le> length out \<and> response_tag cr tid a passwd = Inl e) \<and>
    20 + content_len a \<le> 1200"
proof -
  have small: "20 + content_len a \<le> 1200"
    by (simp add: content_len_def content_len_integrity_def addr_attribute_len_def)
  show ?thesis
  proof (cases "20 + content_len a \<le> length out")
    case False
    then show ?thesis
      using small by (simp add: write_stun_success_response_def stun_consts)
  next
    case room: True
    show ?thesis
    proof (cases "response_tag cr tid a passwd")
      case (Inl e)
      then show ?thesis
        using write_stun_success_response_Err [OF assms(1,3) Inl assms(2) room] room small by auto
    next
      case (Inr tag)
      then have "length tag = 20"
        using assms(2) unfolding response_tag_def stun_crypto_laws_def by blast
      then show ?thesis
        using write_stun_success_response_ok [OF assms room Inr] room small Inr assms(3)
        by (simp add: length_success_response)
    qed
  qed
qed

theorem stun_response_errors_witness:
  "write_stun_success_response NetworkEndian toy_crypto (replicate 12 5) (V6 1 3336 0 0) [1] (replicate 75 0) =
     Ret (Inl BufferTooSmall, replicate 75 0)"
  using stun_response_errors [of NetworkEndian toy_crypto "replicate 12 5" "V6 1 3336 0 0" "[1]" "replicate 75 0"]
  by (auto simp: content_len_def content_len_integrity_def addr_attribute_len_def)

end
