(* ===== verification/Demux.thy ===== *)
theory Demux
  imports Stun_Response Rtp_Core
begin

text \<open>
  How a datagram becomes a request: \<open>is_dtls\<close> of \<open>src/src/dtls/mod.rs\<close>, \<open>DtlsMessage\<close> of
  \<open>src/src/dtls/message.rs\<close> and \<open>WebRtcRequest::from\<close> of \<open>src/src/server/udp.rs\<close>. The locale
  \<open>demux\<close> states what makes the three recognisers a demultiplexer (the ranges of their first byte);
  it gives that at most one of them accepts a datagram, so the order of the tests is immaterial.
\<close>

section \<open>Definitions\<close>

definition is_dtls :: "bytes \<Rightarrow> bool rust" where
  "is_dtls buf =
     rbind (idx buf 0) (\<lambda>b.
       if b \<ge> 20 then rbind (idx buf 0) (\<lambda>b'. Ret (b' \<le> 64)) else Ret False)"

datatype WebRtcRequest =
    Stun StunBindingRequest SocketAddr
  | Dtls bytes SocketAddr
  | Rtc bytes SocketAddr
  | Unknown

definition WebRtcRequest_from :: "byteorder \<Rightarrow> bytes \<times> SocketAddr \<Rightarrow> WebRtcRequest rust" where
  "WebRtcRequest_from be = (\<lambda>(buf, addr).
     rbind (is_rtp_header buf) (\<lambda>rtp.
       if rtp then Ret (Rtc buf addr)
       else rbind (parse_stun_binding_request be buf) (\<lambda>stun.
         case stun of
           Some req \<Rightarrow> Ret (Stun req addr)
         | None \<Rightarrow>
             rbind (is_dtls buf) (\<lambda>dtls. if dtls then Ret (Dtls buf addr) else Ret Unknown))))"

datatype MessageType = Incoming | Outgoing

datatype DtlsMessage = DtlsMessage (get_type: MessageType) bytes SocketAddr

definition create_outgoing :: "bytes \<Rightarrow> SocketAddr \<Rightarrow> DtlsMessage" where
  "create_outgoing message addr = DtlsMessage Outgoing message addr"

primrec into_webrtc :: "DtlsMessage \<Rightarrow> WebRtcRequest" where
  "into_webrtc (DtlsMessage ty message addr) = Dtls message addr"

section \<open>The contract of the recognisers\<close>

locale demux =
  fixes rtp stun dtls :: "bytes \<Rightarrow> bool"
  assumes rtp_first: "rtp b \<Longrightarrow> b \<noteq> [] \<and> 128 \<le> unat (hd b) \<and> unat (hd b) < 192"
    and stun_first: "stun b \<Longrightarrow> b \<noteq> [] \<and> unat (hd b) = 0"
    and dtls_first: "dtls b \<Longrightarrow> b \<noteq> [] \<and> 20 \<le> unat (hd b) \<and> unat (hd b) \<le> 64"
begin

lemma at_most_one: "\<not> (rtp b \<and> stun b)" "\<not> (rtp b \<and> dtls b)" "\<not> (stun b \<and> dtls b)"
  using rtp_first [of b] stun_first [of b] dtls_first [of b] by auto

lemma order_immaterial:
  "(if rtp b then x else if stun b then y else if dtls b then z else u) =
   (if dtls b then z else if stun b then y else if rtp b then x else u)"
  using at_most_one [of b] by auto

end

text \<open>The recognisers of the code, under any byte order that is network endian.\<close>

locale byteorder_api =
  fixes be :: byteorder
  assumes endian: "network_endian be"

interpretation ne: byteorder_api NetworkEndian
  by unfold_locales simp

section \<open>Lemmas\<close>

definition dtls_like :: "bytes \<Rightarrow> bool" where
  "dtls_like buf \<longleftrightarrow> buf \<noteq> [] \<and> 20 \<le> hd buf \<and> hd buf \<le> 64"

definition stun_like :: "byteorder \<Rightarrow> bytes \<Rightarrow> bool" where
  "stun_like be buf \<longleftrightarrow> (\<exists>req. parse_stun_binding_request be buf = Ret (Some req))"

lemma is_dtls_eq: "is_dtls buf = (if buf = [] then Abort IndexOutOfBounds else Ret (dtls_like buf))"
  by (cases buf) (simp_all add: is_dtls_def idx_def dtls_like_def)

lemma rtp_like_first: "rtp_like b \<Longrightarrow> b \<noteq> [] \<and> 128 \<le> unat (hd b) \<and> unat (hd b) < 192"
proof -
  assume r: "rtp_like b"
  then obtain x xs where b: "b = x # xs"
    by (cases b) (auto simp: rtp_like_def)
  from r have "unat (drop_bit 6 x) = 2"
    by (simp add: rtp_like_def b)
  then have "unat x div 64 = 2"
    by (simp add: drop_bit_eq_div unat_div)
  then have "128 \<le> unat x \<and> unat x < 192"
    by linarith
  then show ?thesis
    by (simp add: b)
qed

lemma stun_like_first:
  assumes "network_endian be" and "stun_like be b"
  shows "b \<noteq> [] \<and> unat (hd b) = 0"
proof -
  from assms(2) obtain req where p: "parse_stun_binding_request be b = Ret (Some req)"
    by (auto simp: stun_like_def)
  then have l: "20 \<le> length b" and "read_u16 be (take 2 b) = 0x0001"
    by (auto simp: parse_stun_binding_request_def stun_consts Let_def rust_iffs subslice_Ret_iff
        split: if_splits)
  moreover obtain x y r where b: "b = x # y # r"
    using l by (cases b rule: remdups_adj.cases) auto
  ultimately have "unat (be16 x y) = 1"
    using assms(1) by (simp add: endian_simps)
  then show ?thesis
    using b by (simp add: unat_be16)
qed

sublocale byteorder_api \<subseteq> dm: demux rtp_like "stun_like be" dtls_like
proof
  show "b \<noteq> [] \<and> 128 \<le> unat (hd b) \<and> unat (hd b) < 192" if "rtp_like b" for b
    using that by (rule rtp_like_first)
  show "b \<noteq> [] \<and> unat (hd b) = 0" if "stun_like be b" for b
    using endian that by (rule stun_like_first)
  show "b \<noteq> [] \<and> 20 \<le> unat (hd b) \<and> unat (hd b) \<le> 64" if "dtls_like b" for b
    using that by (auto simp: dtls_like_def word_le_nat_alt)
qed

context byteorder_api
begin

lemma one_kind:
  "\<not> (rtp_like b \<and> stun_like be b)" "\<not> (rtp_like b \<and> dtls_like b)" "\<not> (stun_like be b \<and> dtls_like b)"
  by (rule dm.at_most_one)+

end

text \<open>What a datagram becomes, in one equation.\<close>

lemma WebRtcRequest_from_eq:
  "WebRtcRequest_from be (buf, addr) =
     (if buf = [] then Abort IndexOutOfBounds
      else Ret (if rtp_like buf then Rtc buf addr
                else case parse_stun_binding_request be buf of
                       Ret (Some req) \<Rightarrow> Stun req addr
                     | _ \<Rightarrow> if dtls_like buf then Dtls buf addr else Unknown))"
proof (cases "parse_stun_binding_request be buf")
  case (Ret r)
  have "r = None" if "buf = []"
    using Ret that by (simp add: parse_stun_binding_request_def stun_consts)
  with Ret show ?thesis
    by (auto simp: WebRtcRequest_from_def is_dtls_eq rtp_like_def split: option.splits)
next
  case (Abort e)
  then show ?thesis
    using parse_stun_binding_request_returns [of be buf] by simp
qed

section \<open>Properties\<close>

text \<open>
  C19. Classifying a datagram returns for every non-empty datagram, whatever its bytes, and panics for
  the empty one: \<open>is_dtls\<close> reads its first byte, and the two tests before it let the empty datagram
  through.
\<close>

theorem demux_aborts_iff_empty:
  "(returns (WebRtcRequest_from be (buf, addr)) \<longleftrightarrow> buf \<noteq> []) \<and>
   WebRtcRequest_from be ([], addr) = Abort IndexOutOfBounds"
  by (simp add: WebRtcRequest_from_eq)

text \<open>
  C20. At most one of the three recognisers accepts a datagram, so the request a datagram becomes does
  not depend on the order of the tests, and testing for DTLS first would give the same.
\<close>

theorem demux_order_immaterial:
  assumes "network_endian be" and "buf \<noteq> []"
  shows "WebRtcRequest_from be (buf, addr) =
    Ret (if dtls_like buf then Dtls buf addr
         else case parse_stun_binding_request be buf of
                Ret (Some req) \<Rightarrow> Stun req addr
              | _ \<Rightarrow> if rtp_like buf then Rtc buf addr else Unknown)"
proof -
  have "byteorder_api be"
    using assms(1) by (rule byteorder_api.intro)
  note one = byteorder_api.one_kind [OF this, of buf]
  show ?thesis
    using one assms(2)
    by (auto simp: WebRtcRequest_from_eq stun_like_def split: rust.splits option.splits)
qed

theorem demux_order_immaterial_witness:
  "WebRtcRequest_from NetworkEndian ([22, 254, 253], V4 1 2) = Ret (Dtls [22, 254, 253] (V4 1 2))"
  using demux_order_immaterial [of NetworkEndian "[22, 254, 253]" "V4 1 2"]
  by (simp add: dtls_like_def)

end
