(* ===== verification/Client_Actor.thy ===== *)
theory Client_Actor
  imports Clients Group_Table Demux
begin

text \<open>
  \<open>src/src/client/actor.rs\<close>: the actor that creates clients, runs their DTLS handshake, links
  receivers to senders and deletes clients. A handler that spawns a task is split where the code
  awaits: \<open>handle_Dtls\<close> is the part that runs in the mailbox, \<open>dtls_push\<close>, \<open>dtls_status\<close>,
  \<open>dtls_connect\<close> and \<open>dtls_extract\<close> are the steps of the task, which later messages may overtake. The answers of the
  channels, of OpenSSL and of the clock are arguments.
\<close>

section \<open>Definitions\<close>

record ('s, 'b) ClientActor = "('s, 'b) Shared" +
  groups :: Group

definition ClientActor_new :: "('s, 'b) ClientActor" where
  "ClientActor_new = \<lparr>heap = [], client_storage = Map.empty, groups = Group_default\<rparr>"

text \<open>
  Read-write locks, as far as one thread can block itself: \<open>held\<close> are the locks this thread holds
  for writing; taking such a lock again, for reading or writing, never returns.
\<close>

datatype lock = ReceiversOf client_ref | SenderAddrOf client_ref

definition rwlock_write :: "lock set \<Rightarrow> lock \<Rightarrow> lock set rust" where
  "rwlock_write held l = (if l \<in> held then Abort SelfDeadlock else Ret (insert l held))"

definition rwlock_read :: "lock set \<Rightarrow> lock \<Rightarrow> unit rust" where
  "rwlock_read held l = (if l \<in> held then Abort SelfDeadlock else Ret ())"

subsection \<open>\<open>Handler<WebRtcRequest>\<close>\<close>

text \<open>
  The mailbox part of the \<open>Dtls\<close> branch: the client, whether its outgoing stream was attached to the
  actor by this message, and the state after it.
\<close>

definition handle_Dtls ::
    "time \<Rightarrow> SocketAddr \<Rightarrow> ('s, 'b) ClientActor \<Rightarrow> (client_ref \<times> bool) \<times> ('s, 'b) ClientActor" where
  "handle_Dtls now addr w =
     (let (client_ref, w) = entry_client now addr w
      in if \<not> dtls_connected (client_at w client_ref)
         then ((client_ref, True), update_client client_ref (\<lambda>c. c\<lparr>dtls_connected := True\<rparr>) w)
         else ((client_ref, False), w))"

datatype task_next = TaskConnect | TaskExtract | TaskDone

text \<open>The task after pushing the packet: whether it asks for the client's deletion.\<close>

definition dtls_push :: "ClientError + unit \<Rightarrow> bool" where
  "dtls_push pushed = (case pushed of Inl e \<Rightarrow> True | Inr _ \<Rightarrow> False)"

text \<open>The status the task then reads, later if it had to wait for the deletion: what it does next.\<close>

definition dtls_status :: "client_ref \<Rightarrow> ('s, 'b) ClientActor \<Rightarrow> task_next" where
  "dtls_status client_ref w =
     (case state (client_at w client_ref) of
        New \<Rightarrow> TaskConnect | Connected \<Rightarrow> TaskExtract | Shutdown \<Rightarrow> TaskDone)"

text \<open>The \<open>New\<close> branch: whether the task asks for the client's deletion, and the state after it.\<close>

definition dtls_connect ::
    "'s srtp_crate \<Rightarrow> connect_env \<Rightarrow> client_ref \<Rightarrow> ('s, 'b) ClientActor \<Rightarrow>
      bool \<times> ('s, 'b) ClientActor" where
  "dtls_connect sc env client_ref w =
     (case connect sc env (client_at w client_ref) of
        (Inl e, c) \<Rightarrow> (True, update_client client_ref (\<lambda>_. c) w)
      | (Inr srtp_transport, c) \<Rightarrow>
          (False, update_client client_ref (\<lambda>_. c\<lparr>srtp := Some srtp_transport\<rparr>) w))"

text \<open>The \<open>Connected\<close> branch: \<open>None\<close> is the 10 ms timeout. Only an end of stream deletes.\<close>

definition dtls_extract ::
    "(io_error + nat) option \<Rightarrow> client_ref \<Rightarrow> ('s, 'b) ClientActor \<Rightarrow> bool" where
  "dtls_extract ssl_read client_ref w =
     (let result = (case ssl_read of
            None \<Rightarrow> Inl (ClientError_from_io TimedOut)
          | Some r \<Rightarrow> extract_dtls r (client_at w client_ref))
      in result = Inr 0)"

subsection \<open>The other handlers\<close>

definition handle_DtlsMessage :: "DtlsMessage \<Rightarrow> WebRtcRequest list" where
  "handle_DtlsMessage item =
     (case get_type item of Incoming \<Rightarrow> [] | Outgoing \<Rightarrow> [into_webrtc item])"

definition handle_DeleteMessage ::
    "SocketAddr \<Rightarrow> ('s, 'b) ClientActor \<Rightarrow> bool \<times> ('s, 'b) ClientActor" where
  "handle_DeleteMessage addr w =
     (case client_storage w addr of
        None \<Rightarrow> (True, w)
      | Some cl \<Rightarrow>
          let w = w\<lparr>client_storage := (client_storage w)(addr := None)\<rparr>;
              w = w\<lparr>groups := remove_sender (groups w) addr\<rparr>;
              w = update_client cl (\<lambda>c. c\<lparr>is_deleted := True\<rparr>) w;
              live = (\<lambda>a. case receivers (client_at w cl) a of
                  None \<Rightarrow> None
                | Some recv \<Rightarrow> if \<not> is_deleted (client_at w recv) then Some recv else None)
          in (True, update_client cl (\<lambda>c. c\<lparr>receivers := live\<rparr>) w))"

text \<open>
  \<open>Handler<GroupId>\<close>. The write guard on the sender's receivers is alive in both branches; the first
  one reads the same lock again.
\<close>

definition redirect_receivers ::
    "client_ref \<Rightarrow> SocketAddr \<Rightarrow> ('s, 'b) ClientActor \<Rightarrow> ('s, 'b) ClientActor" where
  "redirect_receivers sender_ref addr w =
     (let moved = (receivers (client_at w sender_ref))(addr := None);
          w = w\<lparr>heap := map (\<lambda>r. if \<exists>a. moved a = Some r
                then (heap w ! r)\<lparr>sender_addr := Some addr\<rparr> else heap w ! r) [0..<length (heap w)]\<rparr>
      in update_client sender_ref (\<lambda>c. c\<lparr>receivers := moved\<rparr>) w)"

definition handle_GroupId ::
    "nat \<Rightarrow> SocketAddr \<Rightarrow> bool \<Rightarrow> ('s, 'b) ClientActor \<Rightarrow> ('s, 'b) ClientActor rust" where
  "handle_GroupId group_id addr is_sender w =
     (let (last_sender_addr, g) = insert_or_get_sender (groups w) group_id addr is_sender;
          w = w\<lparr>groups := g\<rparr>
      in if last_sender_addr = addr \<and> \<not> is_sender then Ret w
         else case (client_storage w addr, client_storage w last_sender_addr) of
             (Some receiver_ref, Some sender_ref) \<Rightarrow>
               rbind (rwlock_write {} (ReceiversOf sender_ref)) (\<lambda>held.
                 if last_sender_addr \<noteq> addr \<and> is_sender then
                   rbind (rwlock_read held (ReceiversOf sender_ref)) (\<lambda>_.
                     Ret (redirect_receivers sender_ref addr w))
                 else
                   let w = update_client receiver_ref (\<lambda>c. c\<lparr>sender_addr := Some last_sender_addr\<rparr>) w
                   in Ret (update_client sender_ref
                        (\<lambda>c. c\<lparr>receivers := (receivers c)(addr \<mapsto> receiver_ref)\<rparr>) w))
           | _ \<Rightarrow> Ret w)"

text \<open>
  \<open>Handler<MediaAddrMessage>\<close>. \<open>draws f\<close> are the random numbers and the clock reading for the
  frequency \<open>f\<close>, used when the client has no runtime for it yet.
\<close>

definition runtime_entries ::
    "(u32 \<Rightarrow> u32 \<times> u16 \<times> time) \<Rightarrow> u32 list \<Rightarrow> (u32 \<rightharpoonup> ClientRtpRuntime) \<Rightarrow> (u32 \<rightharpoonup> ClientRtpRuntime)" where
  "runtime_entries draws fs storage =
     fold (\<lambda>f m. case m f of
         Some _ \<Rightarrow> m
       | None \<Rightarrow> let (ts, sq, now) = draws f in m(f \<mapsto> ClientRtpRuntime_default ts sq now)) fs storage"

definition handle_MediaAddrMessage ::
    "(u32 \<Rightarrow> u32 \<times> u16 \<times> time) \<Rightarrow> SocketAddr \<Rightarrow> 'b MediaList \<Rightarrow>
      ('s, 'b) ClientActor \<Rightarrow> ('s, 'b) ClientActor" where
  "handle_MediaAddrMessage draws addr md w =
     (case client_storage w addr of
        None \<Rightarrow> w
      | Some c \<Rightarrow>
          update_client c (\<lambda>cl. cl\<lparr>rtp_runtime_storage :=
              runtime_entries draws (get_frequencies md) (rtp_runtime_storage cl), media := Some md\<rparr>) w)"

subsection \<open>The steps of the actor\<close>

text \<open>
  One step: a message of the mailbox, or the completion of a handshake task. A task keeps its
  reference to the client, so it may complete after the client was deleted.
\<close>

inductive client_step :: "'s srtp_crate \<Rightarrow> ('s, 'b) ClientActor \<Rightarrow> ('s, 'b) ClientActor \<Rightarrow> bool"
  for sc where
  dtls: "handle_Dtls now addr w = (res, w') \<Longrightarrow> client_step sc w w'"
| connected: "r < length (heap w) \<Longrightarrow> dtls_connect sc env r w = (del, w') \<Longrightarrow> client_step sc w w'"
| delete: "handle_DeleteMessage addr w = (res, w') \<Longrightarrow> client_step sc w w'"
| group: "handle_GroupId group_id addr is_sender w = Ret w' \<Longrightarrow> client_step sc w w'"
| media: "handle_MediaAddrMessage draws addr md w = w' \<Longrightarrow> client_step sc w w'"

inductive client_reachable :: "'s srtp_crate \<Rightarrow> ('s, 'b) ClientActor \<Rightarrow> bool" for sc where
  start: "client_reachable sc ClientActor_new"
| step: "client_reachable sc w \<Longrightarrow> client_step sc w w' \<Longrightarrow> client_reachable sc w'"

inductive_cases client_stepE: "client_step sc w w'"

section \<open>Lemmas\<close>

lemma update_client_groups [simp]: "groups (update_client r f w) = groups w"
  by (simp add: update_client_def)

lemma entry_client_groups: "entry_client now addr w = (r, w') \<Longrightarrow> groups w' = groups w"
  by (auto simp: entry_client_def split: option.splits)

subsection \<open>\<open>GroupId\<close>\<close>

text \<open>The handler, with the lock operations and the registry resolved.\<close>

definition last_sender :: "('s, 'b) ClientActor \<Rightarrow> nat \<Rightarrow> SocketAddr \<Rightarrow> SocketAddr" where
  "last_sender w k a = (case groups_storage (groups w) k of Some p \<Rightarrow> p | None \<Rightarrow> a)"

lemma handle_GroupId_cases:
  fixes w :: "('s, 'b) ClientActor"
  defines "w1 \<equiv> \<lambda>k a s. w\<lparr>groups := snd (insert_or_get_sender (groups w) k a s)\<rparr>"
  shows "handle_GroupId k a s w =
    (case (client_storage w a, client_storage w (last_sender w k a)) of
       (Some r, Some q) \<Rightarrow>
         if last_sender w k a = a \<and> \<not> s then Ret (w1 k a s)
         else if last_sender w k a \<noteq> a \<and> s then Abort SelfDeadlock
         else Ret (update_client q (\<lambda>c. c\<lparr>receivers := (receivers c)(a \<mapsto> r)\<rparr>)
                (update_client r (\<lambda>c. c\<lparr>sender_addr := Some (last_sender w k a)\<rparr>) (w1 k a s)))
     | _ \<Rightarrow> Ret (w1 k a s))"
proof -
  have "insert_or_get_sender (groups w) k a s =
      (last_sender w k a, snd (insert_or_get_sender (groups w) k a s))"
    using groups.join_returns [of "groups w" k a s]
    by (metis last_sender_def prod.collapse)
  then obtain g where g: "insert_or_get_sender (groups w) k a s = (last_sender w k a, g)"
    by blast
  show ?thesis
    unfolding handle_GroupId_def w1_def g
    by (cases "client_storage w a"; cases "client_storage w (last_sender w k a)")
      (auto simp: Let_def rwlock_write_def rwlock_read_def)
qed

lemma sharing_groups [simp]: "sharing_ok (w\<lparr>groups := g\<rparr>) = sharing_ok w"
  by (rule sharing_frame) simp_all

text \<open>Adding the client registered at \<open>a\<close> to a receiver table under \<open>a\<close> keeps the invariant.\<close>

lemma sharing_add_receiver:
  assumes "sharing_ok w" and "client_storage w a = Some r" and "q < length (heap w)"
  shows "sharing_ok (update_client q (\<lambda>c. c\<lparr>receivers := (receivers c)(a \<mapsto> r)\<rparr>) w)"
proof -
  let ?w = "update_client q (\<lambda>c. c\<lparr>receivers := (receivers c)(a \<mapsto> r)\<rparr>) w"
  have o: "occurs w b p" if "occurs ?w b p" for b p
    using that assms by (auto simp: occurs_def client_at_update split: if_splits)
  have d: "is_deleted (client_at ?w p) = is_deleted (client_at w p)" for p
    by (simp add: client_at_update)
  show ?thesis
    unfolding sharing_ok_def d update_client_simps
  proof (intro conjI allI impI)
    show "p = b" if "occurs ?w p x" "occurs ?w b x" for p b x
      using sharing_okD(2) [OF assms(1)] o that by blast
  qed (use sharing_okD(1,3,4) [OF assms(1)] o in blast)+
qed

lemma sharing_delete:
  assumes "sharing_ok w"
  shows "sharing_ok (snd (handle_DeleteMessage addr w))"
proof (cases "client_storage w addr")
  case None
  with assms show ?thesis
    by (simp add: handle_DeleteMessage_def)
next
  case (Some r)
  let ?w = "snd (handle_DeleteMessage addr w)"
  have r: "r < length (heap w)"
    using assms Some by (rule storage_valid)
  have st: "client_storage ?w = (client_storage w)(addr := None)"
    and len: "length (heap ?w) = length (heap w)"
    using Some by (simp_all add: handle_DeleteMessage_def Let_def)
  have del: "is_deleted (client_at ?w p) \<longleftrightarrow> p = r \<or> is_deleted (client_at w p)" for p
    using Some r by (simp add: handle_DeleteMessage_def Let_def client_at_update)
      (simp add: client_at_def)
  have rec: "receivers (client_at ?w p) b = Some x \<Longrightarrow> receivers (client_at w p) b = Some x" for p b x
    using Some r by (simp add: handle_DeleteMessage_def Let_def client_at_update
        split: if_splits option.splits) (simp_all add: client_at_def)
  have o: "occurs w b x" if "occurs ?w b x" for b x
    using that rec by (auto simp: occurs_def st len split: if_splits)
  have own: "client_storage ?w b = Some x" if "occurs w b x" "x \<noteq> r" "\<not> is_deleted (client_at w x)" for b x
    using sharing_okD(4) [OF assms that(1,3)] that(2) Some by (auto simp: st)
  show ?thesis
    unfolding sharing_ok_def len del
  proof (intro conjI allI impI)
    show "\<not> (p = r \<or> is_deleted (client_at w p))" if "client_storage ?w b = Some p" for b p
    proof -
      have b: "client_storage w b = Some p" "b \<noteq> addr"
        using that by (auto simp: st split: if_splits)
      then have "p \<noteq> r"
        using sharing_okD(2) [OF assms, of b r addr] Some by auto
      then show ?thesis
        using sharing_okD(3) [OF assms b(1)] by simp
    qed
  qed (use sharing_okD(1,2) [OF assms] o own in blast)+
qed

lemma sharing_connect:
  assumes "sharing_ok w"
  shows "sharing_ok (snd (dtls_connect sc env r w))"
proof -
  obtain x c where xc: "connect sc env (client_at w r) = (x, c)"
    by fastforce
  have l: "links c = links (client_at w r)"
    using connect_links [of sc env "client_at w r"] by (simp add: xc links_def)
  have keep: "sharing_ok (update_client r (\<lambda>_. d) w)" if "links d = links (client_at w r)" for d
  proof -
    have "map links ((heap w)[r := d]) = map links (heap w)"
      using that by (cases "r < length (heap w)")
        (simp_all add: map_update client_at_def list_update_beyond list_update_same_conv)
    then show ?thesis
      using assms sharing_frame [of "update_client r (\<lambda>_. d) w" w] by (simp add: update_client_def)
  qed
  show ?thesis
    using keep [of c] keep [of "c\<lparr>srtp := Some (projr x)\<rparr>"] l
    by (cases x) (simp_all add: dtls_connect_def xc links_def)
qed


lemma sharing_Dtls:
  assumes "sharing_ok w"
  shows "sharing_ok (snd (handle_Dtls now addr w))"
proof -
  obtain r w' where e: "entry_client now addr w = (r, w')"
    by fastforce
  have "sharing_ok w'"
    using sharing_entry [OF assms e] by simp
  then show ?thesis
    using update_client_frame [of "\<lambda>c. c\<lparr>dtls_connected := True\<rparr>" r w']
    by (simp add: handle_Dtls_def e links_def)
qed

lemma sharing_media:
  assumes "sharing_ok w"
  shows "sharing_ok (handle_MediaAddrMessage draws addr md w)"
proof (cases "client_storage w addr")
  case (Some r)
  then show ?thesis
    using assms unfolding handle_MediaAddrMessage_def Some option.case
    by (subst update_client_frame) (simp_all add: links_def)
qed (simp add: handle_MediaAddrMessage_def assms)

lemma sharing_GroupId:
  assumes "sharing_ok w" and "handle_GroupId k a s w = Ret w'"
  shows "sharing_ok w'"
proof -
  let ?w1 = "w\<lparr>groups := snd (insert_or_get_sender (groups w) k a s)\<rparr>"
  have link: "sharing_ok (update_client q (\<lambda>c. c\<lparr>receivers := (receivers c)(a \<mapsto> r)\<rparr>)
      (update_client r (\<lambda>c. c\<lparr>sender_addr := Some x\<rparr>) ?w1))"
    if "client_storage w a = Some r" "client_storage w b = Some q" for r q b x
  proof (rule sharing_add_receiver)
    show "sharing_ok (update_client r (\<lambda>c. c\<lparr>sender_addr := Some x\<rparr>) ?w1)"
      using assms(1) update_client_frame [of "\<lambda>c. c\<lparr>sender_addr := Some x\<rparr>" r ?w1]
      by (simp add: links_def)
  qed (use that storage_valid [OF assms(1)] in simp_all)
  show ?thesis
    using assms link unfolding handle_GroupId_cases
    by (auto split: option.splits if_splits)
qed

lemma sharing_new: "sharing_ok ClientActor_new"
  by (simp add: sharing_ok_def occurs_def ClientActor_new_def)

lemma sharing_step: "client_step sc w w' \<Longrightarrow> sharing_ok w \<Longrightarrow> sharing_ok w'"
proof (induction rule: client_step.induct)
  case (dtls now addr w res w')
  then show ?case using sharing_Dtls [of w now addr] by simp
next
  case (connected r w env del w')
  then show ?case using sharing_connect [of w sc env r] by simp
next
  case (delete addr w res w')
  then show ?case using sharing_delete [of w addr] by simp
next
  case (group group_id addr is_sender w w')
  then show ?case by (blast intro: sharing_GroupId)
next
  case (media draws addr md w w')
  then show ?case using sharing_media by blast
qed

lemma sharing_reachable: "client_reachable sc w \<Longrightarrow> sharing_ok w"
  by (induction rule: client_reachable.induct) (auto intro: sharing_new sharing_step)

subsection \<open>The handshake\<close>

text \<open>
  A client has its SRTP sessions from the moment it is connected, and never before. \<open>Shutdown\<close> says
  nothing: a client may get there with sessions and without.
\<close>

definition handshake_ok :: "('s, 'b) Client \<Rightarrow> bool" where
  "handshake_ok c \<longleftrightarrow> (state c = New \<longrightarrow> srtp c = None) \<and> (state c = Connected \<longrightarrow> srtp c \<noteq> None)"

lemma handshake_frame [simp]:
  "handshake_ok (c\<lparr>receivers := x\<rparr>) = handshake_ok c"
  "handshake_ok (c\<lparr>sender_addr := y\<rparr>) = handshake_ok c"
  "handshake_ok (c\<lparr>is_deleted := d\<rparr>) = handshake_ok c"
  "handshake_ok (c\<lparr>dtls_connected := d\<rparr>) = handshake_ok c"
  "handshake_ok (c\<lparr>media := md\<rparr>) = handshake_ok c"
  "handshake_ok (c\<lparr>rtp_runtime_storage := rs\<rparr>) = handshake_ok c"
  "handshake_ok (Client_default now)"
  by (simp_all add: handshake_ok_def)

lemma handshake_update:
  "(\<And>c. handshake_ok c \<Longrightarrow> handshake_ok (f c)) \<Longrightarrow> list_all handshake_ok (heap w) \<Longrightarrow>
   list_all handshake_ok (heap (update_client r f w))"
  by (cases "r < length (heap w)")
    (auto simp: update_client_def list_all_length nth_list_update list_update_beyond)

lemma handshake_connect:
  assumes "list_all handshake_ok (heap w)" and "r < length (heap w)"
  shows "list_all handshake_ok (heap (snd (dtls_connect sc env r w)))"
proof -
  have c: "handshake_ok (client_at w r)"
    using assms by (simp add: list_all_length client_at_def)
  show ?thesis
  proof (cases "connect sc env (client_at w r)")
    case (Pair x c')
    have "handshake_ok (case x of Inl _ \<Rightarrow> c' | Inr t \<Rightarrow> c'\<lparr>srtp := Some t\<rparr>)"
      using Pair c connect_Inr [of sc env "client_at w r" _ c'] connect_Inl [of sc env "client_at w r" _ c']
      by (cases x) (auto simp: handshake_ok_def)
    then show ?thesis
      using assms(1) by (cases x) (auto simp: dtls_connect_def Pair intro!: handshake_update)
  qed
qed

lemma handshake_GroupId:
  "list_all handshake_ok (heap w) \<Longrightarrow> handle_GroupId k a s w = Ret w' \<Longrightarrow>
   list_all handshake_ok (heap w')"
  unfolding handle_GroupId_cases
  by (auto intro!: handshake_update split: option.splits if_splits)

lemma handshake_Dtls:
  "list_all handshake_ok (heap w) \<Longrightarrow> list_all handshake_ok (heap (snd (handle_Dtls now addr w)))"
  by (auto simp: handle_Dtls_def entry_client_def Let_def
      intro!: handshake_update split: option.splits)

lemma handshake_step:
  "client_step sc w w' \<Longrightarrow> list_all handshake_ok (heap w) \<Longrightarrow> list_all handshake_ok (heap w')"
proof (induction rule: client_step.induct)
  case (dtls now addr w res w')
  then show ?case using handshake_Dtls [of w now addr] by simp
next
  case (connected r w env del w')
  then show ?case using handshake_connect [of w r sc env] by simp
next
  case (delete addr w res w')
  then show ?case
    by (auto simp: handle_DeleteMessage_def Let_def
        intro!: handshake_update split: option.splits)
next
  case (group group_id addr is_sender w w')
  then show ?case by (blast intro: handshake_GroupId)
next
  case (media draws addr md w w')
  then show ?case
    by (auto simp: handle_MediaAddrMessage_def
        intro!: handshake_update split: option.splits)
qed

lemma handshake_reachable: "client_reachable sc w \<Longrightarrow> list_all handshake_ok (heap w)"
  by (induction rule: client_reachable.induct) (auto intro: handshake_step simp: ClientActor_new_def)

subsection \<open>Clients only advance\<close>

text \<open>
  \<open>advances w w'\<close>: every client of \<open>w\<close> is still there in \<open>w'\<close>, its connection is in the same or a
  later state, and it is still deleted if it was.
\<close>

definition advances :: "('s, 'b, 'z) Shared_scheme \<Rightarrow> ('s, 'b, 'z) Shared_scheme \<Rightarrow> bool" where
  "advances w w' \<longleftrightarrow> length (heap w) \<le> length (heap w') \<and>
     (\<forall>r < length (heap w). state (client_at w r) \<le> state (client_at w' r) \<and>
        (is_deleted (client_at w r) \<longrightarrow> is_deleted (client_at w' r)))"

lemma advances_refl [simp]: "advances w w"
  by (simp add: advances_def)

lemma advances_trans: "advances w w' \<Longrightarrow> advances w' w'' \<Longrightarrow> advances w w''"
  unfolding advances_def by (meson le_trans less_le_trans order_trans)

lemma advances_fields [simp]:
  "advances w (w'\<lparr>groups := g\<rparr>) = advances w w'" "advances w (w'\<lparr>client_storage := m\<rparr>) = advances w w'"
  by (simp_all add: advances_def client_at_def)

lemma advances_update:
  assumes "advances w w'"
    and "state (client_at w' r) \<le> state (f (client_at w' r))"
    and "is_deleted (client_at w' r) \<longrightarrow> is_deleted (f (client_at w' r))"
  shows "advances w (update_client r f w')"
  using assms(1)
proof (rule advances_trans)
  show "advances w' (update_client r f w')"
    using assms(2,3) by (auto simp: advances_def client_at_update)
qed

lemma advances_entry: "entry_client now addr w = (r, w') \<Longrightarrow> advances w w'"
  by (auto simp: entry_client_def advances_def client_at_def nth_append split: option.splits)

lemma advances_Dtls: "advances w (snd (handle_Dtls now addr w))"
  by (cases "entry_client now addr w")
    (auto simp: handle_Dtls_def Let_def intro!: advances_update dest: advances_entry)

lemma advances_connect: "advances w (snd (dtls_connect sc env r w))"
proof -
  obtain x c where xc: "connect sc env (client_at w r) = (x, c)"
    by fastforce
  have "state (client_at w r) \<le> state c" "is_deleted c = is_deleted (client_at w r)"
    using connect_advances [of "client_at w r" sc env] connect_links(2) [of sc env "client_at w r"]
    by (simp_all add: xc)
  then show ?thesis
    by (cases x) (auto simp: dtls_connect_def xc intro!: advances_update)
qed

lemma advances_GroupId: "handle_GroupId k a s w = Ret w' \<Longrightarrow> advances w w'"
  unfolding handle_GroupId_cases
  by (auto intro!: advances_update split: option.splits if_splits)

lemma advances_step: "client_step sc w w' \<Longrightarrow> advances w w'"
proof (erule client_stepE)
  show "handle_Dtls now addr w = (res, w') \<Longrightarrow> advances w w'" for now addr res
    using advances_Dtls [of w now addr] by simp
  show "dtls_connect sc env r w = (del, w') \<Longrightarrow> advances w w'" for env r del
    using advances_connect [of w sc env r] by simp
  show "handle_DeleteMessage addr w = (res, w') \<Longrightarrow> advances w w'" for addr res
    by (auto simp: handle_DeleteMessage_def Let_def intro!: advances_update split: option.splits)
  show "handle_GroupId k a s w = Ret w' \<Longrightarrow> advances w w'" for k a s
    by (rule advances_GroupId)
  show "handle_MediaAddrMessage draws addr md w = w' \<Longrightarrow> advances w w'" for draws addr md
    by (auto simp: handle_MediaAddrMessage_def intro!: advances_update split: option.splits)
qed

subsection \<open>RTP runtimes\<close>

lemma runtime_entries_lookup:
  "runtime_entries draws fs m f =
     (case m f of
        Some rt \<Rightarrow> Some rt
      | None \<Rightarrow> if f \<in> set fs then Some (case draws f of (ts, sq, now) \<Rightarrow> ClientRtpRuntime_default ts sq now)
                else None)"
  by (induction fs arbitrary: m) (auto simp: runtime_entries_def split: option.splits prod.splits)

text \<open>A first sender becomes the group's sender, its own receiver and its own \<open>sender_addr\<close>.\<close>

lemma first_sender_receives_itself:
  assumes "sharing_ok w"
    and "groups_storage (groups w) group_id \<in> {None, Some addr}"
    and "client_storage w addr = Some sender"
  shows "\<exists>w'. handle_GroupId group_id addr True w = Ret w' \<and>
    client_at w' sender = (client_at w sender)\<lparr>sender_addr := Some addr,
      receivers := (receivers (client_at w sender))(addr \<mapsto> sender)\<rparr> \<and>
    groups_storage (groups w') = (groups_storage (groups w))(group_id \<mapsto> addr)"
proof -
  have len: "sender < length (heap w)"
    using storage_valid [OF assms(1)] assms(3) by auto
  have cg: "client_at (w\<lparr>groups := x\<rparr>) r = client_at w r" for x r
    by (simp add: client_at_def)
  show ?thesis
    unfolding handle_GroupId_cases last_sender_def
    using assms(2,3) len by (auto simp: client_at_update cg groups.join_sender)
qed

subsection \<open>A concrete run\<close>

text \<open>Two clients, at \<open>1:1\<close> and \<open>2:2\<close>, and the first of them sending in group 7.\<close>

definition two_clients :: "(nat, (string \<rightharpoonup> u8) \<times> (u8 \<rightharpoonup> string)) ClientActor" where
  "two_clients = snd (handle_Dtls 0 addr2 (snd (handle_Dtls 0 addr1 ClientActor_new)))"

definition one_sender :: "(nat, (string \<rightharpoonup> u8) \<times> (u8 \<rightharpoonup> string)) ClientActor" where
  "one_sender = (case handle_GroupId 7 addr1 True two_clients of Ret w \<Rightarrow> w | _ \<Rightarrow> two_clients)"

lemma two_clients_reachable: "client_reachable counting_crate two_clients"
  unfolding two_clients_def
  by (rule client_reachable.step [OF client_reachable.step [OF client_reachable.start]],
      rule client_step.dtls, rule prod.collapse [symmetric],
      rule client_step.dtls, rule prod.collapse [symmetric])

lemma two_clients_eq:
  "two_clients =
     \<lparr>heap = [(Client_default 0)\<lparr>dtls_connected := True\<rparr>, (Client_default 0)\<lparr>dtls_connected := True\<rparr>],
      client_storage = [addr1 \<mapsto> 0, addr2 \<mapsto> 1], groups = Group_default\<rparr>"
  by (simp add: two_clients_def handle_Dtls_def entry_client_def ClientActor_new_def client_at_def
      update_client_def Client_default_def)

lemma one_sender_eq:
  "one_sender =
     \<lparr>heap = [(Client_default 0)\<lparr>dtls_connected := True, sender_addr := Some addr1, receivers := [addr1 \<mapsto> 0]\<rparr>,
              (Client_default 0)\<lparr>dtls_connected := True\<rparr>],
      client_storage = [addr1 \<mapsto> 0, addr2 \<mapsto> 1], groups = \<lparr>groups_storage = [7 \<mapsto> addr1]\<rparr>\<rparr>"
  by (simp add: one_sender_def two_clients_eq handle_GroupId_def insert_or_get_sender_def
      Group_default_def rwlock_write_def rwlock_read_def update_client_def Client_default_def)

lemma one_sender_reachable: "client_reachable counting_crate one_sender"
proof (rule client_reachable.step [OF two_clients_reachable], rule client_step.group)
  show "handle_GroupId 7 addr1 True two_clients = Ret one_sender"
    by (simp add: one_sender_eq two_clients_eq handle_GroupId_def insert_or_get_sender_def
      Group_default_def rwlock_write_def rwlock_read_def update_client_def Client_default_def)
qed

section \<open>Properties\<close>

text \<open>
  C30. The \<open>GroupId\<close> handler blocks forever, and only then, when an address that joins as a sender
  displaces another sender of the group and both are registered clients: the handler takes the write
  lock of the old sender's receivers and then reads the same lock. It fails in no other way.
\<close>

theorem group_id_deadlocks_iff:
  "handle_GroupId group_id addr is_sender w = Abort e \<longleftrightarrow>
     e = SelfDeadlock \<and> is_sender \<and>
     (\<exists>old. groups_storage (groups w) group_id = Some old \<and> old \<noteq> addr \<and>
        client_storage w addr \<noteq> None \<and> client_storage w old \<noteq> None)"
  unfolding handle_GroupId_cases last_sender_def
  by (auto split: option.splits)

text \<open>
  C31. A registered viewer that joins a group with a registered sender is linked in both
  directions: the sender's receivers gain the viewer under its address, the viewer remembers the
  sender's address, and nothing else of the state changes.
\<close>

theorem viewer_join_links:
  assumes "sharing_ok w"
    and "groups_storage (groups w) group_id = Some p" and "p \<noteq> addr"
    and "client_storage w addr = Some viewer" and "client_storage w p = Some sender"
  shows "\<exists>w'. handle_GroupId group_id addr False w = Ret w' \<and>
    client_at w' sender = (client_at w sender)\<lparr>receivers := (receivers (client_at w sender))(addr \<mapsto> viewer)\<rparr> \<and>
    client_at w' viewer = (client_at w viewer)\<lparr>sender_addr := Some p\<rparr> \<and>
    (\<forall>r. r \<noteq> sender \<and> r \<noteq> viewer \<longrightarrow> client_at w' r = client_at w r) \<and>
    client_storage w' = client_storage w \<and> groups w' = groups w"
proof -
  note ok = assms(1)
  have ne: "sender \<noteq> viewer"
    using sharing_okD(2) [OF ok storage_occurs [OF assms(4)], of p] assms(3,5) by auto
  have len: "viewer < length (heap w)" "sender < length (heap w)"
    using storage_valid [OF ok] assms(4,5) by auto
  have g: "insert_or_get_sender (groups w) group_id addr False = (p, groups w)"
    using assms(2) by (simp add: insert_or_get_sender_def)
  have cg: "client_at (w\<lparr>groups := x\<rparr>) r = client_at w r" for x r
    by (simp add: client_at_def)
  show ?thesis
    unfolding handle_GroupId_cases last_sender_def g
    using assms ne len by (simp add: client_at_update cg)
qed

theorem viewer_join_links_witness:
  "\<exists>w'. handle_GroupId 7 addr2 False one_sender = Ret w' \<and>
    receivers (client_at w' 0) addr2 = Some 1 \<and> sender_addr (client_at w' 1) = Some addr1"
proof -
  have "groups_storage (groups one_sender) 7 = Some addr1" "addr1 \<noteq> addr2"
    "client_storage one_sender addr2 = Some 1" "client_storage one_sender addr1 = Some 0"
    by (simp_all add: one_sender_eq)
  from viewer_join_links [OF sharing_reachable [OF one_sender_reachable] this] show ?thesis
    by force
qed

text \<open>
  C32. Deleting a registered client unregisters exactly its address, removes it as the sender of
  every group and no other sender, and leaves no live reference to it: every receiver table that
  still holds an entry for the address holds a client marked deleted, which forwarding skips.
\<close>

theorem delete_leaves_no_live_reference:
  assumes "sharing_ok w" and "client_storage w addr = Some r"
  shows "\<exists>w'. handle_DeleteMessage addr w = (True, w') \<and>
    client_storage w' = (client_storage w)(addr := None) \<and>
    (\<forall>k. groups_storage (groups w') k =
       (if groups_storage (groups w) k = Some addr then None else groups_storage (groups w) k)) \<and>
    (\<forall>q x. q < length (heap w') \<longrightarrow> receivers (client_at w' q) addr = Some x \<longrightarrow>
       is_deleted (client_at w' x))"
proof -
  obtain w' where w': "handle_DeleteMessage addr w = (True, w')"
    using assms(2) by (simp add: handle_DeleteMessage_def Let_def)
  have st: "client_storage w' = (client_storage w)(addr := None)"
    and gr: "groups w' = remove_sender (groups w) addr"
    using w' assms(2) by (auto simp: handle_DeleteMessage_def Let_def)
  have ok: "sharing_ok w'"
    using sharing_delete [OF assms(1), of addr] w' by simp
  have "is_deleted (client_at w' x)"
    if "q < length (heap w')" "receivers (client_at w' q) addr = Some x" for q x
  proof -
    have "occurs w' addr x"
      using that by (auto simp: occurs_def)
    then show ?thesis
      using sharing_okD(4) [OF ok, of addr x] by (auto simp: st)
  qed
  then show ?thesis
    using w' st by (simp add: gr groups.leave_eq)
qed

theorem delete_leaves_no_live_reference_witness:
  "\<exists>w'. handle_DeleteMessage addr1 one_sender = (True, w') \<and> client_storage w' addr1 = None \<and>
    groups_storage (groups w') 7 = None"
proof -
  have "client_storage one_sender addr1 = Some 0"
    by (simp add: one_sender_eq)
  from delete_leaves_no_live_reference [OF sharing_reachable [OF one_sender_reachable] this] show ?thesis
    by (force simp: one_sender_eq)
qed

text \<open>The client itself after its deletion.\<close>

lemma delete_own_client:
  assumes "client_storage w addr = Some r" and "r < length (heap w)"
  defines "c' \<equiv> client_at (snd (handle_DeleteMessage addr w)) r"
  shows "is_deleted c'" "srtp c' = srtp (client_at w r)" "state c' = state (client_at w r)"
  using assms(2) by (simp_all add: c'_def assms(1) handle_DeleteMessage_def Let_def client_at_def update_client_def)

text \<open>
  C33. A handshake task, with the deletion it asks for carried out, settles the client. When the client
  was new, \<open>Ssl::new\<close> and \<open>SslStream::new\<close> succeeded, OpenSSL accepted, the negotiated profile is
  \<open>SRTP_AES128_CM_SHA1_80\<close>, its keying material could be exported and both SRTP sessions could be
  made from it, the client is connected with exactly those sessions and nothing else changes. In every
  other case the client ends unregistered and marked deleted, no longer sends in any group, and gets no
  sessions; once \<open>Ssl::new\<close> succeeded it is in \<open>Shutdown\<close>, a client that was already connected included.
\<close>

theorem handshake_outcome:
  assumes "sharing_ok w" and "client_storage w addr = Some r" and "c = client_at w r"
    and "dtls_connect sc env r w = (delete, w1)"
    and "w2 = (if delete then snd (handle_DeleteMessage addr w1) else w1)"
    and "settled = (\<lambda>t. state c = New \<and> ssl_new env = Inr () \<and> ssl_stream_new env = Inr () \<and>
      (\<exists>ssl. ssl_accept env = Accepted ssl \<and> keyed_from sc ssl t))"
  shows "(\<forall>t. settled t \<longrightarrow> \<not> delete \<and> w2 = update_client r (\<lambda>c. c\<lparr>state := Connected, srtp := Some t\<rparr>) w) \<and>
    ((\<nexists>t. settled t) \<longrightarrow> delete \<and> client_storage w2 = (client_storage w)(addr := None) \<and>
      is_deleted (client_at w2 r) \<and> srtp (client_at w2 r) = srtp c \<and>
      (\<forall>k. groups_storage (groups w2) k \<noteq> Some addr) \<and>
      state (client_at w2 r) = (if ssl_new env = Inr () then Shutdown else state c))"
proof (intro conjI allI impI)
  have r: "r < length (heap w)"
    by (rule storage_valid [OF assms(1,2)])
  note defs = dtls_connect_def connect_def Let_def SrtpTransport_new_Inr [symmetric]
  {
    fix t assume t: "settled t"
    show "\<not> delete" "w2 = update_client r (\<lambda>c. c\<lparr>state := Connected, srtp := Some t\<rparr>) w"
      using t assms(3-6) by (auto simp: defs update_client_def client_at_def)
  }
  assume no: "\<nexists>t. settled t"
  then have del: "delete"
    and w1: "w1 = update_client r (\<lambda>c. c\<lparr>state := if ssl_new env = Inr () then Shutdown else state c\<rparr>) w"
    using assms(3,4,6) by (auto simp: defs update_client_def client_at_def
        split: sum.splits ClientState.splits handshake.splits)
  then have st: "client_storage w1 addr = Some r" and r1: "r < length (heap w1)"
    using assms(2) r by simp_all
  show delete
    by (rule del)
  show "client_storage w2 = (client_storage w)(addr := None)"
    using del st w1 by (simp add: assms(5) handle_DeleteMessage_def Let_def)
  show "is_deleted (client_at w2 r)" "srtp (client_at w2 r) = srtp c"
    "state (client_at w2 r) = (if ssl_new env = Inr () then Shutdown else state c)"
    using del delete_own_client [OF st r1] r w1 by (simp_all add: assms(3,5) client_at_update)
  show "groups_storage (groups w2) k \<noteq> Some addr" for k
    using del st by (simp add: assms(5) handle_DeleteMessage_def Let_def groups.leave_eq)
qed

theorem handshake_outcome_witness:
  "let w = snd (handle_DeleteMessage addr1 (snd (dtls_connect counting_crate
     \<lparr>ssl_new = Inr (), ssl_stream_new = Inr (), ssl_accept = HandshakeTimeout\<rparr> 0 one_sender))) in
   client_storage w addr1 = None \<and> groups_storage (groups w) 7 \<noteq> Some addr1 \<and> state (client_at w 0) = Shutdown"
proof -
  let ?env = "\<lparr>ssl_new = Inr (), ssl_stream_new = Inr (), ssl_accept = HandshakeTimeout\<rparr>"
  have "client_storage one_sender addr1 = Some 0"
    by (simp add: one_sender_eq)
  note out = handshake_outcome [OF sharing_reachable [OF one_sender_reachable] this refl prod.collapse [symmetric]
      refl refl, of ?env counting_crate, THEN conjunct2, THEN mp]
  have "\<nexists>t. state (client_at one_sender 0) = New \<and> ssl_new ?env = Inr () \<and> ssl_stream_new ?env = Inr () \<and>
      (\<exists>ssl. ssl_accept ?env = Accepted ssl \<and> keyed_from counting_crate ssl t)"
    by simp
  note out = out [OF this]
  have del: "fst (dtls_connect counting_crate ?env 0 one_sender)"
    using out by (rule conjunct1)
  show ?thesis
    using out unfolding Let_def if_P [OF del] by simp
qed

text \<open>
  After a \<open>MediaAddrMessage\<close> for a registered client, every payload type with a clock rate in
  the announced media has an RTP runtime for that rate, and the runtimes the client already had are
  the same, so a repeated announcement never restarts a running stream.
\<close>

theorem media_announcement_runtimes:
  assumes "sharing_ok w" and "client_storage w addr = Some r"
    and "get_frequency md pt = Some f"
  shows "let c = client_at (handle_MediaAddrMessage draws addr md w) r in
    media c = Some md \<and> rtp_runtime_storage c f \<noteq> None \<and>
    rtp_runtime_storage (client_at w r) \<subseteq>\<^sub>m rtp_runtime_storage c"
proof -
  have r: "r < length (heap w)"
    using storage_valid [OF assms(1,2)] .
  have "f \<in> set (get_frequencies md)"
    using assms(3) unfolding set_get_frequencies by (simp add: get_frequency_def ranI)
  then show ?thesis
    using r assms(2)
    by (auto simp: handle_MediaAddrMessage_def runtime_entries_lookup map_le_def split: option.splits)
qed

theorem media_announcement_runtimes_witness:
  "rtp_runtime_storage (client_at (handle_MediaAddrMessage (\<lambda>_. (1, 1, 0)) addr1
     (MediaList_from two_maps [[Rtpmap 96 ''VP8'' 90000 None]]) one_sender) 0) 90000 \<noteq> None"
proof -
  have "client_storage one_sender addr1 = Some 0"
    and "get_frequency (MediaList_from two_maps [[Rtpmap 96 ''VP8'' 90000 None]]) 96 = Some 90000"
    by (simp_all add: one_sender_eq get_frequency_def MediaList_from_def MediaList_from_iter_def
        map_filter_def MediaList_insert_def MediaList_default_def two_maps_def)
  from media_announcement_runtimes [OF sharing_reachable [OF one_sender_reachable] this] show ?thesis
    by (simp add: Let_def)
qed

end
