(* ===== verification/Rtc_Actor.thy ===== *)
theory Rtc_Actor
  imports Clients Demux
begin

text \<open>
  \<open>src/src/client/rtc_actor.rs\<close>: the media path. A packet of a registered client is decrypted, its
  sequence number and time stamp are replaced by the server's, the jitter estimate of the client is
  updated, and the packet is encrypted for every receiver. The crates and the profile are parameters;
  \<open>clk n\<close> is the n-th reading of the clock in one call; \<open>sched\<close> is the order in which the parallel
  iterator reaches the receivers. A failing receiver may keep the iterator from reaching the others,
  so \<open>sched\<close> need not hold all of them; the theorems say what they require of it.
\<close>

section \<open>Definitions\<close>

datatype rtc_out = ToUdp WebRtcRequest | ToJitter JitterMessage

type_synonym ('s, 'b, 'z) rtc_result =
  "((ErrorParse + unit) \<times> rtc_out list \<times> ('s, 'b, 'z) Shared_scheme) rust"

definition codec_n_frequency ::
    "'b bimap_crate \<Rightarrow> bool \<Rightarrow> RtpHeader \<Rightarrow> ('s, 'b) Client \<Rightarrow> (string \<times> u32) option" where
  "codec_n_frequency bm rtcp rtp_header c =
     (if rtcp then None
      else case media c of
          None \<Rightarrow> None
        | Some m \<Rightarrow>
            (case get_name bm m (payload rtp_header) of
               None \<Rightarrow> None
             | Some name \<Rightarrow>
                 (case get_frequency m (payload rtp_header) of
                    None \<Rightarrow> None
                  | Some frequency \<Rightarrow> Some (name, frequency))))"

text \<open>The block \<open>Decrypt rtp package\<close>. The payload type 111 is refused after the decryption.\<close>

definition decrypt_package ::
    "'s srtp_crate \<Rightarrow> bool \<Rightarrow> RtpHeader \<Rightarrow> SocketAddr \<Rightarrow> client_ref \<Rightarrow> bytes \<Rightarrow>
      ('s, 'b, 'z) Shared_scheme \<Rightarrow> (ErrorParse + bytes) \<times> ('s, 'b, 'z) Shared_scheme" where
  "decrypt_package sc rtcp rtp_header addr client_ref message w =
     (case srtp (client_at w client_ref) of
        None \<Rightarrow> (Inl (ClientNotReady addr), w)
      | Some t \<Rightarrow>
          let (res, t') = (if rtcp then unprotect_rtcp sc t message else unprotect sc t message);
              w = update_client client_ref (\<lambda>c. c\<lparr>srtp := Some t'\<rparr>) w
          in case res of
              Inl e \<Rightarrow> (Inl e, w)
            | Inr message \<Rightarrow>
                if \<not> rtcp \<and> payload rtp_header = 111 then (Inl UnsupportedFormat, w)
                else (Inr message, w))"

text \<open>The runtime of a stream on a new packet: the client's time step, the real one, the runtime.\<close>

definition advance_runtime ::
    "profile \<Rightarrow> time \<Rightarrow> RtpHeader \<Rightarrow> ClientRtpRuntime \<Rightarrow> (u32 \<times> time \<times> ClientRtpRuntime) rust" where
  "advance_runtime p now rtp_header rtp_runtime =
     (let client_diff = (case client_ts rtp_runtime of
            Some ts \<Rightarrow> saturating_sub (timestamp rtp_header) ts | None \<Rightarrow> 0);
          incr_sequence = (case client_sequence rtp_runtime of
            Some sq \<Rightarrow> saturating_sub (sequence rtp_header) sq | None \<Rightarrow> 0);
          rtp_runtime = rtp_runtime\<lparr>client_sequence := nonzero (sequence rtp_header),
            client_ts := nonzero (timestamp rtp_header)\<rparr>
      in rbind (add_ovf p (server_sequence rtp_runtime) incr_sequence) (\<lambda>sq.
         rbind (add_ovf p (server_ts rtp_runtime) client_diff) (\<lambda>ts.
           let rtp_runtime = rtp_runtime\<lparr>server_sequence := sq, server_ts := ts\<rparr>;
               current_time = elapsed now (started_time rtp_runtime)
           in rbind (duration_sub current_time (prev_time_diff rtp_runtime)) (\<lambda>real_time_diff.
                Ret (client_diff, real_time_diff, rtp_runtime\<lparr>prev_time_diff := current_time\<rparr>)))))"

text \<open>The block \<open>Calculating jitter delay\<close>.\<close>

definition jitter_step :: u32 where
  "jitter_step = of_nat (JITTER_BUFFER_DELAY_INCREASE_STEP div 1000000)"

definition calculate_jitter ::
    "profile \<Rightarrow> (nat \<Rightarrow> time) \<Rightarrow> SocketAddr \<Rightarrow> u32 \<Rightarrow> u32 \<Rightarrow> time \<Rightarrow> ClientRtpJitterStats \<Rightarrow>
      (JitterMessage list \<times> ClientRtpJitterStats) rust" where
  "calculate_jitter p clk addr frequency client_diff real_time_diff stats =
     (let rate = frequency div 1000
      in rbind (mul_ovf p (of_nat (real_time_diff div 1000000)) rate) (\<lambda>arrival.
           let transit = (word_of_int \<bar>uint arrival - uint client_diff\<bar> :: u32)
           in rbind (mul_ovf p (jitter_delay stats) rate) (\<lambda>jd.
              rbind (add_ovf p jd JITTER_BUFFER_VOLATILE) (\<lambda>threshold.
                if transit > threshold then
                  let stats = stats\<lparr>jitter_check_timestamp := clk 1\<rparr>
                  in rbind (add_ovf p (jitter_delay stats) jitter_step) (\<lambda>d.
                       Ret ([IncreaseJitterBufferDelay addr], stats\<lparr>jitter_delay := d\<rparr>))
                else if elapsed (clk 1) (jitter_check_timestamp stats) \<ge> JITTER_RECHECK_TIME then
                  let stats = stats\<lparr>jitter_check_timestamp := clk 2\<rparr>
                  in rbind (sub_ovf p (jitter_delay stats) jitter_step) (\<lambda>d.
                       Ret ([DecreaseJitterBufferDelay addr], stats\<lparr>jitter_delay := d\<rparr>))
                else Ret ([], stats)))))"

text \<open>The block \<open>Replace client with server meta\<close>, for RTP only.\<close>

definition replace_meta ::
    "profile \<Rightarrow> byteorder \<Rightarrow> (nat \<Rightarrow> time) \<Rightarrow> RtpHeader \<Rightarrow> (string \<times> u32) option \<Rightarrow> SocketAddr \<Rightarrow>
      client_ref \<Rightarrow> bytes \<Rightarrow> ('s, 'b, 'z) Shared_scheme \<Rightarrow>
      ((ErrorParse + bytes) \<times> rtc_out list \<times> ('s, 'b, 'z) Shared_scheme) rust" where
  "replace_meta p be clk rtp_header codec addr client_ref message w =
     (case codec of
        None \<Rightarrow> Ret (Inl (CodecNotSet addr), [], w)
      | Some (_, frequency) \<Rightarrow>
          (case rtp_runtime_storage (client_at w client_ref) frequency of
             None \<Rightarrow> Ret (Inl (CodecNotSet addr), [], w)
           | Some rtp_runtime \<Rightarrow>
               rbind (advance_runtime p (clk 0) rtp_header rtp_runtime)
                 (\<lambda>(client_diff, real_time_diff, rtp_runtime).
               rbind (replace_sequence_n_timestamp be message
                   (server_sequence rtp_runtime) (server_ts rtp_runtime)) (\<lambda>message.
               rbind (calculate_jitter p clk addr frequency client_diff real_time_diff
                   (jitter_stats (client_at w client_ref))) (\<lambda>(out, stats).
                 Ret (Inr message, map ToJitter out,
                      update_client client_ref (\<lambda>c. c\<lparr>jitter_stats := stats, rtp_runtime_storage :=
                        (rtp_runtime_storage c)(frequency \<mapsto> rtp_runtime)\<rparr>) w))))))"

text \<open>RTCP of a client without receivers goes to the client's sender.\<close>

definition rtcp_to_sender ::
    "'s srtp_crate \<Rightarrow> client_ref \<Rightarrow> bytes \<Rightarrow> ('s, 'b, 'z) Shared_scheme \<Rightarrow>
      (ErrorParse + unit) \<times> rtc_out list \<times> ('s, 'b, 'z) Shared_scheme" where
  "rtcp_to_sender sc client_ref message w =
     (case sender_addr (client_at w client_ref) of
        None \<Rightarrow> (Inr (), [], w)
      | Some to \<Rightarrow>
          (case client_storage w to of
             None \<Rightarrow> (Inr (), [], w)
           | Some sender \<Rightarrow>
               (case srtp (client_at w sender) of
                  None \<Rightarrow> (Inr (), [], w)
                | Some t \<Rightarrow>
                    let (res, t') = protect_rtcp sc t message;
                        w = update_client sender (\<lambda>c. c\<lparr>srtp := Some t'\<rparr>) w
                    in case res of
                        Inl e \<Rightarrow> (Inl e, [], w)
                      | Inr message \<Rightarrow> (Inr (), [ToUdp (Rtc message to)], w))))"

text \<open>The block \<open>Prepare payload type\<close>; the condition is the one of the source.\<close>

definition prepare_payload ::
    "'b bimap_crate \<Rightarrow> bool \<Rightarrow> (string \<times> u32) option \<Rightarrow> RtpHeader \<Rightarrow> ('s, 'b) Client \<Rightarrow> bytes \<Rightarrow>
      bytes rust" where
  "prepare_payload bm rtcp codec rtp_header recv message =
     (if rtcp then
        (case codec of
           None \<Rightarrow> Ret message
         | Some (codec, frequency) \<Rightarrow>
             (case media recv of
                None \<Rightarrow> Ret message
              | Some m \<Rightarrow>
                  (case get_id bm m codec of
                     None \<Rightarrow> Ret message
                   | Some pt \<Rightarrow> set_idx message 1 (calculate_payload (marker rtp_header) pt))))
      else Ret message)"

text \<open>The closure of \<open>try_for_each\<close>, for one receiver.\<close>

definition forward_to ::
    "'s srtp_crate \<Rightarrow> 'b bimap_crate \<Rightarrow> bool \<Rightarrow> (string \<times> u32) option \<Rightarrow> RtpHeader \<Rightarrow> SocketAddr \<Rightarrow>
      bytes \<Rightarrow> SocketAddr \<times> client_ref \<Rightarrow> ('s, 'b, 'z) Shared_scheme \<Rightarrow> ('s, 'b, 'z) rtc_result" where
  "forward_to sc bm rtcp codec rtp_header addr message = (\<lambda>(r_addr, recv) w.
     case srtp (client_at w recv) of
       None \<Rightarrow> Ret (Inl (ClientNotReady addr), [], w)
     | Some t \<Rightarrow>
         let (res, t') = (if rtcp then protect_rtcp sc t message else protect sc t message);
             w = update_client recv (\<lambda>c. c\<lparr>srtp := Some t'\<rparr>) w
         in case res of
             Inl e \<Rightarrow> Ret (Inl e, [], w)
           | Inr message \<Rightarrow>
               rbind (prepare_payload bm rtcp codec rtp_header (client_at w recv) message) (\<lambda>message.
                 Ret (Inr (), [ToUdp (Rtc message r_addr)], w)))"

definition live_receivers ::
    "('s, 'b, 'z) Shared_scheme \<Rightarrow> client_ref \<Rightarrow> SocketAddr list \<Rightarrow> (SocketAddr \<times> client_ref) list" where
  "live_receivers w client_ref sched =
     List.map_filter (\<lambda>a. case receivers (client_at w client_ref) a of
         None \<Rightarrow> None
       | Some recv \<Rightarrow> if \<not> is_deleted (client_at w recv) then Some (a, recv) else None) sched"

text \<open>
  The receivers that are reached, one after the other. The error is one of those that occurred; only
  the log line depends on which.
\<close>

fun fan_out ::
    "(SocketAddr \<times> client_ref \<Rightarrow> ('s, 'b, 'z) Shared_scheme \<Rightarrow> ('s, 'b, 'z) rtc_result) \<Rightarrow>
      (SocketAddr \<times> client_ref) list \<Rightarrow> ('s, 'b, 'z) Shared_scheme \<Rightarrow> ('s, 'b, 'z) rtc_result" where
  "fan_out f [] w = Ret (Inr (), [], w)"
| "fan_out f (x # xs) w =
     rbind (f x w) (\<lambda>(res, out, w').
     rbind (fan_out f xs w') (\<lambda>(res', out', w'').
       Ret (case res of Inl e \<Rightarrow> Inl e | Inr _ \<Rightarrow> res', out @ out', w'')))"

text \<open>The last part of the handler: the packet goes to the client's sender or to its receivers.\<close>

definition deliver ::
    "'s srtp_crate \<Rightarrow> 'b bimap_crate \<Rightarrow> SocketAddr list \<Rightarrow> bool \<Rightarrow> (string \<times> u32) option \<Rightarrow> RtpHeader \<Rightarrow>
      SocketAddr \<Rightarrow> client_ref \<Rightarrow> bytes \<Rightarrow> ('s, 'b, 'z) Shared_scheme \<Rightarrow> ('s, 'b, 'z) rtc_result" where
  "deliver sc bm sched rtcp codec rtp_header addr client_ref message w =
     (if rtcp \<and> receivers (client_at w client_ref) = Map.empty
      then Ret (rtcp_to_sender sc client_ref message w)
      else fan_out (forward_to sc bm rtcp codec rtp_header addr message)
             (live_receivers w client_ref sched) w)"

definition rtc_process ::
    "profile \<Rightarrow> byteorder \<Rightarrow> 's srtp_crate \<Rightarrow> 'b bimap_crate \<Rightarrow> (nat \<Rightarrow> time) \<Rightarrow> SocketAddr list \<Rightarrow>
      bool \<Rightarrow> RtpHeader \<Rightarrow> SocketAddr \<Rightarrow> client_ref \<Rightarrow> bytes \<Rightarrow> ('s, 'b, 'z) Shared_scheme \<Rightarrow>
      ('s, 'b, 'z) rtc_result" where
  "rtc_process p be sc bm clk sched rtcp rtp_header addr client_ref message w =
     (let codec = codec_n_frequency bm rtcp rtp_header (client_at w client_ref);
          (dec, w) = decrypt_package sc rtcp rtp_header addr client_ref message w
      in case dec of
          Inl e \<Rightarrow> Ret (Inl e, [], w)
        | Inr message \<Rightarrow>
            rbind (if rtcp then Ret (Inr message, [], w)
                   else replace_meta p be clk rtp_header codec addr client_ref message w)
              (\<lambda>(res, out, w).
                 case res of
                   Inl e \<Rightarrow> Ret (Inl e, out, w)
                 | Inr message \<Rightarrow>
                     rbind (deliver sc bm sched rtcp codec rtp_header addr client_ref message w)
                       (\<lambda>(res, out', w). Ret (res, out @ out', w))))"

text \<open>The handler: whether it logs a warning, what it sends, and the state after it.\<close>

definition rtc_warns :: "ErrorParse + unit \<Rightarrow> bool" where
  "rtc_warns res = (case res of Inl e \<Rightarrow> \<not> should_ignored e | Inr _ \<Rightarrow> False)"

definition handle_Rtc ::
    "profile \<Rightarrow> byteorder \<Rightarrow> 's srtp_crate \<Rightarrow> 'b bimap_crate \<Rightarrow> (nat \<Rightarrow> time) \<Rightarrow> SocketAddr list \<Rightarrow>
      WebRtcRequest \<Rightarrow> ('s, 'b, 'z) Shared_scheme \<Rightarrow> (bool \<times> rtc_out list \<times> ('s, 'b, 'z) Shared_scheme) rust" where
  "handle_Rtc p be sc bm clk sched msg w =
     (case msg of
        Rtc message addr \<Rightarrow>
          (case client_storage w addr of
             None \<Rightarrow> Ret (False, [], w)
           | Some client_ref \<Rightarrow>
               rbind (is_rtcp message) (\<lambda>rtcp.
               rbind (from_buf be message) (\<lambda>hdr.
               rbind (case hdr of
                        Inl e \<Rightarrow> Ret (Inl e, [], w)
                      | Inr rtp_header \<Rightarrow>
                          rtc_process p be sc bm clk sched rtcp rtp_header addr client_ref message w)
                 (\<lambda>(res, out, w). Ret (rtc_warns res, out, w)))))
      | _ \<Rightarrow> Ret (False, [], w))"

section \<open>The contract of forwarding\<close>

text \<open>
  What the media path leaves alone: which clients exist and how they are registered, and of each
  client everything but its SRTP sessions, its runtimes and its jitter estimate. That it has sessions
  at all does not change either.
\<close>

definition core ::
    "('s, 'b) Client \<Rightarrow> ClientState \<times> 'b MediaList option \<times> (SocketAddr \<rightharpoonup> client_ref) \<times>
      SocketAddr option \<times> bool \<times> bool \<times> bool" where
  "core c = (state c, media c, receivers c, sender_addr c, is_deleted c, dtls_connected c, srtp c = None)"

definition same_core :: "('s, 'b, 'z) Shared_scheme \<Rightarrow> ('s, 'b, 'z) Shared_scheme \<Rightarrow> bool" where
  "same_core w w' \<longleftrightarrow> client_storage w' = client_storage w \<and> Shared.more w' = Shared.more w \<and>
     map core (heap w') = map core (heap w)"

lemma same_core_refl [simp]: "same_core w w"
  by (simp add: same_core_def)

lemma same_core_trans: "same_core w w' \<Longrightarrow> same_core w' w'' \<Longrightarrow> same_core w w''"
  by (simp add: same_core_def)

lemma same_core_update:
  assumes "core (f (client_at w r)) = core (client_at w r)"
  shows "same_core w (update_client r f w)"
  using assms by (cases "r < length (heap w)")
    (simp_all add: same_core_def update_client_def client_at_def map_update list_update_beyond
      list_update_same_conv)

text \<open>
  A forwarder handles one receiver: it sends to the address it is given and to no other, and keeps
  the core of the state. Both carry over to the whole fan-out.
\<close>

locale forwarder =
  fixes f :: "SocketAddr \<times> client_ref \<Rightarrow> ('s, 'b, 'z) Shared_scheme \<Rightarrow> ('s, 'b, 'z) rtc_result"
  assumes keeps: "f x w = Ret (res, out, w') \<Longrightarrow> same_core w w'"
    and addressed: "f x w = Ret (res, out, w') \<Longrightarrow> y \<in> set out \<Longrightarrow> \<exists>m. y = ToUdp (Rtc m (fst x))"
begin

lemma fan_out_keeps: "fan_out f xs w = Ret (res, out, w') \<Longrightarrow> same_core w w'"
proof (induction xs arbitrary: w res out)
  case Nil
  then show ?case by simp
next
  case (Cons x xs)
  then show ?case
    by (auto simp: rust_iffs split: prod.splits) (metis keeps same_core_trans)
qed

lemma fan_out_addressed:
  "fan_out f xs w = Ret (res, out, w') \<Longrightarrow> y \<in> set out \<Longrightarrow> \<exists>m a. a \<in> fst ` set xs \<and> y = ToUdp (Rtc m a)"
proof (induction xs arbitrary: w res out)
  case Nil
  then show ?case by simp
next
  case (Cons x xs)
  from Cons.prems(1) obtain r1 o1 w1 r2 o2 where
    f: "f x w = Ret (r1, o1, w1)" and r: "fan_out f xs w1 = Ret (r2, o2, w')" and o: "out = o1 @ o2"
    by (auto simp: rust_iffs split: prod.splits)
  show ?case
    using Cons.prems(2) addressed [OF f] Cons.IH [OF r] by (auto simp: o) blast+
qed

end

interpretation fwd: forwarder "forward_to sc bm rtcp codec rtp_header addr message"
  for sc bm rtcp codec rtp_header addr message
proof
  fix x :: "SocketAddr \<times> client_ref" and w w' :: "('a, 'b, 'c) Shared_scheme" and res out y
  assume f: "forward_to sc bm rtcp codec rtp_header addr message x w = Ret (res, out, w')"
  show "same_core w w'"
    using f by (cases x) (auto simp: forward_to_def Let_def rust_iffs core_def intro!: same_core_update
        split: option.splits sum.splits prod.splits)
  show "\<exists>m. y = ToUdp (Rtc m (fst x))" if "y \<in> set out"
    using f that by (cases x) (auto simp: forward_to_def Let_def rust_iffs
        split: option.splits sum.splits prod.splits)
qed

section \<open>Lemmas\<close>

subsection \<open>What is left alone\<close>

lemma decrypt_keeps:
  "decrypt_package sc rtcp h addr r message w = (dec, w') \<Longrightarrow> same_core w w'"
  by (auto simp: decrypt_package_def Let_def core_def intro!: same_core_update
      split: option.splits prod.splits sum.splits if_splits)

lemma replace_meta_keeps:
  "replace_meta p be clk h codec addr r message w = Ret (res, out, w') \<Longrightarrow> same_core w w'"
  by (auto simp: replace_meta_def rust_iffs core_def intro!: same_core_update
      split: option.splits prod.splits)

lemma rtcp_to_sender_keeps: "rtcp_to_sender sc r message w = (res, out, w') \<Longrightarrow> same_core w w'"
  by (auto simp: rtcp_to_sender_def Let_def core_def intro!: same_core_update
      split: option.splits prod.splits sum.splits)

lemma deliver_keeps:
  "deliver sc bm sched rtcp codec h addr r message w = Ret (res, out, w') \<Longrightarrow> same_core w w'"
  by (auto simp: deliver_def dest: rtcp_to_sender_keeps fwd.fan_out_keeps split: if_splits)

text \<open>The three ways the handler gets through a packet.\<close>

lemma rtc_process_Ret:
  assumes "rtc_process p be sc bm clk sched rtcp h addr r message w = Ret (res, out, w')"
  obtains (refused) e where "decrypt_package sc rtcp h addr r message w = (Inl e, w')"
      "res = Inl e" "out = []"
  | (unknown) e m1 w1 where "decrypt_package sc rtcp h addr r message w = (Inr m1, w1)" "\<not> rtcp"
      "replace_meta p be clk h (codec_n_frequency bm rtcp h (client_at w r)) addr r m1 w1 = Ret (Inl e, out, w')"
      "res = Inl e"
  | (delivered) m1 w1 m2 out1 w2 out2 where
      "decrypt_package sc rtcp h addr r message w = (Inr m1, w1)"
      "(if rtcp then Ret (Inr m1, [], w1) else replace_meta p be clk h
         (codec_n_frequency bm rtcp h (client_at w r)) addr r m1 w1) = Ret (Inr m2, out1, w2)"
      "deliver sc bm sched rtcp (codec_n_frequency bm rtcp h (client_at w r)) h addr r m2 w2 = Ret (res, out2, w')"
      "out = out1 @ out2"
proof -
  obtain dec w1 where d: "decrypt_package sc rtcp h addr r message w = (dec, w1)"
    by fastforce
  show thesis
  proof (cases dec)
    case (Inl e)
    with assms d show ?thesis by (auto simp: rtc_process_def intro: refused)
  next
    case (Inr m1)
    define M where "M = (if rtcp then Ret (Inr m1, [], w1) else replace_meta p be clk h
         (codec_n_frequency bm rtcp h (client_at w r)) addr r m1 w1)"
    from assms d Inr obtain x out1 w2 where m: "M = Ret (x, out1, w2)"
      and t: "(case x of Inl e \<Rightarrow> Ret (Inl e, out1, w2)
        | Inr m2 \<Rightarrow> rbind (deliver sc bm sched rtcp (codec_n_frequency bm rtcp h (client_at w r)) h addr r m2 w2)
                       (\<lambda>(res, out', w). Ret (res, out1 @ out', w))) = Ret (res, out, w')"
      by (cases M) (auto simp: rtc_process_def M_def [symmetric])
    note m = m [unfolded M_def]
    show ?thesis
    proof (cases x)
      case (Inl e)
      with m t d Inr show ?thesis by (auto split: if_splits intro: unknown)
    next
      case (Inr m2)
      with m t d \<open>dec = Inr m1\<close> show ?thesis
        by (auto simp: rbind_Ret_iff intro: delivered)
    qed
  qed
qed

lemma rtc_process_keeps:
  assumes "rtc_process p be sc bm clk sched rtcp h addr r message w = Ret (res, out, w')"
  shows "same_core w w'"
  using assms
  by (cases rule: rtc_process_Ret)
    (auto dest!: decrypt_keeps replace_meta_keeps deliver_keeps intro: same_core_trans split: if_splits)

lemma handle_Rtc_Ret:
  assumes "handle_Rtc p be sc bm clk sched msg w = Ret (warned, out, w')"
  obtains (ignored) "\<not> warned" "out = []" "w' = w"
      "\<And>m a. msg = Rtc m a \<Longrightarrow> client_storage w a = None"
  | (unparsed) m a e where "msg = Rtc m a" "from_buf be m = Ret (Inl e)" "out = []" "w' = w"
      "warned = rtc_warns (Inl e)"
  | (processed) m a r h res where "msg = Rtc m a" "client_storage w a = Some r" "from_buf be m = Ret (Inr h)"
      "rtc_process p be sc bm clk sched (rtcp_like m) h a r m w = Ret (res, out, w')"
      "warned = rtc_warns res"
proof (cases "\<exists>m a r. msg = Rtc m a \<and> client_storage w a = Some r")
  case True
  then obtain m a r where msg: "msg = Rtc m a" "client_storage w a = Some r" by blast
  obtain hdr where "from_buf be m = Ret hdr"
    using from_buf_returns [of be m] by (auto simp: returns_iff)
  then show thesis
    using assms msg unparsed processed
    by (cases hdr) (auto simp: handle_Rtc_def rbind_Ret_iff)
next
  case False
  then show thesis
    using assms ignored by (auto simp: handle_Rtc_def split: WebRtcRequest.splits option.splits)
qed

lemma handle_Rtc_keeps:
  assumes "handle_Rtc p be sc bm clk sched msg w = Ret (warned, out, w')"
  shows "same_core w w'"
  using assms by (cases rule: handle_Rtc_Ret) (auto dest: rtc_process_keeps)

lemma same_core_sharing: "same_core w w' \<Longrightarrow> sharing_ok w' = sharing_ok w"
proof (rule sharing_frame)
  assume c: "same_core w w'"
  have l: "links = (\<lambda>(st, md, rc, sa, del, conn, no). (rc, del)) \<circ> core"
    by (rule ext) (simp add: links_def core_def)
  from c show "map links (heap w') = map links (heap w)"
    unfolding l list.map_comp [symmetric] same_core_def by simp
qed (simp add: same_core_def)

lemma same_core_client:
  assumes "same_core w w'" and "r < length (heap w)"
  shows "receivers (client_at w' r) = receivers (client_at w r)"
    and "is_deleted (client_at w' r) = is_deleted (client_at w r)"
    and "sender_addr (client_at w' r) = sender_addr (client_at w r)"
    and "media (client_at w' r) = media (client_at w r)"
proof -
  have "core (client_at w' r) = core (client_at w r)"
    using assms unfolding same_core_def client_at_def by (metis length_map nth_map)
  then show "receivers (client_at w' r) = receivers (client_at w r)"
    "is_deleted (client_at w' r) = is_deleted (client_at w r)"
    "sender_addr (client_at w' r) = sender_addr (client_at w r)"
    "media (client_at w' r) = media (client_at w r)"
    by (simp_all add: core_def)
qed

lemma same_core_length: "same_core w w' \<Longrightarrow> length (heap w') = length (heap w)"
  unfolding same_core_def by (metis length_map)

lemma same_core_storage: "same_core w w' \<Longrightarrow> client_storage w' = client_storage w"
  by (simp add: same_core_def)

subsection \<open>What is sent, and to whom\<close>

lemma set_live_receivers:
  "(a, x) \<in> set (live_receivers w r sched) \<longleftrightarrow>
     a \<in> set sched \<and> receivers (client_at w r) a = Some x \<and> \<not> is_deleted (client_at w x)"
  by (force simp: live_receivers_def map_filter_def split: option.splits if_splits)

lemma live_receivers_cong:
  assumes "receivers (client_at w' r) = receivers (client_at w r)"
    and "\<And>a x. receivers (client_at w r) a = Some x \<Longrightarrow> is_deleted (client_at w' x) = is_deleted (client_at w x)"
  shows "live_receivers w' r sched = live_receivers w r sched"
  unfolding live_receivers_def map_filter_def
  by (intro map_cong filter_cong) (auto simp: assms split: option.splits)

lemma distinct_live_receivers:
  assumes "distinct sched" and "sharing_ok w" and "r < length (heap w)"
  shows "distinct (map snd (live_receivers w r sched))" and "distinct (map fst (live_receivers w r sched))"
proof -
  let ?l = "live_receivers w r sched"
  have one: "a = b" if "(a, x) \<in> set ?l" "(b, x) \<in> set ?l" for a b x
  proof (rule sharing_okD(2) [OF assms(2)])
    show "occurs w a x" "occurs w b x"
      using that assms(3) by (auto simp: set_live_receivers occurs_def)
  qed
  have f: "map fst ?l = filter (\<lambda>a. \<exists>x. receivers (client_at w r) a = Some x \<and> \<not> is_deleted (client_at w x)) sched"
    by (induction sched) (auto simp: live_receivers_def map_filter_simps split: option.splits)
  show d: "distinct (map fst ?l)"
    unfolding f using assms(1) by simp
  show "distinct (map snd ?l)"
    unfolding distinct_map
  proof
    show "distinct ?l" using d by (simp add: distinct_map)
    show "inj_on snd (set ?l)" using one by (auto simp: inj_on_def)
  qed
qed

lemma replace_meta_out:
  "replace_meta p be clk h codec addr r message w = Ret (res, out, w') \<Longrightarrow> ToUdp q \<notin> set out"
  by (auto simp: replace_meta_def rust_iffs split: option.splits prod.splits)

lemma deliver_out:
  assumes "deliver sc bm sched rtcp codec h addr r message w = Ret (res, out, w')" and "y \<in> set out"
  shows "(\<exists>m a x. y = ToUdp (Rtc m a) \<and> receivers (client_at w r) a = Some x \<and> \<not> is_deleted (client_at w x)) \<or>
    (\<exists>m a x. y = ToUdp (Rtc m a) \<and> rtcp \<and> sender_addr (client_at w r) = Some a \<and> client_storage w a = Some x)"
proof (cases "rtcp \<and> receivers (client_at w r) = Map.empty")
  case True
  then show ?thesis
    using assms by (auto simp: deliver_def rtcp_to_sender_def Let_def
        split: option.splits prod.splits sum.splits)
next
  case False
  then have "fan_out (forward_to sc bm rtcp codec h addr message) (live_receivers w r sched) w = Ret (res, out, w')"
    using assms(1) by (simp add: deliver_def split: if_splits)
  from fwd.fan_out_addressed [OF this assms(2)] show ?thesis
    by (force simp: set_live_receivers)
qed

lemma deliver_registered:
  assumes "sharing_ok w" and "r < length (heap w)"
    and "deliver sc bm sched rtcp codec h addr r message w = Ret (res, out, w')" and "ToUdp q \<in> set out"
  shows "\<exists>m a. q = Rtc m a \<and> client_storage w a \<noteq> None"
  using deliver_out [OF assms(3,4)]
proof (elim disjE)
  assume "\<exists>m a x. ToUdp q = ToUdp (Rtc m a) \<and> receivers (client_at w r) a = Some x \<and> \<not> is_deleted (client_at w x)"
  then obtain m a x where *: "q = Rtc m a" "receivers (client_at w r) a = Some x" "\<not> is_deleted (client_at w x)"
    by auto
  then have "occurs w a x"
    using assms(2) by (auto simp: occurs_def)
  with * show ?thesis
    using sharing_okD(4) [OF assms(1), of a x] by simp
qed auto

text \<open>The state in which a packet is delivered, and what was sent before.\<close>

lemma before_delivery:
  assumes "decrypt_package sc rtcp h addr r message w = (Inr m1, w1)"
    and "(if rtcp then Ret (Inr m1, [], w1) else replace_meta p be clk h codec addr r m1 w1) = Ret (Inr m2, out1, w2)"
  shows "same_core w w2" and "ToUdp q \<notin> set out1"
proof -
  have "same_core w1 w2 \<and> ToUdp q \<notin> set out1"
  proof (cases rtcp)
    case False
    with assms(2) show ?thesis by (auto dest: replace_meta_keeps replace_meta_out [where q = q])
  qed (use assms(2) in simp)
  then show "same_core w w2" "ToUdp q \<notin> set out1"
    using same_core_trans [OF decrypt_keeps [OF assms(1)]] by simp_all
qed

text \<open>Every datagram of the media path goes to a registered client.\<close>

lemma rtc_process_registered:
  assumes "sharing_ok w" and "client_storage w a = Some r"
    and "rtc_process p be sc bm clk sched rtcp h a r m w = Ret (res, out, w')" and "ToUdp q \<in> set out"
  shows "\<exists>m a. q = Rtc m a \<and> client_storage w a \<noteq> None"
  using assms(3)
proof (cases rule: rtc_process_Ret)
  case (refused e)
  with assms(4) show ?thesis by simp
next
  case (unknown e m1 w1)
  with assms(4) show ?thesis using replace_meta_out [OF unknown(3)] by blast
next
  case (delivered m1 w1 m2 out1 w2 out2)
  note c = before_delivery(1) [OF delivered(1,2)]
  have "ToUdp q \<in> set out2"
    using assms(4) delivered(4) before_delivery(2) [OF delivered(1,2), of q] by simp
  then show ?thesis
    using deliver_registered [OF _ _ delivered(3)] assms(1) storage_valid [OF assms(1,2)]
      same_core_sharing [OF c] same_core_length [OF c] same_core_storage [OF c] by simp
qed

lemma rtc_sends_registered:
  assumes "sharing_ok w" and "handle_Rtc p be sc bm clk sched msg w = Ret (warned, out, w')"
    and "ToUdp q \<in> set out"
  shows "\<exists>m a. q = Rtc m a \<and> client_storage w a \<noteq> None"
  using assms(2)
proof (cases rule: handle_Rtc_Ret)
  case (processed m a r h res)
  show ?thesis
    by (rule rtc_process_registered [OF assms(1) processed(2,4) assms(3)])
next
  case ignored
  show ?thesis using assms(3) unfolding ignored(2) by simp
next
  case (unparsed m a e)
  show ?thesis using assms(3) unfolding unparsed(3) by simp
qed

subsection \<open>Forwarding to every receiver\<close>

text \<open>The payload type is never rewritten: the rewriting asks for RTCP, the codec for RTP.\<close>

lemma prepare_payload_unchanged:
  "prepare_payload bm rtcp (codec_n_frequency bm rtcp h c) h' recv message = Ret message"
  by (simp add: prepare_payload_def codec_n_frequency_def)

definition encrypted :: "'s srtp_crate \<Rightarrow> bool \<Rightarrow> bytes \<Rightarrow> ('s, 'b) Client \<Rightarrow> bytes option" where
  "encrypted sc rtcp message c =
     (case srtp c of
        None \<Rightarrow> None
      | Some t \<Rightarrow>
          (case fst ((if rtcp then srtp_protect_rtcp sc else srtp_protect sc) (server t) message) of
             Inl e \<Rightarrow> None | Inr m \<Rightarrow> Some m))"

lemma forward_to_encrypted:
  assumes "encrypted sc rtcp message (client_at w recv) = Some m"
  shows "\<exists>t'. forward_to sc bm rtcp (codec_n_frequency bm rtcp h c) h addr message (a, recv) w =
    Ret (Inr (), [ToUdp (Rtc m a)], update_client recv (\<lambda>c. c\<lparr>srtp := Some t'\<rparr>) w)"
proof -
  obtain t where t: "srtp (client_at w recv) = Some t"
    using assms by (cases "srtp (client_at w recv)") (auto simp: encrypted_def)
  obtain s' where "(if rtcp then srtp_protect_rtcp sc else srtp_protect sc) (server t) message = (Inr m, s')"
    using assms by (cases "(if rtcp then srtp_protect_rtcp sc else srtp_protect sc) (server t) message")
      (auto simp: encrypted_def t split: sum.splits)
  then have "(if rtcp then protect_rtcp sc t message else protect sc t message) = (Inr m, t\<lparr>server := s'\<rparr>)"
    by (simp add: protect_def protect_rtcp_def split: if_splits)
  then show ?thesis
    by (auto simp: forward_to_def t Let_def prepare_payload_unchanged)
qed

lemma fan_out_exact:
  assumes "distinct (map snd xs)"
    and "\<forall>(a, x) \<in> set xs. encrypted sc rtcp message (client_at w x) = Some (enc x)"
  shows "\<exists>w'. fan_out (forward_to sc bm rtcp (codec_n_frequency bm rtcp h c) h addr message) xs w =
    Ret (Inr (), map (\<lambda>(a, x). ToUdp (Rtc (enc x) a)) xs, w')"
  using assms
proof (induction xs arbitrary: w)
  case Nil
  then show ?case by simp
next
  case (Cons y xs)
  obtain a x where y: "y = (a, x)" by (cases y)
  from Cons.prems(2) have "encrypted sc rtcp message (client_at w x) = Some (enc x)"
    by (simp add: y)
  from forward_to_encrypted [OF this] obtain t' where
    f: "forward_to sc bm rtcp (codec_n_frequency bm rtcp h c) h addr message (a, x) w =
      Ret (Inr (), [ToUdp (Rtc (enc x) a)], update_client x (\<lambda>c. c\<lparr>srtp := Some t'\<rparr>) w)"
    by blast
  have "\<forall>(b, z) \<in> set xs. encrypted sc rtcp message
      (client_at (update_client x (\<lambda>c. c\<lparr>srtp := Some t'\<rparr>) w) z) = Some (enc z)"
  proof (intro ballI, clarify)
    fix b z assume z: "(b, z) \<in> set xs"
    then have "z \<noteq> x"
      using Cons.prems(1) by (force simp: y)
    then show "encrypted sc rtcp message (client_at (update_client x (\<lambda>c. c\<lparr>srtp := Some t'\<rparr>) w) z) = Some (enc z)"
      using Cons.prems(2) z by auto
  qed
  from Cons.IH [OF _ this] Cons.prems(1) show ?case
    by (auto simp: y f)
qed

subsection \<open>The numbering of a stream\<close>

lemma advance_runtime_Release:
  assumes "prev_time_diff rt \<le> elapsed now (started_time rt)"
  shows "\<exists>d e rt'. advance_runtime Release now h rt = Ret (d, e, rt')"
  using assms by (simp add: advance_runtime_def add_ovf_def duration_sub_def Let_def)

lemma calculate_jitter_Release: "\<exists>out st. calculate_jitter Release clk addr f d e stats = Ret (out, st)"
  by (auto simp: calculate_jitter_def add_ovf_def sub_ovf_def mul_ovf_def Let_def)

lemma replace_meta_Release:
  assumes "network_endian be" and "8 \<le> length message"
    and "rtp_runtime_storage (client_at w r) f = Some rt"
    and "advance_runtime Release (clk 0) h rt = Ret (d, e, rt')"
  shows "\<exists>out g. replace_meta Release be clk h (Some (name, f)) addr r message w =
    Ret (Inr (take 2 message @ bytes16 (server_sequence rt') @ bytes32 (server_ts rt') @ drop 8 message),
         map ToJitter out, update_client r g w) \<and> (\<forall>c. srtp (g c) = srtp c)"
proof -
  obtain out st where "calculate_jitter Release clk addr f d e (jitter_stats (client_at w r)) = Ret (out, st)"
    using calculate_jitter_Release by blast
  then show ?thesis
    using assms by (auto simp: replace_meta_def replace_sequence_n_timestamp_eq)
qed

text \<open>The datagrams among the outputs.\<close>

definition datagrams :: "rtc_out list \<Rightarrow> WebRtcRequest list" where
  "datagrams out = List.map_filter (\<lambda>y. case y of ToUdp q \<Rightarrow> Some q | ToJitter _ \<Rightarrow> None) out"

lemma datagrams_simps [simp]:
  "datagrams [] = []" "datagrams (ToUdp q # ys) = q # datagrams ys" "datagrams (ToJitter j # ys) = datagrams ys"
  "datagrams (xs @ ys) = datagrams xs @ datagrams ys"
  by (simp_all add: datagrams_def map_filter_def)

lemma datagrams_map [simp]: "datagrams (map ToJitter js) = []" "datagrams (map (\<lambda>x. ToUdp (g x)) xs) = map g xs"
  by (induction js, simp_all) (induction xs, simp_all)

lemma datagrams_forwarded: "datagrams (map (\<lambda>(a, x). ToUdp (Rtc (f x) a)) xs) = map (\<lambda>(a, x). Rtc (f x) a) xs"
  by (induction xs) auto

lemma decrypt_rtp:
  assumes "srtp (client_at w r) = Some t" and "srtp_unprotect sc (client t) message = (Inr plain, s')"
    and "payload h \<noteq> 111"
  shows "decrypt_package sc False h addr r message w =
    (Inr plain, update_client r (\<lambda>c. c\<lparr>srtp := Some (t\<lparr>client := s'\<rparr>)\<rparr>) w)"
  using assms by (simp add: decrypt_package_def unprotect_def)

lemma decrypt_rtcp:
  assumes "srtp (client_at w r) = Some t" and "srtp_unprotect_rtcp sc (client t) message = (Inr plain, s')"
  shows "decrypt_package sc True h addr r message w =
    (Inr plain, update_client r (\<lambda>c. c\<lparr>srtp := Some (t\<lparr>client := s'\<rparr>)\<rparr>) w)"
  using assms by (simp add: decrypt_package_def unprotect_rtcp_def)

lemma encrypted_after_decrypt:
  assumes "srtp (client_at w r) = Some t" and "r < length (heap w)"
  shows "encrypted sc rtcp m (client_at (update_client r (\<lambda>c. c\<lparr>srtp := Some (t\<lparr>client := s'\<rparr>)\<rparr>) w) x) =
    encrypted sc rtcp m (client_at w x)"
  using assms by (cases "x = r") (simp_all add: encrypted_def)

lemma encrypted_frame:
  assumes "\<And>c. srtp (g c) = srtp c"
  shows "encrypted sc rtcp m (client_at (update_client r g w) x) = encrypted sc rtcp m (client_at w x)"
  using assms by (simp add: client_at_update encrypted_def)

text \<open>Delivery in a state with the same core and the same ability to encrypt as \<open>w\<close>.\<close>

lemma deliver_exact:
  assumes "sharing_ok w" and "same_core w w2" and "r < length (heap w)"
    and "distinct sched" and "dom (receivers (client_at w r)) \<subseteq> set sched"
    and "\<And>x. encrypted sc False m (client_at w2 x) = encrypted sc False m (client_at w x)"
    and "\<forall>a x. receivers (client_at w r) a = Some x \<and> \<not> is_deleted (client_at w x) \<longrightarrow>
      encrypted sc False m (client_at w x) \<noteq> None"
  shows "\<exists>rs w'. distinct (map fst rs) \<and>
    set rs = {(a, x). receivers (client_at w r) a = Some x \<and> \<not> is_deleted (client_at w x)} \<and>
    deliver sc bm sched False (codec_n_frequency bm False h c) h addr r m w2 =
      Ret (Inr (), map (\<lambda>(a, x). ToUdp (Rtc (the (encrypted sc False m (client_at w x))) a)) rs, w')"
proof -
  let ?rs = "live_receivers w r sched"
  have "live_receivers w2 r sched = ?rs"
  proof (rule live_receivers_cong)
    show "receivers (client_at w2 r) = receivers (client_at w r)"
      by (rule same_core_client [OF assms(2,3)])
    show "is_deleted (client_at w2 x) = is_deleted (client_at w x)"
      if "receivers (client_at w r) a = Some x" for a x
    proof (rule same_core_client [OF assms(2)])
      have "occurs w a x"
        using that assms(3) by (auto simp: occurs_def)
      then show "x < length (heap w)"
        by (rule sharing_okD(1) [OF assms(1)])
    qed
  qed
  moreover have "\<forall>(a, x) \<in> set ?rs. encrypted sc False m (client_at w2 x) =
      Some (the (encrypted sc False m (client_at w x)))"
    using assms(6,7) by (auto simp: set_live_receivers)
  ultimately obtain w' where
    "deliver sc bm sched False (codec_n_frequency bm False h c) h addr r m w2 =
      Ret (Inr (), map (\<lambda>(a, x). ToUdp (Rtc (the (encrypted sc False m (client_at w x))) a)) ?rs, w')"
    using fan_out_exact [of ?rs sc False m w2 _ bm h c addr] distinct_live_receivers(1) [OF assms(4,1,3)]
    by (fastforce simp: deliver_def)
  moreover have "set ?rs = {(a, x). receivers (client_at w r) a = Some x \<and> \<not> is_deleted (client_at w x)}"
    using assms(5) by (auto simp: set_live_receivers)
  ultimately show ?thesis
    using distinct_live_receivers(2) [OF assms(4,1,3)] by blast
qed

subsection \<open>A concrete state\<close>

text \<open>A sender at \<open>1:1\<close> that announced VP8, and a viewer at \<open>2:2\<close>; both have sessions.\<close>

definition sessions0 :: "nat SrtpTransport" where
  "sessions0 = \<lparr>client = 0, server = 0\<rparr>"

definition vp8_media :: "((string \<rightharpoonup> u8) \<times> (u8 \<rightharpoonup> string)) MediaList" where
  "vp8_media = MediaList_insert two_maps (MediaList_default two_maps) 96 ''VP8'' 90000"

definition live_world :: "(nat, (string \<rightharpoonup> u8) \<times> (u8 \<rightharpoonup> string)) Shared" where
  "live_world =
     \<lparr>heap = [(Client_default 0)\<lparr>state := Connected, srtp := Some sessions0, media := Some vp8_media,
                rtp_runtime_storage := [90000 \<mapsto> ClientRtpRuntime_default 1000 100 0],
                receivers := [addr2 \<mapsto> 1], sender_addr := Some addr1\<rparr>,
              (Client_default 0)\<lparr>state := Connected, srtp := Some sessions0, sender_addr := Some addr1\<rparr>],
      client_storage = [addr1 \<mapsto> 0, addr2 \<mapsto> 1]\<rparr>"

definition vp8_packet :: bytes where
  "vp8_packet = [128, 96, 0, 5, 0, 0, 0, 9, 0, 0, 0, 1, 7, 7]"

definition rtcp_packet :: bytes where
  "rtcp_packet = [128, 201, 0, 1, 0, 0, 0, 9, 0, 0, 0, 1, 7, 7]"

lemma live_world_client [simp]:
  "client_at live_world 0 = (Client_default 0)\<lparr>state := Connected, srtp := Some sessions0,
     media := Some vp8_media, rtp_runtime_storage := [90000 \<mapsto> ClientRtpRuntime_default 1000 100 0],
     receivers := [addr2 \<mapsto> 1], sender_addr := Some addr1\<rparr>"
  "client_at live_world (Suc 0) = (Client_default 0)\<lparr>state := Connected, srtp := Some sessions0, sender_addr := Some addr1\<rparr>"
  "client_storage live_world = [addr1 \<mapsto> 0, addr2 \<mapsto> 1]" "length (heap live_world) = 2"
  by (simp_all add: live_world_def client_at_def)

lemma live_world_sharing: "sharing_ok live_world"
proof -
  have "occurs live_world a r \<longleftrightarrow> a = addr1 \<and> r = 0 \<or> a = addr2 \<and> r = 1" for a r
  proof -
    have "(\<exists>q < (2::nat). P q) \<longleftrightarrow> P 0 \<or> P (Suc 0)" for P :: "nat \<Rightarrow> bool"
      by (metis One_nat_def less_2_cases_iff)
    then show ?thesis
      by (auto simp: occurs_def split: if_splits)
  qed
  then show ?thesis
    by (auto simp: sharing_ok_def split: if_splits)
qed

lemma vp8_packet_rtp: "rtp_like vp8_packet" "\<not> rtcp_like vp8_packet"
  by (simp_all add: rtp_like_def rtcp_like_def vp8_packet_def drop_bit_eq_div)

lemma vp8_packet_header:
  "from_buf NetworkEndian vp8_packet = Ret (Inr \<lparr>marker = False, payload = 96, sequence = 5, timestamp = 9\<rparr>)"
  using vp8_packet_rtp
  by (simp add: from_buf_eq) (simp add: vp8_packet_def be16_def be32_def drop_bit_eq_div)

subsection \<open>Streams of packets\<close>

text \<open>The numbers the server gives to the packets of one stream, each with its arrival time.\<close>

fun run_stream ::
    "profile \<Rightarrow> ClientRtpRuntime \<Rightarrow> (time \<times> RtpHeader) list \<Rightarrow> ((u16 \<times> u32) list \<times> ClientRtpRuntime) rust" where
  "run_stream p rt [] = Ret ([], rt)"
| "run_stream p rt ((now, h) # hs) =
     rbind (advance_runtime p now h rt) (\<lambda>(d, e, rt').
     rbind (run_stream p rt' hs) (\<lambda>(ns, rt'').
       Ret ((server_sequence rt', server_ts rt') # ns, rt'')))"

text \<open>Arrival times never go back, and never before the last packet.\<close>

definition clock_ok :: "ClientRtpRuntime \<Rightarrow> (time \<times> RtpHeader) list \<Rightarrow> bool" where
  "clock_ok rt hs \<longleftrightarrow> sorted (map fst hs) \<and>
     (\<forall>(now, h) \<in> set hs. prev_time_diff rt \<le> elapsed now (started_time rt))"

text \<open>Numbers and time stamps that start at \<open>sq\<close> and \<open>ts\<close>, never fall, and are never 0.\<close>

fun ascending :: "u16 \<Rightarrow> u32 \<Rightarrow> (time \<times> RtpHeader) list \<Rightarrow> bool" where
  "ascending sq ts [] = True"
| "ascending sq ts ((now, h) # hs) \<longleftrightarrow>
     sq \<le> sequence h \<and> ts \<le> timestamp h \<and> sequence h \<noteq> 0 \<and> timestamp h \<noteq> 0 \<and>
     ascending (sequence h) (timestamp h) hs"

lemma advance_ascending:
  assumes "client_sequence rt = Some sq" and "client_ts rt = Some ts"
    and "sq \<le> sequence h" and "ts \<le> timestamp h" and "sequence h \<noteq> 0" and "timestamp h \<noteq> 0"
    and "prev_time_diff rt \<le> elapsed now (started_time rt)"
  shows "\<exists>d e. advance_runtime Release now h rt = Ret (d, e,
    rt\<lparr>client_sequence := Some (sequence h), client_ts := Some (timestamp h),
       server_sequence := sequence h + (server_sequence rt - sq),
       server_ts := timestamp h + (server_ts rt - ts),
       prev_time_diff := elapsed now (started_time rt)\<rparr>)"
  using assms by (simp add: advance_runtime_def saturating_sub_def add_ovf_def duration_sub_def Let_def)

lemma clock_ok_Cons:
  assumes "clock_ok rt ((now, h) # hs)"
    and "started_time rt' = started_time rt" and "prev_time_diff rt' = elapsed now (started_time rt)"
  shows "prev_time_diff rt \<le> elapsed now (started_time rt) \<and> clock_ok rt' hs"
  using assms by (force simp: clock_ok_def elapsed_def)

lemma advance_zero_sequence:
  assumes "client_sequence rt = Some sq" and "sequence h = 0"
    and "prev_time_diff rt \<le> elapsed now (started_time rt)"
  shows "\<exists>d e rt'. advance_runtime Release now h rt = Ret (d, e, rt') \<and>
    client_sequence rt' = None \<and> server_sequence rt' = server_sequence rt \<and>
    started_time rt' = started_time rt \<and> prev_time_diff rt' = elapsed now (started_time rt)"
proof -
  have "saturating_sub 0 sq = 0"
    by (simp add: saturating_sub_def)
  then show ?thesis
    using assms by (simp add: advance_runtime_def add_ovf_def duration_sub_def Let_def)
qed

lemma advance_no_sequence:
  assumes "client_sequence rt = None" and "prev_time_diff rt \<le> elapsed now (started_time rt)"
  shows "\<exists>d e rt'. advance_runtime Release now h rt = Ret (d, e, rt') \<and>
    server_sequence rt' = server_sequence rt"
  using assms by (simp add: advance_runtime_def add_ovf_def duration_sub_def Let_def)

subsection \<open>One packet, end to end\<close>

lemma rtp_forwarded:
  assumes "network_endian be" and "sharing_ok w" and "client_storage w addr = Some r"
    and "from_buf be message = Ret (Inr h)" and "\<not> rtcp_like message" and "payload h \<noteq> 111"
    and "srtp (client_at w r) = Some t"
    and "srtp_unprotect sc (client t) message = (Inr plain, s')" and "8 \<le> length plain"
    and "codec_n_frequency bm False h (client_at w r) = Some (name, f)"
    and "rtp_runtime_storage (client_at w r) f = Some rt"
    and "advance_runtime Release (clk 0) h rt = Ret (d, e, rt')"
    and "m = take 2 plain @ bytes16 (server_sequence rt') @ bytes32 (server_ts rt') @ drop 8 plain"
    and "\<forall>a x. receivers (client_at w r) a = Some x \<and> \<not> is_deleted (client_at w x) \<longrightarrow>
      encrypted sc False m (client_at w x) \<noteq> None"
    and "distinct sched" and "dom (receivers (client_at w r)) \<subseteq> set sched"
  shows "\<exists>rs out w'. handle_Rtc Release be sc bm clk sched (Rtc message addr) w = Ret (False, out, w') \<and>
    distinct (map fst rs) \<and>
    set rs = {(a, x). receivers (client_at w r) a = Some x \<and> \<not> is_deleted (client_at w x)} \<and>
    datagrams out = map (\<lambda>(a, x). Rtc (the (encrypted sc False m (client_at w x))) a) rs"
proof -
  let ?w1 = "update_client r (\<lambda>c. c\<lparr>srtp := Some (t\<lparr>client := s'\<rparr>)\<rparr>) w"
  have r: "r < length (heap w)"
    using assms(2,3) by (rule storage_valid)
  have dec: "decrypt_package sc False h addr r message w = (Inr plain, ?w1)"
    using assms(6-8) by (intro decrypt_rtp)
  have "rtp_runtime_storage (client_at ?w1 r) f = Some rt"
    using r assms(11) by simp
  from replace_meta_Release [where clk = clk, OF assms(1,9) this assms(12)] assms(13) obtain out1 g where
    meta: "replace_meta Release be clk h (Some (name, f)) addr r plain ?w1 =
      Ret (Inr m, map ToJitter out1, update_client r g ?w1)" and g: "\<And>c. srtp (g c) = srtp c"
    by metis
  let ?w2 = "update_client r g ?w1"
  have "same_core w ?w2"
    using decrypt_keeps [OF dec] replace_meta_keeps [OF meta] by (rule same_core_trans)
  from deliver_exact [OF assms(2) this r assms(15,16) _ assms(14), of bm h "client_at w r" addr]
  obtain rs w' where rs: "distinct (map fst rs)"
    "set rs = {(a, x). receivers (client_at w r) a = Some x \<and> \<not> is_deleted (client_at w x)}"
    and del: "deliver sc bm sched False (Some (name, f)) h addr r m ?w2 =
      Ret (Inr (), map (\<lambda>(a, x). ToUdp (Rtc (the (encrypted sc False m (client_at w x))) a)) rs, w')"
    using encrypted_frame [of g sc False m r ?w1] g encrypted_after_decrypt [OF assms(7) r, of sc False m s']
    by (auto simp: assms(10))
  have "handle_Rtc Release be sc bm clk sched (Rtc message addr) w =
      Ret (False, map ToJitter out1 @ map (\<lambda>(a, x). ToUdp (Rtc (the (encrypted sc False m (client_at w x))) a)) rs, w')"
    using assms(3,4,5) by (simp add: handle_Rtc_def rtc_process_def dec meta del assms(10) rtc_warns_def)
  then show ?thesis
    using rs by (auto simp: datagrams_forwarded)
qed

section \<open>Properties\<close>

text \<open>
  C11. An RTP packet reaches every receiver exactly once. The packet comes from a registered client
  with sessions, it decrypts, its codec and runtime are known, and every receiver that is not deleted
  can encrypt. Then the release build, whatever order the parallel iterator takes, sends one datagram
  to each of those receivers and to nobody else: the decrypted packet with the server's sequence
  number and time stamp, encrypted for that receiver. Its payload type is the sender's.
\<close>

theorem rtp_reaches_every_receiver:
  assumes "network_endian be" and "sharing_ok w" and "client_storage w addr = Some r"
    and "from_buf be message = Ret (Inr h)" and "\<not> rtcp_like message" and "payload h \<noteq> 111"
    and "srtp (client_at w r) = Some t"
    and "srtp_unprotect sc (client t) message = (Inr plain, s')" and "8 \<le> length plain"
    and "codec_n_frequency bm False h (client_at w r) = Some (name, f)"
    and "rtp_runtime_storage (client_at w r) f = Some rt"
    and "advance_runtime Release (clk 0) h rt = Ret (d, e, rt')"
    and "m = take 2 plain @ bytes16 (server_sequence rt') @ bytes32 (server_ts rt') @ drop 8 plain"
    and "\<forall>a x. receivers (client_at w r) a = Some x \<and> \<not> is_deleted (client_at w x) \<longrightarrow>
      encrypted sc False m (client_at w x) \<noteq> None"
    and "distinct sched" and "dom (receivers (client_at w r)) \<subseteq> set sched"
  shows "\<exists>rs out w'. handle_Rtc Release be sc bm clk sched (Rtc message addr) w = Ret (False, out, w') \<and>
    distinct (map fst rs) \<and>
    set rs = {(a, x). receivers (client_at w r) a = Some x \<and> \<not> is_deleted (client_at w x)} \<and>
    datagrams out = map (\<lambda>(a, x). Rtc (the (encrypted sc False m (client_at w x))) a) rs"
  using assms by (rule rtp_forwarded)

theorem rtp_reaches_every_receiver_witness:
  "\<exists>out w'. handle_Rtc Release NetworkEndian counting_crate two_maps (\<lambda>_. 0) [addr2]
      (Rtc vp8_packet addr1) live_world = Ret (False, out, w') \<and>
    set (datagrams out) = {Rtc [128, 96, 0, 100, 0, 0, 3, 232, 0, 0, 0, 1, 7, 7] addr2}"
proof -
  let ?h = "\<lparr>marker = False, payload = 96, sequence = 5, timestamp = 9\<rparr>"
  let ?rt = "ClientRtpRuntime_default 1000 100 0"
  let ?rt' = "?rt\<lparr>client_sequence := Some 5, client_ts := Some 9\<rparr>"
  let ?m = "take 2 vp8_packet @ bytes16 (server_sequence ?rt') @ bytes32 (server_ts ?rt') @ drop 8 vp8_packet"
  have adv: "advance_runtime Release ((\<lambda>_. 0) (0::nat)) ?h ?rt = Ret (0, 0, ?rt')"
    by (simp add: advance_runtime_def ClientRtpRuntime_default_def add_ovf_def duration_sub_def elapsed_def)
  have codec: "codec_n_frequency two_maps False ?h (client_at live_world 0) = Some (''VP8'', 90000)"
    by (simp add: codec_n_frequency_def vp8_media_def get_name_def get_frequency_def MediaList_insert_def
        MediaList_default_def two_maps_def)
  have enc: "encrypted counting_crate False x (client_at live_world (Suc 0)) = Some x" for x
    by (simp add: encrypted_def)
  have m: "?m = [128, 96, 0, 100, 0, 0, 3, 232, 0, 0, 0, 1, 7, 7]"
    by (simp add: vp8_packet_def ClientRtpRuntime_default_def bytes16_def bytes32_def)
  have len: "8 \<le> length vp8_packet"
    by (simp add: vp8_packet_def)
  have reg: "client_storage live_world addr1 = Some 0"
    and unp: "srtp_unprotect counting_crate (client sessions0) vp8_packet = (Inr vp8_packet, 1)"
    by (simp_all add: sessions0_def)
  have ready: "\<forall>a x. receivers (client_at live_world 0) a = Some x \<and> \<not> is_deleted (client_at live_world x) \<longrightarrow>
      encrypted counting_crate False ?m (client_at live_world x) \<noteq> None"
    using enc by (simp split: if_splits)
  obtain rs out w' where res: "handle_Rtc Release NetworkEndian counting_crate two_maps (\<lambda>_. 0) [addr2]
      (Rtc vp8_packet addr1) live_world = Ret (False, out, w')"
    and rs: "set rs = {(a, x). receivers (client_at live_world 0) a = Some x \<and> \<not> is_deleted (client_at live_world x)}"
    and out: "datagrams out = map (\<lambda>(a, x). Rtc (the (encrypted counting_crate False ?m (client_at live_world x))) a) rs"
    using rtp_reaches_every_receiver [where clk = "\<lambda>_. 0", OF NetworkEndian_endian live_world_sharing reg
        vp8_packet_header vp8_packet_rtp(2) _ _ unp len codec _ adv refl ready, of "[addr2]"]
    by (auto split: if_splits)
  have "set rs = {(addr2, Suc 0)}"
    unfolding rs by (auto split: if_splits)
  then have "set (datagrams out) = {Rtc ?m addr2}"
    unfolding out using enc by simp
  then show ?thesis
    using res unfolding m by blast
qed

text \<open>
  C25. RTCP feedback reaches the sender: the RTCP packet of a registered client without receivers is
  decrypted with the client's session, encrypted with the outgoing session of the sender it follows,
  and sent to that sender alone. No clock is read and the profile does not matter.
\<close>

theorem rtcp_feedback_reaches_sender:
  assumes "sharing_ok w" and "client_storage w addr = Some r" and "client_storage w p = Some q"
    and "rtcp_like message" and "receivers (client_at w r) = Map.empty"
    and "sender_addr (client_at w r) = Some p"
    and "srtp (client_at w r) = Some t" and "srtp_unprotect_rtcp sc (client t) message = (Inr plain, s')"
    and "encrypted sc True plain (client_at w q) = Some m"
  shows "\<exists>w'. handle_Rtc pr be sc bm clk sched (Rtc message addr) w = Ret (False, [ToUdp (Rtc m p)], w')"
proof -
  let ?w1 = "update_client r (\<lambda>c. c\<lparr>srtp := Some (t\<lparr>client := s'\<rparr>)\<rparr>) w"
  have r: "r < length (heap w)"
    using assms(1,2) by (rule storage_valid)
  obtain h where h: "from_buf be message = Ret (Inr h)"
    using assms(4) by (auto simp: from_buf_def rtcp_like_def rtp_like_def)
  have dec: "decrypt_package sc True h addr r message w = (Inr plain, ?w1)"
    using assms(7,8) by (rule decrypt_rtcp)
  have "encrypted sc True plain (client_at ?w1 q) = Some m"
    using encrypted_after_decrypt [OF assms(7) r] assms(9) by simp
  then obtain tq s2 where tq: "srtp (client_at ?w1 q) = Some tq" "srtp_protect_rtcp sc (server tq) plain = (Inr m, s2)"
    by (cases "srtp (client_at ?w1 q)"; cases "srtp_protect_rtcp sc (server (the (srtp (client_at ?w1 q)))) plain")
      (auto simp: encrypted_def split: sum.splits)
  have "\<exists>w'. rtcp_to_sender sc r plain ?w1 = (Inr (), [ToUdp (Rtc m p)], w')"
    using r assms(3,6) tq by (simp add: rtcp_to_sender_def protect_rtcp_def)
  then show ?thesis
    using assms(2,4,5) r
    by (auto simp: handle_Rtc_def h rtc_process_def dec deliver_def rtc_warns_def)
qed

theorem rtcp_feedback_reaches_sender_witness:
  "\<exists>w'. handle_Rtc Debug NetworkEndian counting_crate two_maps (\<lambda>_. 0) [] (Rtc rtcp_packet addr2) live_world =
    Ret (False, [ToUdp (Rtc rtcp_packet addr1)], w')"
proof -
  have "rtcp_like rtcp_packet"
    by (simp add: rtcp_like_def rtp_like_def rtcp_packet_def drop_bit_eq_div)
  then show ?thesis
    using rtcp_feedback_reaches_sender [OF live_world_sharing, of addr2 1 addr1 0 rtcp_packet sessions0
        counting_crate rtcp_packet 1 rtcp_packet]
    by (simp add: encrypted_def sessions0_def)
qed

text \<open>
  C28. The payload type of a forwarded packet is never adapted to the receiver: what a receiver is
  sent is exactly what its session encrypted, whatever media it announced. The rewriting is only tried
  for RTCP, and the codec it needs is only looked up for RTP.
\<close>

theorem payload_type_never_adapted:
  assumes "codec = codec_n_frequency bm rtcp h (client_at w r)"
    and "forward_to sc bm rtcp codec h addr message (a, x) w1 = Ret (res, out, w2)"
  shows "out = (case encrypted sc rtcp message (client_at w1 x) of Some m \<Rightarrow> [ToUdp (Rtc m a)] | None \<Rightarrow> [])"
proof (cases "encrypted sc rtcp message (client_at w1 x)")
  case (Some m)
  from forward_to_encrypted [OF this, of bm h "client_at w r" addr a] show ?thesis
    using assms by (auto simp: Some)
next
  case None
  have "out = []"
  proof (cases "srtp (client_at w1 x)")
    case (Some t)
    with None assms(2) show ?thesis
      by (auto simp: encrypted_def forward_to_def Let_def protect_def protect_rtcp_def
          split: sum.splits prod.splits if_splits)
  qed (use assms(2) in \<open>simp add: forward_to_def\<close>)
  then show ?thesis by (simp add: None)
qed

theorem payload_type_never_adapted_witness:
  "\<exists>res out w2. forward_to counting_crate two_maps True
      (codec_n_frequency two_maps True \<lparr>marker = False, payload = 73, sequence = 1, timestamp = 9\<rparr> (client_at live_world 0))
      \<lparr>marker = False, payload = 73, sequence = 1, timestamp = 9\<rparr> addr1 rtcp_packet (addr2, 1) live_world = Ret (res, out, w2) \<and>
    out = [ToUdp (Rtc rtcp_packet addr2)]"
proof -
  let ?h = "\<lparr>marker = False, payload = 73, sequence = 1, timestamp = 9\<rparr>"
  let ?c = "codec_n_frequency two_maps True ?h (client_at live_world 0)"
  have "\<exists>res out w2. forward_to counting_crate two_maps True ?c ?h addr1 rtcp_packet (addr2, 1) live_world = Ret (res, out, w2)"
    by (simp add: forward_to_def protect_rtcp_def prepare_payload_unchanged)
  then obtain res out w2 where
    f: "forward_to counting_crate two_maps True ?c ?h addr1 rtcp_packet (addr2, 1) live_world = Ret (res, out, w2)"
    by blast
  have "out = [ToUdp (Rtc rtcp_packet addr2)]"
    using payload_type_never_adapted [OF refl f] by (simp add: encrypted_def)
  with f show ?thesis by blast
qed

text \<open>
  C26. As long as a client's sequence numbers and time stamps do not fall and are not 0, the server's
  numbering of the stream is the client's shifted by a constant: every packet gets the client's number
  plus the offset the stream had before it, modulo \<open>2^16\<close>, and the same for the time stamp, modulo
  \<open>2^32\<close>. No packet is refused.
\<close>

theorem stream_numbering_is_translation:
  assumes "client_sequence rt = Some sq" and "client_ts rt = Some ts"
    and "ascending sq ts hs" and "clock_ok rt hs"
  shows "\<exists>rt'. run_stream Release rt hs =
    Ret (map (\<lambda>(now, h). (sequence h + (server_sequence rt - sq), timestamp h + (server_ts rt - ts))) hs, rt')"
  using assms
proof (induction hs arbitrary: rt sq ts)
  case Nil
  then show ?case by simp
next
  case (Cons x hs)
  obtain now h where x: "x = (now, h)" by (cases x)
  let ?rt = "rt\<lparr>client_sequence := Some (sequence h), client_ts := Some (timestamp h),
       server_sequence := sequence h + (server_sequence rt - sq),
       server_ts := timestamp h + (server_ts rt - ts),
       prev_time_diff := elapsed now (started_time rt)\<rparr>"
  have c: "prev_time_diff rt \<le> elapsed now (started_time rt) \<and> clock_ok ?rt hs"
    using Cons.prems(4) unfolding x by (rule clock_ok_Cons) simp_all
  have asc: "ascending (sequence h) (timestamp h) hs"
    using Cons.prems(3) by (simp add: x)
  obtain d e where adv: "advance_runtime Release now h rt = Ret (d, e, ?rt)"
    using advance_ascending [OF Cons.prems(1,2), of h now] Cons.prems(3) c by (auto simp: x)
  from Cons.IH [of ?rt, OF _ _ asc] c show ?case
    by (auto simp: x adv)
qed

theorem stream_numbering_is_translation_witness:
  "\<exists>rt'. run_stream Release ((ClientRtpRuntime_default 1000 100 0)\<lparr>client_sequence := Some 5, client_ts := Some 9\<rparr>)
     [(1, \<lparr>marker = False, payload = 96, sequence = 6, timestamp = 9\<rparr>),
      (2, \<lparr>marker = True, payload = 96, sequence = 8, timestamp = 3009\<rparr>)] =
   Ret ([(101, 1000), (103, 4000)], rt')"
proof -
  let ?rt = "(ClientRtpRuntime_default 1000 100 0)\<lparr>client_sequence := Some 5, client_ts := Some 9\<rparr>"
  let ?hs = "[(1, \<lparr>marker = False, payload = 96, sequence = 6, timestamp = 9\<rparr>),
      (2, \<lparr>marker = True, payload = 96, sequence = 8, timestamp = 3009\<rparr>)]"
  have "clock_ok ?rt ?hs" "ascending 5 9 ?hs"
    by (simp_all add: clock_ok_def elapsed_def ClientRtpRuntime_default_def)
  from stream_numbering_is_translation [OF _ _ this(2,1)] show ?thesis
    by (simp add: ClientRtpRuntime_default_def)
qed

text \<open>
  C27. When a client's sequence number is 0, which happens every time it wraps around, that packet
  and the one after it are given the sequence number of the packet before: three packets of the
  stream share one number.
\<close>

theorem sequence_wrap_repeats_number:
  assumes "client_sequence rt = Some sq" and "sequence h = 0"
    and "clock_ok rt [(now, h), (now', h')]"
  shows "\<exists>ts ts' rt'. run_stream Release rt [(now, h), (now', h')] =
    Ret ([(server_sequence rt, ts), (server_sequence rt, ts')], rt')"
proof -
  have p: "prev_time_diff rt \<le> elapsed now (started_time rt)"
    using assms(3) by (simp add: clock_ok_def)
  obtain d e rt1 where a: "advance_runtime Release now h rt = Ret (d, e, rt1)"
    and rt1: "client_sequence rt1 = None" "server_sequence rt1 = server_sequence rt"
      "started_time rt1 = started_time rt" "prev_time_diff rt1 = elapsed now (started_time rt)"
    using advance_zero_sequence [OF assms(1,2) p] by blast
  have "prev_time_diff rt1 \<le> elapsed now' (started_time rt1)"
    using clock_ok_Cons [OF assms(3) rt1(3,4)] by (simp add: clock_ok_def)
  from advance_no_sequence [OF rt1(1) this, of h'] obtain d' e' rt2 where
    "advance_runtime Release now' h' rt1 = Ret (d', e', rt2)" "server_sequence rt2 = server_sequence rt1"
    by blast
  with a rt1 show ?thesis by simp
qed

theorem sequence_wrap_repeats_number_witness:
  "\<exists>ts ts' rt'. run_stream Release ((ClientRtpRuntime_default 1000 100 0)\<lparr>client_sequence := Some 65535\<rparr>)
     [(1, \<lparr>marker = False, payload = 96, sequence = 0, timestamp = 9\<rparr>),
      (2, \<lparr>marker = False, payload = 96, sequence = 1, timestamp = 9\<rparr>)] =
   Ret ([(100, ts), (100, ts')], rt')"
proof -
  let ?rt = "(ClientRtpRuntime_default 1000 100 0)\<lparr>client_sequence := Some 65535\<rparr>"
  have "clock_ok ?rt [(1, \<lparr>marker = False, payload = 96, sequence = 0, timestamp = 9\<rparr>),
      (2, \<lparr>marker = False, payload = 96, sequence = 1, timestamp = 9\<rparr>)]"
    by (simp add: clock_ok_def elapsed_def ClientRtpRuntime_default_def)
  from sequence_wrap_repeats_number [OF _ _ this, of 65535] show ?thesis
    by (simp add: ClientRtpRuntime_default_def)
qed

text \<open>The transit of the code, on numbers.\<close>

lemma transit_value:
  fixes x y :: u32
  shows "unat (word_of_int \<bar>uint x - uint y\<bar> :: u32) = nat \<bar>int (unat x) - int (unat y)\<bar>"
proof -
  have "uint x < 2 ^ 32" "uint y < 2 ^ 32" "0 \<le> uint x" "0 \<le> uint y"
    using uint_lt2p [of x] uint_lt2p [of y] by simp_all
  then have "\<bar>uint x - uint y\<bar> < 2 ^ 32"
    by linarith
  then have "take_bit 32 \<bar>uint x - uint y\<bar> = \<bar>uint x - uint y\<bar>"
    by (intro take_bit_int_eq_self) auto
  then have "uint (word_of_int \<bar>uint x - uint y\<bar> :: u32) = \<bar>uint x - uint y\<bar>"
    by (simp only: uint_word_of_int_eq len_num1 len_bit0 mult_1_right) simp
  then show ?thesis by (simp only: unat_eq_nat_uint) simp
qed

text \<open>
  C29. The jitter estimate has no floor. On every quiet packet (its transit, the distance between the
  time that passed and the time its timestamp claims, is within the threshold of the estimate), ten
  seconds after the last check, the estimate falls by 10, although the buffer it stands for stays at
  its starting delay; below 10 the debug build panics and the release build wraps around to almost
  \<open>2^32\<close>. The products of the computation are assumed to fit 32 bits.
\<close>

theorem quiet_recheck_has_no_floor:
  fixes frequency client_diff :: u32
  assumes "arrival = real_time_diff div 1000000 * unat (frequency div 1000)" and "arrival < 2 ^ 32"
    and "real_time_diff div 1000000 < 2 ^ 32"
    and "threshold = unat (jitter_delay stats) * unat (frequency div 1000) + 1000" and "threshold < 2 ^ 32"
    and "\<bar>int arrival - int (unat client_diff)\<bar> \<le> int threshold"
    and "elapsed (clk 1) (jitter_check_timestamp stats) \<ge> JITTER_RECHECK_TIME"
  shows "calculate_jitter p clk addr frequency client_diff real_time_diff stats =
    (if jitter_delay stats < 10 \<and> p = Debug then Abort ArithmeticOverflow
     else Ret ([DecreaseJitterBufferDelay addr],
       stats\<lparr>jitter_check_timestamp := clk 2, jitter_delay := jitter_delay stats - 10\<rparr>))"
proof -
  define rate where "rate = frequency div 1000"
  define ms :: u32 where "ms = of_nat (real_time_diff div 1000000)"
  define jd where "jd = jitter_delay stats * rate"
  define transit :: u32 where "transit = word_of_int \<bar>uint (ms * rate) - uint client_diff\<bar>"
  have "unat ms = real_time_diff div 1000000"
    using assms(3) by (simp add: ms_def unat_of_nat)
  then have fits: "unat ms * unat rate < 2 ^ 32" and arrival: "arrival = unat ms * unat rate"
    using assms(1,2) by (simp_all add: rate_def)
  then have "unat (ms * rate) = arrival"
    using unat_mult_lem [of ms rate] by simp
  then have "unat transit = nat \<bar>int arrival - int (unat client_diff)\<bar>"
    unfolding transit_def transit_value by simp
  moreover have th: "threshold = unat (jitter_delay stats) * unat rate + 1000"
    by (simp add: assms(4) rate_def)
  then have jd: "unat jd = unat (jitter_delay stats) * unat rate"
    using assms(5) unat_mult_lem [of "jitter_delay stats" rate] by (simp add: jd_def)
  then have "unat (jd + 1000) = threshold"
    using th assms(5) unat_add_lem [of jd 1000] by simp
  ultimately have quiet: "\<not> jd + 1000 < transit"
    using assms(6) by (simp add: word_less_nat_alt)
  have ovf: "mul_ovf p ms rate = Ret (ms * rate)" "mul_ovf p (jitter_delay stats) rate = Ret jd"
    "add_ovf p jd 1000 = Ret (jd + 1000)"
    using fits jd th assms(5) by (simp_all add: mul_ovf_def add_ovf_def overflowing_def jd_def)
  have step: "sub_ovf p (jitter_delay stats) 10 =
      (if jitter_delay stats < 10 \<and> p = Debug then Abort ArithmeticOverflow else Ret (jitter_delay stats - 10))"
    by (cases p) (auto simp: sub_ovf_def overflowing_def not_le)
  show ?thesis
    using assms(7) quiet step
    by (simp add: calculate_jitter_def Let_def rate_def [symmetric] ms_def [symmetric] ovf transit_def [symmetric]
        JITTER_BUFFER_VOLATILE_def jitter_step_def JITTER_BUFFER_DELAY_INCREASE_STEP_def)
qed

theorem quiet_recheck_has_no_floor_witness:
  "calculate_jitter Debug (\<lambda>_. secs 60) addr1 90000 900 (millis 20)
     \<lparr>jitter_delay = 0, jitter_check_timestamp = secs 50\<rparr> = Abort ArithmeticOverflow"
  using quiet_recheck_has_no_floor [OF refl _ _ refl, of "millis 20" 90000
      "\<lparr>jitter_delay = 0, jitter_check_timestamp = secs 50\<rparr>" 900 "\<lambda>_. secs 60" Debug addr1]
  by (simp add: elapsed_def JITTER_RECHECK_TIME_def)

end
