(* ===== verification/Udp_Server.thy ===== *)
theory Udp_Server
  imports Demux Media Jitter "HOL-Library.AList"
begin

text \<open>
  \<open>src/src/server/udp.rs\<close> (the actors that receive and send datagrams), \<open>src/src/client/sessions.rs\<close>
  (the sessions agreed over HTTP) and \<open>src/src/server/meta.rs\<close>. A handler gives the messages it sends
  and its new state. The receiving actor asks the jitter actor and continues when the reply comes;
  the continuation is \<open>handle_JitterReply\<close> (\<open>Mailboxes\<close> has it packet by packet). The hash map of the sessions is an association list with
  distinct keys, because \<open>ClearData\<close> walks over it.
\<close>

section \<open>Definitions\<close>

subsection \<open>Sessions and server data\<close>

datatype Session = Session string (get_client: string)

record SessionStorageItem =
  group_id :: nat
  ttl :: time
  is_sender :: bool

record ServerMeta =
  user :: string
  password :: string

text \<open>
  The random generator is a parameter: \<open>gen_range n\<close> is \<open>rng.gen_range(0..n)\<close>, which gives a number
  and the generator after it; the number is documented to be in the range.
\<close>

definition rng_laws :: "(nat \<Rightarrow> 'r \<Rightarrow> nat \<times> 'r) \<Rightarrow> bool" where
  "rng_laws gen_range \<longleftrightarrow> (\<forall>n rng. 0 < n \<longrightarrow> fst (gen_range n rng) < n)"

definition RAND_CHAR_TABLE :: string where
  "RAND_CHAR_TABLE = ''ABCDEFGHIJKLMNOPQRSTUVWXYZabcdefghijklmnopqrstuvwxyz0123456789''"

primrec rand_string :: "(nat \<Rightarrow> 'r \<Rightarrow> nat \<times> 'r) \<Rightarrow> nat \<Rightarrow> 'r \<Rightarrow> (string \<times> 'r) rust" where
  "rand_string gen_range 0 rng = Ret ([], rng)"
| "rand_string gen_range (Suc sz) rng =
     (case gen_range 62 rng of (i, rng) \<Rightarrow>
        rbind (idx RAND_CHAR_TABLE i) (\<lambda>c.
        rbind (rand_string gen_range sz rng) (\<lambda>(s, rng). Ret (c # s, rng))))"

definition ServerMeta_new :: "(nat \<Rightarrow> 'r \<Rightarrow> nat \<times> 'r) \<Rightarrow> 'r \<Rightarrow> ServerMeta rust" where
  "ServerMeta_new gen_range rng =
     rbind (rand_string gen_range 12 rng) (\<lambda>(u, rng).
     rbind (rand_string gen_range 24 rng) (\<lambda>(pw, rng). Ret \<lparr>user = u, password = pw\<rparr>))"

subsection \<open>\<open>UdpRecv\<close>\<close>

record 'b UdpRecv =
  data :: ServerMeta
  sessions :: "(Session \<times> SessionStorageItem) list"
  media_sessions :: "string \<rightharpoonup> 'b MediaList"

datatype 'b recv_out =
    SendRequest WebRtcRequest
  | DtlsRequest WebRtcRequest
  | DtlsMedia SocketAddr "'b MediaList"
  | DtlsGroup nat SocketAddr bool
  | JitterRequest JitterMessage
  | RtcRequest WebRtcRequest
  | ReplyServerData ServerMeta
  | ReplyBool bool

datatype 'b recv_message =
    Datagram WebRtcRequest
  | JitterReply SocketAddr GetOrStoreJitterBufferResponse
  | ClearData time
  | SessionMessage Session SessionStorageItem
  | MediaUserMessage string "'b MediaList"
  | ServerDataRequest

text \<open>
  The stream of datagrams: a receive into a buffer of 1200 bytes, truncated to what arrived. The
  first receive error ends the stream (\<open>None\<close>).
\<close>

definition recv_datagram ::
    "byteorder \<Rightarrow> nat + bytes \<times> SocketAddr \<Rightarrow> WebRtcRequest option rust" where
  "recv_datagram be received =
     (case received of
        Inl err \<Rightarrow> Ret None
      | Inr (packet, addr) \<Rightarrow>
          rbind (WebRtcRequest_from be (take 1200 packet, addr)) (\<lambda>req. Ret (Some req)))"

definition UdpRecv_new :: "ServerMeta \<Rightarrow> 'b UdpRecv" where
  "UdpRecv_new meta = \<lparr>data = meta, sessions = [], media_sessions = Map.empty\<rparr>"

definition handle_Datagram :: "WebRtcRequest \<Rightarrow> 'b UdpRecv \<Rightarrow> 'b recv_out list" where
  "handle_Datagram item st =
     (case item of
        Stun req addr \<Rightarrow>
          (let session = Session (server_user req) (remote_user req) in
           case map_of (sessions st) session of
             None \<Rightarrow> []
           | Some it \<Rightarrow>
               (case media_sessions st (remote_user req) of
                  Some media \<Rightarrow> [DtlsMedia addr media] | None \<Rightarrow> []) @
               [SendRequest (Stun req addr), DtlsGroup (group_id it) addr (is_sender it)])
      | Dtls message addr \<Rightarrow> [DtlsRequest (Dtls message addr)]
      | Rtc message addr \<Rightarrow> [JitterRequest (GetOrStoreJitterBuffer addr message)]
      | Unknown \<Rightarrow> [])"

definition handle_JitterReply ::
    "SocketAddr \<Rightarrow> GetOrStoreJitterBufferResponse \<Rightarrow> 'b recv_out list" where
  "handle_JitterReply addr response =
     (case response of
        Buffer (Some jitter_buffer) \<Rightarrow> map (\<lambda>message. RtcRequest (Rtc message addr)) jitter_buffer
      | Buffer None \<Rightarrow> []
      | Packet message \<Rightarrow> [RtcRequest (Rtc message addr)])"

text \<open>\<open>SystemTime::elapsed\<close> fails when the clock was set back behind the time stamp.\<close>

definition system_elapsed :: "time \<Rightarrow> time \<Rightarrow> time option" where
  "system_elapsed now t = (if t \<le> now then Some (now - t) else None)"

definition session_expired :: "time \<Rightarrow> SessionStorageItem \<Rightarrow> bool" where
  "session_expired now item =
     (case system_elapsed now (ttl item) of Some d \<Rightarrow> d > secs 60 | None \<Rightarrow> False)"

definition handle_ClearData :: "time \<Rightarrow> 'b UdpRecv \<Rightarrow> 'b UdpRecv" where
  "handle_ClearData now st =
     (let sessions_to_remove = map fst (filter (\<lambda>(s, item). session_expired now item) (sessions st))
      in fold (\<lambda>s st. st\<lparr>sessions := AList.delete s (sessions st),
                        media_sessions := (media_sessions st)(get_client s := None)\<rparr>)
           sessions_to_remove st)"

definition handle_SessionMessage :: "Session \<Rightarrow> SessionStorageItem \<Rightarrow> 'b UdpRecv \<Rightarrow> bool \<times> 'b UdpRecv" where
  "handle_SessionMessage session item st =
     (True, st\<lparr>sessions := AList.update session item (sessions st)\<rparr>)"

definition handle_MediaUserMessage :: "string \<Rightarrow> 'b MediaList \<Rightarrow> 'b UdpRecv \<Rightarrow> 'b UdpRecv" where
  "handle_MediaUserMessage user_name media st =
     st\<lparr>media_sessions := (media_sessions st)(user_name \<mapsto> media)\<rparr>"

fun handle_udp_recv :: "'b UdpRecv \<Rightarrow> 'b recv_message \<Rightarrow> ('b recv_out list \<times> 'b UdpRecv) rust" where
  "handle_udp_recv st (Datagram item) = Ret (handle_Datagram item st, st)"
| "handle_udp_recv st (JitterReply addr r) = Ret (handle_JitterReply addr r, st)"
| "handle_udp_recv st (ClearData now) = Ret ([], handle_ClearData now st)"
| "handle_udp_recv st (SessionMessage s item) =
     (case handle_SessionMessage s item st of (r, st') \<Rightarrow> Ret ([ReplyBool r], st'))"
| "handle_udp_recv st (MediaUserMessage u m) = Ret ([], handle_MediaUserMessage u m st)"
| "handle_udp_recv st ServerDataRequest = Ret ([ReplyServerData (data st)], st)"

subsection \<open>\<open>UdpSend\<close>\<close>

text \<open>
  The datagrams given to the socket. \<open>uninit\<close> is what the unwritten buffer of 1200 bytes holds. The
  result of \<open>write_stun_success_response\<close> cuts the buffer; an error is logged.
\<close>

definition handle_udp_send ::
    "byteorder \<Rightarrow> stun_crypto \<Rightarrow> ServerMeta \<Rightarrow> bytes \<Rightarrow> WebRtcRequest \<Rightarrow> (SocketAddr \<times> bytes) list rust" where
  "handle_udp_send be cr meta uninit msg =
     (case msg of
        Stun req addr \<Rightarrow>
          rbind (write_stun_success_response be cr (transaction_id req) addr (as_bytes (password meta)) uninit)
            (\<lambda>(n, message_buf).
               case n of
                 Inl e \<Rightarrow> Ret []
               | Inr n \<Rightarrow> Ret [(addr, take n message_buf)])
      | Dtls message addr \<Rightarrow> Ret [(addr, message)]
      | Rtc message addr \<Rightarrow> Ret [(addr, message)]
      | Unknown \<Rightarrow> Ret [])"

section \<open>Lemmas\<close>

subsection \<open>Sessions\<close>

definition recv_inv :: "'b UdpRecv \<Rightarrow> bool" where
  "recv_inv st \<longleftrightarrow> distinct (map fst (sessions st))"

lemma clear_fold:
  "map_of (sessions (fold (\<lambda>s st. st\<lparr>sessions := AList.delete s (sessions st),
      media_sessions := (media_sessions st)(get_client s := None)\<rparr>) ks st)) s =
     (if s \<in> set ks then None else map_of (sessions st) s)"
  "media_sessions (fold (\<lambda>s st. st\<lparr>sessions := AList.delete s (sessions st),
      media_sessions := (media_sessions st)(get_client s := None)\<rparr>) ks st) u =
     (if u \<in> get_client ` set ks then None else media_sessions st u)"
  "recv_inv st \<Longrightarrow> recv_inv (fold (\<lambda>s st. st\<lparr>sessions := AList.delete s (sessions st),
      media_sessions := (media_sessions st)(get_client s := None)\<rparr>) ks st)"
  by (induction ks arbitrary: st) (auto simp: delete_conv recv_inv_def distinct_delete)

lemma clear_lookup:
  assumes "recv_inv st"
  shows "map_of (sessions (handle_ClearData now st)) s =
    (case map_of (sessions st) s of
       Some item \<Rightarrow> if session_expired now item then None else Some item | None \<Rightarrow> None)"
proof -
  let ?ks = "map fst (filter (\<lambda>(s, item). session_expired now item) (sessions st))"
  have "s \<in> set ?ks \<longleftrightarrow> (\<exists>item. map_of (sessions st) s = Some item \<and> session_expired now item)"
    using assms by (force simp: recv_inv_def)
  then show ?thesis
    unfolding handle_ClearData_def Let_def clear_fold(1) by (auto split: option.splits)
qed

lemma clear_media:
  assumes "recv_inv st"
  shows "media_sessions (handle_ClearData now st) u =
    (if \<exists>s item. map_of (sessions st) s = Some item \<and> session_expired now item \<and> get_client s = u
     then None else media_sessions st u)"
proof -
  let ?ks = "map fst (filter (\<lambda>(s, item). session_expired now item) (sessions st))"
  have "s \<in> set ?ks \<longleftrightarrow> (\<exists>item. map_of (sessions st) s = Some item \<and> session_expired now item)" for s
    using assms by (force simp: recv_inv_def)
  then have "u \<in> get_client ` set ?ks \<longleftrightarrow>
      (\<exists>s item. map_of (sessions st) s = Some item \<and> session_expired now item \<and> get_client s = u)"
    by blast
  then show ?thesis
    unfolding handle_ClearData_def Let_def clear_fold(2) by simp
qed

lemma clear_inv: "recv_inv st \<Longrightarrow> recv_inv (handle_ClearData now st)"
  unfolding handle_ClearData_def Let_def by (rule clear_fold(3))

interpretation udp_recv: actor_total handle_udp_recv recv_inv
proof
  fix st st' :: "'b UdpRecv" and m out
  assume "recv_inv st" and "handle_udp_recv st m = Ret (out, st')"
  then show "recv_inv st'"
    by (cases m) (auto simp: clear_inv handle_SessionMessage_def handle_MediaUserMessage_def recv_inv_def
        distinct_update intro: clear_inv [unfolded recv_inv_def])
next
  fix st :: "'b UdpRecv" and m
  show "returns (handle_udp_recv st m)"
    by (cases m) (auto simp: handle_SessionMessage_def)
qed

lemma handle_udp_recv_session:
  assumes "recv_inv st" and "handle_udp_recv st m = Ret (out, st')"
    and "\<forall>it. m \<noteq> SessionMessage s it" and "map_of (sessions st) s = Some item"
  shows "map_of (sessions st') s =
    (if \<exists>now. m = ClearData now \<and> session_expired now item then None else Some item)"
  using assms
  by (cases m) (auto simp: clear_lookup handle_SessionMessage_def handle_MediaUserMessage_def update_conv)

lemma handle_udp_recv_no_session:
  assumes "recv_inv st" and "handle_udp_recv st m = Ret (out, st')"
    and "\<forall>it. m \<noteq> SessionMessage s it" and "map_of (sessions st) s = None"
  shows "map_of (sessions st') s = None"
  using assms
  by (cases m) (auto simp: clear_lookup handle_SessionMessage_def handle_MediaUserMessage_def update_conv)

lemma run_no_session:
  assumes "recv_inv st" and "run_actor handle_udp_recv st ms = Ret (outs, st')"
    and "\<forall>m \<in> set ms. \<forall>it. m \<noteq> SessionMessage s it" and "map_of (sessions st) s = None"
  shows "map_of (sessions st') s = None"
  using assms
proof (induction ms arbitrary: st outs)
  case Nil
  then show ?case by simp
next
  case (Cons m ms)
  from Cons.prems(2) obtain out st1 rest where h: "handle_udp_recv st m = Ret (out, st1)"
    and r: "run_actor handle_udp_recv st1 ms = Ret (rest, st')"
    by (rule run_actor_Cons_Ret)
  show ?case
    using Cons.IH [OF udp_recv.handle_inv [OF Cons.prems(1) h] r] Cons.prems(3)
      handle_udp_recv_no_session [OF Cons.prems(1) h _ Cons.prems(4)] by simp
qed

subsection \<open>Credentials\<close>

lemma length_table: "length RAND_CHAR_TABLE = 62"
  by (simp add: RAND_CHAR_TABLE_def)

lemma rand_string_ok:
  assumes "rng_laws gen_range"
  shows "\<exists>s rng'. rand_string gen_range n rng = Ret (s, rng') \<and> length s = n \<and> set s \<subseteq> set RAND_CHAR_TABLE"
proof (induction n arbitrary: rng)
  case (Suc n)
  obtain i rng1 where g: "gen_range 62 rng = (i, rng1)"
    by fastforce
  then have i: "i < length RAND_CHAR_TABLE"
    using assms unfolding rng_laws_def by (metis fst_conv length_table zero_less_numeral)
  obtain s rng' where "rand_string gen_range n rng1 = Ret (s, rng')" "length s = n" "set s \<subseteq> set RAND_CHAR_TABLE"
    using Suc by blast
  with i show ?case
    by (simp add: g idx_in)
qed simp

lemma ServerMeta_new_ok:
  assumes "rng_laws gen_range"
  shows "\<exists>meta. ServerMeta_new gen_range rng = Ret meta \<and> length (user meta) = 12 \<and> length (password meta) = 24 \<and>
    set (user meta) \<subseteq> set RAND_CHAR_TABLE"
proof -
  obtain u rng1 where "rand_string gen_range 12 rng = Ret (u, rng1)" "length u = 12" "set u \<subseteq> set RAND_CHAR_TABLE"
    using rand_string_ok [OF assms, of 12 rng] by blast
  moreover obtain pw rng2 where "rand_string gen_range 24 rng1 = Ret (pw, rng2)" "length pw = 24"
    using rand_string_ok [OF assms, of 24 rng1] by blast
  ultimately show ?thesis
    by (simp add: ServerMeta_new_def)
qed

lemma table_ascii: "c \<in> set RAND_CHAR_TABLE \<Longrightarrow> (of_char c :: nat) < 128 \<and> c \<noteq> CHR '':''"
  unfolding RAND_CHAR_TABLE_def by auto

lemma table_bytes:
  assumes "set s \<subseteq> set RAND_CHAR_TABLE"
  shows "utf8_valid (as_bytes s)" and "0x3a \<notin> set (as_bytes s)"
proof -
  have "b \<le> 0x7F" if b: "b \<in> set (as_bytes s)" for b
  proof -
    obtain c where c: "c \<in> set s" "b = of_nat (of_char c)"
      using b by (auto simp: as_bytes_def)
    then have "(of_char c :: nat) < 128"
      using assms table_ascii by blast
    then show ?thesis
      using c(2) by (simp add: word_le_nat_alt unat_of_nat)
  qed
  then show "utf8_valid (as_bytes s)"
    by (simp add: utf8_valid_ascii)
  show "0x3a \<notin> set (as_bytes s)"
    using colon_in_str_iff [of "as_bytes s"] table_ascii assms by auto
qed

lemma parse_credentials:
  assumes "set u \<subseteq> set RAND_CHAR_TABLE" and "length u \<le> 128"
    and "utf8_valid (as_bytes ufrag)" and "length ufrag \<le> 128"
  shows "parse_stun_user tid (as_bytes (u @ '':'' @ ufrag)) =
    Ret (Some \<lparr>transaction_id = tid, remote_user = ufrag, server_user = u\<rparr>)"
proof -
  let ?v = "as_bytes u @ 0x3a # as_bytes ufrag"
  have v: "as_bytes (u @ '':'' @ ufrag) = ?v"
    by (simp add: as_bytes_def)
  have "takeWhile (\<lambda>c. c \<noteq> 0x3a) ?v = as_bytes u" "dropWhile (\<lambda>c. c \<noteq> 0x3a) ?v = 0x3a # as_bytes ufrag"
    using table_bytes(2) [OF assms(1)] by (auto simp: takeWhile_append dropWhile_append)
  then show ?thesis
    unfolding v parse_stun_user_eq user_request_def Let_def
    using assms table_bytes(1) [OF assms(1)] by (simp add: as_bytes_def [THEN arg_cong, of length])
qed

subsection \<open>Answering a STUN request\<close>

lemma stun_answer:
  assumes "network_endian be" and "stun_crypto_laws cr"
    and "recv_datagram be (Inr (packet, addr)) = Ret (Some (Stun req addr))"
    and "length uninit = 1200"
    and "response_tag cr (transaction_id req) addr (as_bytes (password meta)) = Inr tag"
  shows "\<exists>answer. handle_udp_send be cr meta uninit (Stun req addr) = Ret [(addr, answer)] \<and>
       take 12 (drop 8 answer) = take 12 (drop 8 packet) \<and>
       decode_mapped_address be (transaction_id req) (take (addr_attribute_len addr) (drop 24 answer)) =
         (port addr, ip_octets addr)"
proof -
  let ?tid = "transaction_id req"
  have "parse_stun_binding_request be (take 1200 packet) = Ret (Some req)"
    using assms(3) by (auto simp: recv_datagram_def WebRtcRequest_from_def rust_iffs split: if_splits option.splits)
  then have tid: "20 \<le> length (take 1200 packet)" "?tid = take 12 (drop 8 (take 1200 packet))"
    by (auto dest!: parse_stun_binding_request_Some simp: request_bounded_def)
  then have len: "length ?tid = 12" and tid': "?tid = take 12 (drop 8 packet)"
    by (simp_all add: drop_take)
  have room: "20 + content_len addr \<le> length uninit"
    using assms(4) by (simp add: content_len_def content_len_integrity_def addr_attribute_len_def)
  let ?answer = "success_response cr ?tid addr tag"
  have taglen: "length tag = 20"
    using assms(2,5) unfolding response_tag_def stun_crypto_laws_def by blast
  have send: "handle_udp_send be cr meta uninit (Stun req addr) = Ret [(addr, ?answer)]"
    using write_stun_success_response_ok [OF assms(1,2) len room assms(5)] len taglen
    by (simp add: handle_udp_send_def length_success_response)
  obtain r where "?answer = bytes16 0x0101 @ bytes16 (of_nat (content_len addr)) @ STUN_COOKIE @ ?tid @
      bytes16 0x20 @ bytes16 (of_nat (addr_attribute_len addr)) @ xor_mapped_address ?tid addr @ r"
    using len by (simp add: success_response_def response_prefix_def success_header_def encode_address)
  then have "take 12 (drop 8 ?answer) = ?tid" "decode_mapped_address be ?tid
      (take (addr_attribute_len addr) (drop 24 ?answer)) = (port addr, ip_octets addr)"
    using assms(1) len by (simp_all add: decode_mapped_address_ok)
  then show ?thesis
    using send tid' by auto
qed

text \<open>A concrete request, for witnesses.\<close>

definition demo_request :: StunBindingRequest where
  "demo_request = \<lparr>transaction_id = replicate 12 7, remote_user = ''b'', server_user = ''a''\<rparr>"

definition demo_stun :: bytes where
  "demo_stun = encode_binding_request (replicate 12 7) [(6, [97, 58, 98]), (8, replicate 20 0)]"

lemma demo_stun_received: "recv_datagram NetworkEndian (Inr (demo_stun, a)) = Ret (Some (Stun demo_request a))"
proof -
  let ?as = "[(6, [97, 58, 98]), (8, replicate 20 0)] :: stun_attribute list"
  have len: "length demo_stun \<le> 1200"
    by (simp add: demo_stun_def encode_binding_request_def length_encode_attribute encode_attributes_def)
  have fu: "find_user (replicate 12 7) ?as = Some demo_request"
    using str_of_bytes_as_bytes [of "''a''"] str_of_bytes_as_bytes [of "''b''"]
    by (simp add: length_encode_attribute stun_consts user_request_def as_bytes_def demo_request_def)
  have "parse_stun_binding_request NetworkEndian (demo_stun @ []) = Ret (Some demo_request)"
    unfolding fu [symmetric] demo_stun_def
    by (rule parse_encoded_request) (simp_all add: attributes_fit_def length_encode_attribute)
  moreover have "\<not> rtp_like demo_stun"
    by (simp add: rtp_like_def demo_stun_def encode_binding_request_def bytes16_def stun_consts)
  ultimately show ?thesis
    using len by (simp add: recv_datagram_def WebRtcRequest_from_def)
qed

section \<open>Properties\<close>

text \<open>
  C34. A session lives as long as the clean-up lets it, and no datagram prolongs it: in any run of the
  receiving actor in which the session is not registered again, the session is there at the end, with
  its item unchanged, unless one of the clean-ups of the run came more than sixty seconds after the
  registration; then it is gone for good. STUN traffic does not refresh it.
\<close>

theorem session_lifetime:
  assumes "recv_inv st" and "map_of (sessions st) s = Some item"
    and "\<forall>m \<in> set ms. \<forall>it. m \<noteq> SessionMessage s it"
  shows "\<exists>outs st'. run_actor handle_udp_recv st ms = Ret (outs, st') \<and>
    map_of (sessions st') s =
      (if \<exists>now. ClearData now \<in> set ms \<and> now > ttl item + secs 60 then None else Some item)"
  using assms
proof (induction ms arbitrary: st)
  case Nil
  then show ?case by simp
next
  case (Cons m ms)
  have ex: "session_expired now item \<longleftrightarrow> now > ttl item + secs 60" for now
    by (auto simp: session_expired_def system_elapsed_def split: option.splits if_splits)
  obtain out st1 where h: "handle_udp_recv st m = Ret (out, st1)"
    using udp_recv.handle_returns [OF Cons.prems(1), of m] by (cases "handle_udp_recv st m") auto
  have i: "recv_inv st1"
    using udp_recv.handle_inv [OF Cons.prems(1) h] .
  have s1: "map_of (sessions st1) s =
      (if \<exists>now. m = ClearData now \<and> now > ttl item + secs 60 then None else Some item)"
    using handle_udp_recv_session [OF Cons.prems(1) h _ Cons.prems(2)] Cons.prems(3) by (simp add: ex)
  show ?case
  proof (cases "\<exists>now. m = ClearData now \<and> now > ttl item + secs 60")
    case True
    obtain outs st' where r: "run_actor handle_udp_recv st1 ms = Ret (outs, st')"
      using udp_recv.run_returns [OF i] by blast
    with True s1 show ?thesis
      using run_no_session [OF i r] Cons.prems(3) by (auto simp: h)
  next
    case False
    then have "map_of (sessions st1) s = Some item"
      using s1 by (simp only: if_False)
    from Cons.IH [OF i this] Cons.prems(3) obtain outs st' where
      "run_actor handle_udp_recv st1 ms = Ret (outs, st')" "map_of (sessions st') s =
        (if \<exists>now. ClearData now \<in> set ms \<and> now > ttl item + secs 60 then None else Some item)"
      by auto
    with False show ?thesis
      by (auto simp: h)
  qed
qed

theorem session_lifetime_witness:
  "\<exists>outs st'. run_actor handle_udp_recv
      (\<lparr>data = \<lparr>user = ''a'', password = ''b''\<rparr>,
        sessions = [(Session ''a'' ''v'', \<lparr>group_id = 7, ttl = 0, is_sender = False\<rparr>)],
        media_sessions = Map.empty\<rparr> :: nat UdpRecv)
      [ClearData (secs 60), Datagram (Stun \<lparr>transaction_id = [], remote_user = ''v'', server_user = ''a''\<rparr> (V4 1 1)),
       ClearData (secs 120)] = Ret (outs, st') \<and>
    map_of (sessions st') (Session ''a'' ''v'') = None"
proof -
  let ?st = "\<lparr>data = \<lparr>user = ''a'', password = ''b''\<rparr>,
        sessions = [(Session ''a'' ''v'', \<lparr>group_id = 7, ttl = 0, is_sender = False\<rparr>)],
        media_sessions = Map.empty\<rparr> :: nat UdpRecv"
  have "recv_inv ?st" "map_of (sessions ?st) (Session ''a'' ''v'') = Some \<lparr>group_id = 7, ttl = 0, is_sender = False\<rparr>"
    by (simp_all add: recv_inv_def)
  from session_lifetime [OF this, of "[ClearData (secs 60), Datagram (Stun \<lparr>transaction_id = [],
      remote_user = ''v'', server_user = ''a''\<rparr> (V4 1 1)), ClearData (secs 120)]"] show ?thesis
    by auto
qed

text \<open>
  A STUN request of a known session is answered to the address it came from: the datagram the
  sending actor puts on the socket carries the twelve bytes of the request's transaction identifier
  and an XOR-mapped address that decodes to that address. Together with it, the client actor is told
  the session's group and role.
\<close>

theorem stun_request_is_answered:
  assumes "network_endian be" and "stun_crypto_laws cr"
    and "recv_datagram be (Inr (packet, addr)) = Ret (Some (Stun req addr))"
    and "map_of (sessions st) (Session (server_user req) (remote_user req)) = Some item"
    and "length uninit = 1200"
    and "response_tag cr (transaction_id req) addr (as_bytes (password meta)) = Inr tag"
  shows "{SendRequest (Stun req addr), DtlsGroup (group_id item) addr (is_sender item)} \<subseteq>
      set (handle_Datagram (Stun req addr) st) \<and>
    (\<exists>answer. handle_udp_send be cr meta uninit (Stun req addr) = Ret [(addr, answer)] \<and>
       take 12 (drop 8 answer) = take 12 (drop 8 packet) \<and>
       decode_mapped_address be (transaction_id req) (take (addr_attribute_len addr) (drop 24 answer)) =
         (port addr, ip_octets addr))"
  using stun_answer [OF assms(1-3,5,6)] assms(4) by (auto simp: handle_Datagram_def)

theorem stun_request_is_answered_witness:
  "\<exists>answer. handle_udp_send NetworkEndian toy_crypto \<lparr>user = ''a'', password = ''pw''\<rparr> (replicate 1200 0)
      (Stun demo_request (V4 0x7f000001 3336)) = Ret [(V4 0x7f000001 3336, answer)] \<and>
    decode_mapped_address NetworkEndian (replicate 12 7) (take 8 (drop 24 answer)) = (3336, [127, 0, 0, 1])"
proof -
  let ?st = "\<lparr>data = \<lparr>user = ''a'', password = ''pw''\<rparr>, sessions = [(Session ''a'' ''b'',
        \<lparr>group_id = 7, ttl = 0, is_sender = False\<rparr>)], media_sessions = Map.empty\<rparr> :: nat UdpRecv"
  from stun_request_is_answered [OF NetworkEndian_endian toy_crypto_laws
      demo_stun_received [of "V4 0x7f000001 3336"], of ?st
      "\<lparr>group_id = 7, ttl = 0, is_sender = False\<rparr>" "replicate 1200 0" "\<lparr>user = ''a'', password = ''pw''\<rparr>"]
  show ?thesis
    by (auto simp: response_tag_def toy_crypto_def addr_attribute_len_def ip_octets_def octets4_def demo_request_def)
qed

text \<open>
  C35. The server's credentials fit the STUN user names: whatever the random generator draws,
  \<open>ServerMeta::new\<close> returns, the user has 12 characters of the table and the password 24, and the user
  name a client builds from the server's user and its own (valid UTF-8, at most 128 bytes) is split by
  the parser into exactly those two.
\<close>

theorem server_user_is_recovered:
  assumes "rng_laws gen_range" and "utf8_valid (as_bytes ufrag)" and "length ufrag \<le> 128"
  shows "\<exists>meta. ServerMeta_new gen_range rng = Ret meta \<and>
    length (user meta) = 12 \<and> length (password meta) = 24 \<and>
    parse_stun_user tid (as_bytes (user meta @ '':'' @ ufrag)) =
      Ret (Some \<lparr>transaction_id = tid, remote_user = ufrag, server_user = user meta\<rparr>)"
proof -
  obtain meta where m: "ServerMeta_new gen_range rng = Ret meta" "length (user meta) = 12" "length (password meta) = 24"
      "set (user meta) \<subseteq> set RAND_CHAR_TABLE"
    using ServerMeta_new_ok [OF assms(1)] by blast
  then show ?thesis
    using parse_credentials [OF m(4) _ assms(2,3), of tid] by simp
qed

text \<open>A generator for concrete runs: it counts.\<close>

definition counting_rng :: "nat \<Rightarrow> nat \<Rightarrow> nat \<times> nat" where
  "counting_rng n r = (r mod n, Suc r)"

lemma counting_rng_laws [simp]: "rng_laws counting_rng"
  by (simp add: rng_laws_def counting_rng_def)

theorem server_user_is_recovered_witness:
  "\<exists>meta. ServerMeta_new counting_rng 0 = Ret meta \<and>
    parse_stun_user [] (as_bytes (user meta @ '':'' @ ''x'')) =
      Ret (Some \<lparr>transaction_id = [], remote_user = ''x'', server_user = user meta\<rparr>)"
  using server_user_is_recovered [OF counting_rng_laws, of "''x''" 0 "[]"]
  by (auto simp: as_bytes_def)

end
