(* ===== verification/Server_Model.thy ===== *)
theory Server_Model
  imports Client_Actor Rtc_Actor Udp_Server
begin

text \<open>
  The four actors that keep state as one state, \<open>create_udp\<close> of \<open>src/src/server/udp.rs\<close>, with the
  step relation in which any handler may run on any message, its invariant, and concrete states used
  by witnesses: a sender, a connected sender, a sender and a viewer connected, the viewer joined.
\<close>

section \<open>The whole server\<close>

text \<open>
  The state of the four actors that keep state. The actors run one handler at a time; a step of the
  server is one handler of one of them, on any message. This is more than the server can do (messages
  are only sent by the handlers and the network), so what holds in every reachable state here holds in
  every state of the server. \<open>UdpSend\<close> keeps no state.
\<close>

record ('s, 'b) Server =
  udp_recv :: "'b UdpRecv"
  client_actor :: "('s, 'b) ClientActor"
  jitter_control :: JitterBufferStorage

definition Server_new :: "ServerMeta \<Rightarrow> ('s, 'b) Server" where
  "Server_new meta =
     \<lparr>udp_recv = UdpRecv_new meta, client_actor = ClientActor_new, jitter_control = Map.empty\<rparr>"

inductive server_step ::
    "profile \<Rightarrow> byteorder \<Rightarrow> 's srtp_crate \<Rightarrow> 'b bimap_crate \<Rightarrow> ('s, 'b) Server \<Rightarrow> ('s, 'b) Server \<Rightarrow> bool"
  for p be sc bm where
  recv: "handle_udp_recv (udp_recv S) m = Ret (out, u) \<Longrightarrow> server_step p be sc bm S (S\<lparr>udp_recv := u\<rparr>)"
| client: "client_step sc (client_actor S) c \<Longrightarrow> server_step p be sc bm S (S\<lparr>client_actor := c\<rparr>)"
| rtc: "handle_Rtc p be sc bm clk sched msg (client_actor S) = Ret (warned, out', c) \<Longrightarrow>
    server_step p be sc bm S (S\<lparr>client_actor := c\<rparr>)"
| jitter: "handle_jitter (jitter_control S) jm = Ret (out'', j) \<Longrightarrow>
    server_step p be sc bm S (S\<lparr>jitter_control := j\<rparr>)"

inductive server_reachable ::
    "profile \<Rightarrow> byteorder \<Rightarrow> 's srtp_crate \<Rightarrow> 'b bimap_crate \<Rightarrow> ('s, 'b) Server \<Rightarrow> bool"
  for p be sc bm where
  start: "server_reachable p be sc bm (Server_new meta)"
| step: "server_reachable p be sc bm S \<Longrightarrow> server_step p be sc bm S S' \<Longrightarrow> server_reachable p be sc bm S'"

definition server_inv :: "('s, 'b) Server \<Rightarrow> bool" where
  "server_inv S \<longleftrightarrow> recv_inv (udp_recv S) \<and> sharing_ok (client_actor S) \<and>
     list_all handshake_ok (heap (client_actor S)) \<and> jitter_inv (jitter_control S)"

lemma handshake_core: "core c = core d \<Longrightarrow> handshake_ok c = handshake_ok d"
  by (simp add: core_def handshake_ok_def)

lemma handshake_same_core:
  assumes "same_core w w'" and "list_all handshake_ok (heap w)"
  shows "list_all handshake_ok (heap w')"
  unfolding list_all_length
proof (intro allI impI)
  fix n assume n: "n < length (heap w')"
  have l: "length (heap w') = length (heap w)"
    by (rule same_core_length [OF assms(1)])
  have "core (heap w' ! n) = core (heap w ! n)"
    using assms(1) n l unfolding same_core_def by (metis nth_map)
  then show "handshake_ok (heap w' ! n)"
    using assms(2) n l handshake_core by (force simp: list_all_length)
qed

lemma server_inv_new: "server_inv (Server_new meta)"
  by (simp add: server_inv_def Server_new_def UdpRecv_new_def recv_inv_def sharing_new jitter_inv_def
      ClientActor_new_def [THEN arg_cong, of heap])

lemma server_inv_step:
  assumes "server_step p be sc bm S S'" and "server_inv S"
  shows "server_inv S'"
  using assms(1)
proof (cases rule: server_step.cases)
  case (recv m out u)
  with assms(2) show ?thesis
    using udp_recv.handle_inv [OF _ recv(2)] by (simp add: server_inv_def)
next
  case (client c)
  with assms(2) show ?thesis
    using sharing_step [OF client(2)] handshake_step [OF client(2)] by (simp add: server_inv_def)
next
  case (rtc clk sched msg warned out c)
  note k = handle_Rtc_keeps [OF rtc(2)]
  show ?thesis
    using assms(2) same_core_sharing [OF k] handshake_same_core [OF k] by (simp add: server_inv_def rtc(1))
next
  case (jitter jm out j)
  with assms(2) show ?thesis
    using jitter.handle_inv [OF _ jitter(2)] by (simp add: server_inv_def)
qed

lemma server_reachable_inv: "server_reachable p be sc bm S \<Longrightarrow> server_inv S"
  by (induction rule: server_reachable.induct) (auto intro: server_inv_new server_inv_step)

lemma advances_same_core:
  assumes "same_core w w'"
  shows "advances w w'"
proof -
  have "core (client_at w' r) = core (client_at w r)" if "r < length (heap w)" for r
    using assms that same_core_length [OF assms] unfolding same_core_def client_at_def by (metis nth_map)
  then show ?thesis
    using same_core_length [OF assms] by (simp add: advances_def core_def)
qed

lemma server_step_advances: "server_step p be sc bm S S' \<Longrightarrow> advances (client_actor S) (client_actor S')"
  by (cases rule: server_step.cases) (auto intro: advances_step dest: handle_Rtc_keeps [THEN advances_same_core])

text \<open>The client actor's states, as states of the server; used for concrete runs.\<close>

lemma client_reachable_server:
  "client_reachable sc w \<Longrightarrow>
   server_reachable p be sc bm \<lparr>udp_recv = UdpRecv_new meta, client_actor = w, jitter_control = Map.empty\<rparr>"
proof (induction rule: client_reachable.induct)
  case start
  then show ?case
    using server_reachable.start [of p be sc bm meta] by (simp add: Server_new_def)
next
  case (step w w')
  from step.IH server_step.client [of sc "\<lparr>udp_recv = UdpRecv_new meta, client_actor = w,
      jitter_control = Map.empty\<rparr>" w' p be bm] step.hyps(2)
  show ?case
    using server_reachable.step by fastforce
qed

text \<open>The sender of \<open>one_sender\<close> after its handshake.\<close>

definition demo_env :: connect_env where
  "demo_env = \<lparr>ssl_new = Inr (), ssl_stream_new = Inr (),
     ssl_accept = Accepted \<lparr>selected_srtp_profile = Some ''SRTP_AES128_CM_SHA1_80'',
       export_keying_material = (\<lambda>n l. Inr [])\<rparr>\<rparr>"

definition connected_sender :: "(nat, (string \<rightharpoonup> u8) \<times> (u8 \<rightharpoonup> string)) ClientActor" where
  "connected_sender = snd (dtls_connect counting_crate demo_env 0 one_sender)"

lemma connected_sender_reachable: "client_reachable counting_crate connected_sender"
  unfolding connected_sender_def
  by (rule client_reachable.step [OF one_sender_reachable], rule client_step.connected [of 0])
    (simp add: one_sender_eq, rule prod.collapse [symmetric])

lemma connected_sender_eq:
  "connected_sender =
     \<lparr>heap = [(Client_default 0)\<lparr>state := Connected, srtp := Some sessions0, dtls_connected := True,
                sender_addr := Some addr1, receivers := [addr1 \<mapsto> 0]\<rparr>,
              (Client_default 0)\<lparr>dtls_connected := True\<rparr>],
      client_storage = [addr1 \<mapsto> 0, addr2 \<mapsto> 1], groups = \<lparr>groups_storage = [7 \<mapsto> addr1]\<rparr>\<rparr>"
  by (simp add: connected_sender_def one_sender_eq dtls_connect_def connect_def demo_env_def client_at_def
      SrtpTransport_new_def counting_crate_def update_client_def Client_default_def sessions0_def)

text \<open>Both clients connected, and the sender's media announced.\<close>

definition both_connected :: "(nat, (string \<rightharpoonup> u8) \<times> (u8 \<rightharpoonup> string)) ClientActor" where
  "both_connected = handle_MediaAddrMessage (\<lambda>_. (1000, 100, 0)) addr1 vp8_media
     (snd (dtls_connect counting_crate demo_env 1 connected_sender))"

lemma both_connected_reachable: "client_reachable counting_crate both_connected"
  unfolding both_connected_def
  by (rule client_reachable.step [OF client_reachable.step [OF connected_sender_reachable]],
      rule client_step.connected [of 1])
    (simp add: connected_sender_eq, rule prod.collapse [symmetric], rule client_step.media, rule refl)

lemma both_connected_eq:
  "both_connected =
     \<lparr>heap = [(Client_default 0)\<lparr>state := Connected, srtp := Some sessions0, dtls_connected := True,
                sender_addr := Some addr1, receivers := [addr1 \<mapsto> 0],
                rtp_runtime_storage := runtime_entries (\<lambda>_. (1000, 100, 0)) (get_frequencies vp8_media) Map.empty,
                media := Some vp8_media\<rparr>,
              (Client_default 0)\<lparr>state := Connected, srtp := Some sessions0, dtls_connected := True\<rparr>],
      client_storage = [addr1 \<mapsto> 0, addr2 \<mapsto> 1], groups = \<lparr>groups_storage = [7 \<mapsto> addr1]\<rparr>\<rparr>"
  by (simp add: both_connected_def connected_sender_eq dtls_connect_def connect_def demo_env_def client_at_def
      SrtpTransport_new_def counting_crate_def update_client_def Client_default_def sessions0_def
      handle_MediaAddrMessage_def)

lemma vp8_runtime:
  "runtime_entries (\<lambda>_. (1000, 100, 0)) (get_frequencies vp8_media) Map.empty 90000 =
     Some (ClientRtpRuntime_default 1000 100 0)"
  by (simp add: runtime_entries_lookup set_get_frequencies vp8_media_def MediaList_insert_def
      MediaList_default_def)

text \<open>The second client follows the first.\<close>

definition viewer_joined :: "(nat, (string \<rightharpoonup> u8) \<times> (u8 \<rightharpoonup> string)) ClientActor" where
  "viewer_joined = (case handle_GroupId 7 addr2 False both_connected of Ret w \<Rightarrow> w | _ \<Rightarrow> both_connected)"

lemma viewer_joined_eq:
  "viewer_joined =
     \<lparr>heap = [(Client_default 0)\<lparr>state := Connected, srtp := Some sessions0, dtls_connected := True,
                sender_addr := Some addr1, receivers := [addr1 \<mapsto> 0, addr2 \<mapsto> 1],
                rtp_runtime_storage := runtime_entries (\<lambda>_. (1000, 100, 0)) (get_frequencies vp8_media) Map.empty,
                media := Some vp8_media\<rparr>,
              (Client_default 0)\<lparr>state := Connected, srtp := Some sessions0, dtls_connected := True,
                sender_addr := Some addr1\<rparr>],
      client_storage = [addr1 \<mapsto> 0, addr2 \<mapsto> 1], groups = \<lparr>groups_storage = [7 \<mapsto> addr1]\<rparr>\<rparr>"
  by (simp add: viewer_joined_def both_connected_eq handle_GroupId_def insert_or_get_sender_def
      rwlock_write_def update_client_def Client_default_def)

lemma viewer_joined_reachable: "client_reachable counting_crate viewer_joined"
proof (rule client_reachable.step [OF both_connected_reachable], rule client_step.group)
  show "handle_GroupId 7 addr2 False both_connected = Ret viewer_joined"
    by (simp add: viewer_joined_eq both_connected_eq handle_GroupId_def insert_or_get_sender_def
      rwlock_write_def update_client_def Client_default_def)
qed

subsection \<open>Following a sender\<close>

lemma join_keeps_clients:
  assumes "sharing_ok w" and "groups_storage (groups w) k = Some p" and "p \<noteq> addr"
    and "client_storage w addr = Some v" and "client_storage w p = Some q"
    and "handle_GroupId k addr False w = Ret w'"
  shows "client_at w' x = (client_at w x)\<lparr>
      receivers := (if x = q then (receivers (client_at w q))(addr \<mapsto> v) else receivers (client_at w x)),
      sender_addr := (if x = v then Some p else sender_addr (client_at w x))\<rparr>"
    and "client_storage w' = client_storage w" and "length (heap w') = length (heap w)"
proof -
  have ne: "q \<noteq> v"
    using sharing_okD(2) [OF assms(1) storage_occurs [OF assms(4)], of p] assms(3,5) by auto
  have len: "v < length (heap w)" "q < length (heap w)"
    using storage_valid [OF assms(1)] assms(4,5) by auto
  have g: "insert_or_get_sender (groups w) k addr False = (p, groups w)"
    using assms(2) by (simp add: insert_or_get_sender_def)
  have w': "w' = update_client q (\<lambda>c. c\<lparr>receivers := (receivers c)(addr \<mapsto> v)\<rparr>)
      (update_client v (\<lambda>c. c\<lparr>sender_addr := Some p\<rparr>) (w\<lparr>groups := groups w\<rparr>))"
    using assms(2-6) unfolding handle_GroupId_cases last_sender_def g by simp
  show "client_at w' x = (client_at w x)\<lparr>
      receivers := (if x = q then (receivers (client_at w q))(addr \<mapsto> v) else receivers (client_at w x)),
      sender_addr := (if x = v then Some p else sender_addr (client_at w x))\<rparr>"
    unfolding w' using ne len by (simp add: client_at_update)
  show "client_storage w' = client_storage w" "length (heap w') = length (heap w)"
    by (simp_all add: w')
qed

lemma join_keeps_media:
  assumes "sharing_ok w" and "groups_storage (groups w) k = Some p" and "p \<noteq> addr"
    and "client_storage w addr = Some v" and "client_storage w p = Some q"
    and "handle_GroupId k addr False w = Ret w'"
  shows "srtp (client_at w' x) = srtp (client_at w x)"
    and "rtp_runtime_storage (client_at w' x) = rtp_runtime_storage (client_at w x)"
    and "codec_n_frequency bm rtcp h (client_at w' x) = codec_n_frequency bm rtcp h (client_at w x)"
    and "encrypted sc rtcp m (client_at w' x) = encrypted sc rtcp m (client_at w x)"
    and "is_deleted (client_at w' x) = is_deleted (client_at w x)"
  using join_keeps_clients(1) [OF assms, of x]
  by (simp_all add: codec_n_frequency_def encrypted_def)

lemma join_receivers_ready:
  assumes "sharing_ok w" and "groups_storage (groups w) k = Some p" and "p \<noteq> addr"
    and "client_storage w addr = Some v" and "client_storage w p = Some q"
    and "handle_GroupId k addr False w = Ret w'"
    and "encrypted sc False m (client_at w v) \<noteq> None"
    and "\<forall>a x. receivers (client_at w q) a = Some x \<and> \<not> is_deleted (client_at w x) \<longrightarrow>
      encrypted sc False m (client_at w x) \<noteq> None"
  shows "\<forall>a x. receivers (client_at w' q) a = Some x \<and> \<not> is_deleted (client_at w' x) \<longrightarrow>
    encrypted sc False m (client_at w' x) \<noteq> None"
  using assms(7,8) join_keeps_clients(1) [OF assms(1-6), of q]
  by (auto simp: join_keeps_media(4,5) [OF assms(1-6)] split: if_splits)

end
