(* ===== verification/Mailboxes.thy ===== *)
theory Mailboxes
  imports Server_Model
begin

text \<open>
  The server with its mailboxes: which message goes where, who waits for whom, and which tasks run
  between the handlers (\<open>src/src/server/udp.rs\<close>, \<open>src/src/client/actor.rs\<close>,
  \<open>src/src/client/rtc_actor.rs\<close>, wired together by \<open>create_udp\<close>).

  A mailbox is a queue. The stream of datagrams and the streams of TLS records call their handler
  directly (\<open>add_message_stream\<close>), so they have no queue of their own. \<open>RtcActor\<close> runs on
  \<open>num_cpus\<close> threads that take messages from one queue; a message that is still worked on by one of
  them is still in \<open>rtc_box\<close>, so any of its first \<open>num_cpus\<close> messages may be the next to be done.
  A task that awaits a reply carries a number; the message it waits for carries it too, and the task
  goes on when no message of that number is left. A handler is one step; one that aborts has none.
\<close>

section \<open>Definitions\<close>

subsection \<open>State\<close>

datatype 'b client_message =
    ClientRequest WebRtcRequest
  | ClientDelete nat SocketAddr
  | ClientGroup nat SocketAddr bool
  | ClientMedia SocketAddr "'b MediaList"

text \<open>Where the task that a DTLS record spawns stands.\<close>

datatype dtls_task =
    PushTask client_ref bytes SocketAddr
  | StatusTask client_ref SocketAddr
  | ConnectTask client_ref SocketAddr
  | ExtractTask client_ref SocketAddr

text \<open>What the build and the crates provide.\<close>

record ('s, 'b) platform =
  build :: profile
  byteorder_lib :: byteorder
  srtp_lib :: "'s srtp_crate"
  bimap_lib :: "'b bimap_crate"
  stun_lib :: stun_crypto
  num_cpus :: nat

text \<open>
  \<open>listening\<close> is true until the first receive error, \<open>streams\<close> are the addresses whose outgoing TLS
  records the client actor reads, \<open>heard\<close> are the addresses a datagram came from, \<open>sent\<close> is what was
  given to the socket, \<open>handled\<close> are the messages the media actor is done with, in that order.
\<close>

record ('s, 'b) System =
  actors :: "('s, 'b) Server"
  client_box :: "'b client_message list"
  jitter_box :: "JitterMessage list"
  rtc_box :: "(nat option \<times> WebRtcRequest) list"
  send_box :: "WebRtcRequest list"
  recv_tasks :: "(nat \<times> SocketAddr \<times> GetOrStoreJitterBufferResponse) list"
  dtls_tasks :: "(nat \<times> dtls_task) list"
  next_task :: nat
  streams :: "SocketAddr list"
  listening :: bool
  heard :: "SocketAddr set"
  sent :: "(SocketAddr \<times> bytes) list"
  handled :: "(nat option \<times> WebRtcRequest) list"

definition create_udp :: "ServerMeta \<Rightarrow> ('s, 'b) System" where
  "create_udp meta =
     \<lparr>actors = Server_new meta, client_box = [], jitter_box = [], rtc_box = [], send_box = [],
      recv_tasks = [], dtls_tasks = [], next_task = 0, streams = [], listening = True, heard = {},
      sent = [], handled = []\<rparr>"

subsection \<open>Sending messages\<close>

primrec post :: "'b recv_out \<Rightarrow> ('s, 'b) System \<Rightarrow> ('s, 'b) System" where
  "post (SendRequest m) S = S\<lparr>send_box := send_box S @ [m]\<rparr>"
| "post (DtlsRequest m) S = S\<lparr>client_box := client_box S @ [ClientRequest m]\<rparr>"
| "post (DtlsMedia a md) S = S\<lparr>client_box := client_box S @ [ClientMedia a md]\<rparr>"
| "post (DtlsGroup k a s) S = S\<lparr>client_box := client_box S @ [ClientGroup k a s]\<rparr>"
| "post (JitterRequest m) S = S\<lparr>jitter_box := jitter_box S @ [m]\<rparr>"
| "post (RtcRequest m) S = S\<lparr>rtc_box := rtc_box S @ [(None, m)]\<rparr>"
| "post (ReplyServerData meta) S = S"
| "post (ReplyBool b) S = S"

primrec post_rtc :: "rtc_out \<Rightarrow> ('s, 'b) System \<Rightarrow> ('s, 'b) System" where
  "post_rtc (ToUdp m) S = S\<lparr>send_box := send_box S @ [m]\<rparr>"
| "post_rtc (ToJitter m) S = S\<lparr>jitter_box := jitter_box S @ [m]\<rparr>"

subsection \<open>What comes from outside\<close>

text \<open>The stream of datagrams calls \<open>UdpRecv\<close>; after a receive error it has ended.\<close>

definition datagram_turn ::
    "byteorder \<Rightarrow> nat + bytes \<times> SocketAddr \<Rightarrow> ('s, 'b) System \<Rightarrow> ('s, 'b) System rust" where
  "datagram_turn be received S =
     rbind (recv_datagram be received) (\<lambda>item.
       case item of
         None \<Rightarrow> Ret (S\<lparr>listening := False\<rparr>)
       | Some req \<Rightarrow>
           rbind (handle_udp_recv (udp_recv (actors S)) (Datagram req)) (\<lambda>(out, u).
             Ret (fold post out (S\<lparr>actors := (actors S)\<lparr>udp_recv := u\<rparr>,
               heard := (case received of Inl e \<Rightarrow> heard S | Inr (packet, addr) \<Rightarrow> insert addr (heard S))\<rparr>))))"

text \<open>The messages of the HTTP route and of the timer.\<close>

primrec from_outside :: "'b recv_message \<Rightarrow> bool" where
  "from_outside (Datagram req) = False"
| "from_outside (JitterReply a r) = False"
| "from_outside (ClearData now) = True"
| "from_outside (SessionMessage s item) = True"
| "from_outside (MediaUserMessage u md) = True"
| "from_outside ServerDataRequest = True"

definition registration_turn :: "'b recv_message \<Rightarrow> ('s, 'b) System \<Rightarrow> ('s, 'b) System rust" where
  "registration_turn m S =
     rbind (handle_udp_recv (udp_recv (actors S)) m) (\<lambda>(out, u).
       Ret (fold post out (S\<lparr>actors := (actors S)\<lparr>udp_recv := u\<rparr>\<rparr>)))"

text \<open>The TLS library wrote a record for the client at an address whose stream is attached.\<close>

definition record_turn :: "bytes \<Rightarrow> SocketAddr \<Rightarrow> ('s, 'b) System \<Rightarrow> ('s, 'b) System" where
  "record_turn message addr S =
     S\<lparr>send_box := send_box S @ handle_DtlsMessage (create_outgoing message addr)\<rparr>"

inductive arrival :: "('s, 'b) platform \<Rightarrow> ('s, 'b) System \<Rightarrow> ('s, 'b) System \<Rightarrow> bool" for P where
  datagram: "listening S \<Longrightarrow> datagram_turn (byteorder_lib P) received S = Ret S' \<Longrightarrow> arrival P S S'"
| registration: "from_outside m \<Longrightarrow> registration_turn m S = Ret S' \<Longrightarrow> arrival P S S'"
| tls_record: "addr \<in> set (streams S) \<Longrightarrow> S' = record_turn message addr S \<Longrightarrow> arrival P S S'"

subsection \<open>What the server does by itself\<close>

text \<open>The jitter actor; its reply wakes the task of \<open>UdpRecv\<close> that asked.\<close>

definition start_recv_task ::
    "SocketAddr \<times> GetOrStoreJitterBufferResponse \<Rightarrow> ('s, 'b) System \<Rightarrow> ('s, 'b) System" where
  "start_recv_task reply S =
     S\<lparr>recv_tasks := recv_tasks S @ [(next_task S, reply)], next_task := Suc (next_task S)\<rparr>"

definition jitter_turn :: "(nat \<Rightarrow> time) \<Rightarrow> JitterMessage \<Rightarrow> ('s, 'b) System \<Rightarrow> ('s, 'b) System rust" where
  "jitter_turn clk m S =
     rbind (handle_jitter (jitter_control (actors S)) (clk, m)) (\<lambda>(replies, j).
       Ret (fold start_recv_task replies (S\<lparr>actors := (actors S)\<lparr>jitter_control := j\<rparr>\<rparr>)))"

text \<open>
  The task of \<open>UdpRecv\<close> after the reply: what is left of it, and what it sends to the media actor.
  The packets of a buffer are sent one after the other, each awaited; a single packet is not awaited.
\<close>

fun recv_task_turn ::
    "nat \<Rightarrow> SocketAddr \<Rightarrow> GetOrStoreJitterBufferResponse \<Rightarrow>
      GetOrStoreJitterBufferResponse option \<times> (nat option \<times> WebRtcRequest) list" where
  "recv_task_turn n addr (Buffer (Some (message # jitter_buffer))) =
     (Some (Buffer (Some jitter_buffer)), [(Some n, Rtc message addr)])"
| "recv_task_turn n addr (Buffer (Some [])) = (None, [])"
| "recv_task_turn n addr (Buffer None) = (None, [])"
| "recv_task_turn n addr (Packet message) = (None, [(None, Rtc message addr)])"

definition rtc_turn ::
    "('s, 'b) platform \<Rightarrow> (nat \<Rightarrow> time) \<Rightarrow> SocketAddr list \<Rightarrow> WebRtcRequest \<Rightarrow> ('s, 'b) System \<Rightarrow>
      ('s, 'b) System rust" where
  "rtc_turn P clk sched m S =
     rbind (handle_Rtc (build P) (byteorder_lib P) (srtp_lib P) (bimap_lib P) clk sched m
         (client_actor (actors S))) (\<lambda>(warned, out, w).
       Ret (fold post_rtc out (S\<lparr>actors := (actors S)\<lparr>client_actor := w\<rparr>\<rparr>)))"

text \<open>The client actor, on one message of its mailbox.\<close>

abbreviation set_client :: "('s, 'b) ClientActor \<Rightarrow> ('s, 'b) System \<Rightarrow> ('s, 'b) System" where
  "set_client w S \<equiv> S\<lparr>actors := (actors S)\<lparr>client_actor := w\<rparr>\<rparr>"

definition start_dtls_task ::
    "time \<Rightarrow> bytes \<Rightarrow> SocketAddr \<Rightarrow> ('s, 'b) System \<Rightarrow> ('s, 'b) System" where
  "start_dtls_task now message addr S =
     (case handle_Dtls now addr (client_actor (actors S)) of ((client_ref, attached), w) \<Rightarrow>
        (set_client w S)\<lparr>streams := streams S @ (if attached then [addr] else []),
          dtls_tasks := dtls_tasks S @ [(next_task S, PushTask client_ref message addr)],
          next_task := Suc (next_task S)\<rparr>)"

fun client_turn ::
    "time \<Rightarrow> (u32 \<Rightarrow> u32 \<times> u16 \<times> time) \<Rightarrow> 'b client_message \<Rightarrow> ('s, 'b) System \<Rightarrow> ('s, 'b) System rust" where
  "client_turn now draws (ClientRequest (Dtls message addr)) S = Ret (start_dtls_task now message addr S)"
| "client_turn now draws (ClientRequest _) S = Ret S"
| "client_turn now draws (ClientDelete n addr) S =
     Ret (set_client (snd (handle_DeleteMessage addr (client_actor (actors S)))) S)"
| "client_turn now draws (ClientGroup k addr s) S =
     rbind (handle_GroupId k addr s (client_actor (actors S))) (\<lambda>w. Ret (set_client w S))"
| "client_turn now draws (ClientMedia addr md) S =
     Ret (set_client (handle_MediaAddrMessage draws addr md (client_actor (actors S))) S)"

text \<open>
  One step of the task of a DTLS record: what is left of it and the state after it. \<open>pushed\<close>, \<open>env\<close>
  and \<open>ssl_read\<close> are the answers of the channel and of OpenSSL, of which a step uses at most one.
\<close>

definition ask_deletion :: "nat \<Rightarrow> SocketAddr \<Rightarrow> bool \<Rightarrow> ('s, 'b) System \<Rightarrow> ('s, 'b) System" where
  "ask_deletion n addr del S =
     (if del then S\<lparr>client_box := client_box S @ [ClientDelete n addr]\<rparr> else S)"

primrec dtls_task_turn ::
    "'s srtp_crate \<Rightarrow> ClientError + unit \<Rightarrow> connect_env \<Rightarrow> (io_error + nat) option \<Rightarrow> nat \<Rightarrow> dtls_task \<Rightarrow>
      ('s, 'b) System \<Rightarrow> dtls_task option \<times> ('s, 'b) System" where
  "dtls_task_turn sc pushed env ssl_read n (PushTask r message addr) S =
     (Some (StatusTask r addr), ask_deletion n addr (dtls_push pushed) S)"
| "dtls_task_turn sc pushed env ssl_read n (StatusTask r addr) S =
     (case dtls_status r (client_actor (actors S)) of
        TaskConnect \<Rightarrow> Some (ConnectTask r addr)
      | TaskExtract \<Rightarrow> Some (ExtractTask r addr)
      | TaskDone \<Rightarrow> None, S)"
| "dtls_task_turn sc pushed env ssl_read n (ConnectTask r addr) S =
     (case dtls_connect sc env r (client_actor (actors S)) of (del, w) \<Rightarrow>
        (None, ask_deletion n addr del (set_client w S)))"
| "dtls_task_turn sc pushed env ssl_read n (ExtractTask r addr) S =
     (None, ask_deletion n addr (dtls_extract ssl_read r (client_actor (actors S))) S)"

text \<open>\<open>UdpSend\<close>.\<close>

definition send_turn ::
    "('s, 'b) platform \<Rightarrow> bytes \<Rightarrow> WebRtcRequest \<Rightarrow> ('s, 'b) System \<Rightarrow> ('s, 'b) System rust" where
  "send_turn P uninit m S =
     rbind (handle_udp_send (byteorder_lib P) (stun_lib P) (data (udp_recv (actors S))) uninit m)
       (\<lambda>out. Ret (S\<lparr>sent := sent S @ out\<rparr>))"

text \<open>A task that goes on is replaced by what is left of it, a finished one is gone.\<close>

definition resume_with :: "'k \<times> 'v \<Rightarrow> ('k \<times> 'v) list \<Rightarrow> 'v option \<Rightarrow> ('k \<times> 'v) list \<Rightarrow> ('k \<times> 'v) list" where
  "resume_with t xs left ys = xs @ (case left of None \<Rightarrow> [] | Some v \<Rightarrow> [(fst t, v)]) @ ys"

definition awaits_rtc :: "nat \<Rightarrow> ('s, 'b) System \<Rightarrow> bool" where
  "awaits_rtc n S \<longleftrightarrow> list_ex (\<lambda>(t, m). t = Some n) (rtc_box S)"

definition awaits_deletion :: "nat \<Rightarrow> ('s, 'b) System \<Rightarrow> bool" where
  "awaits_deletion n S \<longleftrightarrow>
     list_ex (\<lambda>m. case m of ClientDelete k a \<Rightarrow> k = n | _ \<Rightarrow> False) (client_box S)"

inductive internal :: "('s, 'b) platform \<Rightarrow> ('s, 'b) System \<Rightarrow> ('s, 'b) System \<Rightarrow> bool" for P where
  jitter: "jitter_box S = m # rest \<Longrightarrow> jitter_turn clk m (S\<lparr>jitter_box := rest\<rparr>) = Ret S' \<Longrightarrow> internal P S S'"
| recv_task: "recv_tasks S = xs @ (n, addr, r) # ys \<Longrightarrow> \<not> awaits_rtc n S \<Longrightarrow>
    recv_task_turn n addr r = (left, out) \<Longrightarrow>
    S' = S\<lparr>recv_tasks := resume_with (n, addr, r) xs (map_option (Pair addr) left) ys,
           rtc_box := rtc_box S @ out\<rparr> \<Longrightarrow> internal P S S'"
| rtc: "rtc_box S = xs @ (t, m) # ys \<Longrightarrow> length xs < num_cpus P \<Longrightarrow>
    rtc_turn P clk sched m (S\<lparr>rtc_box := xs @ ys, handled := handled S @ [(t, m)]\<rparr>) = Ret S' \<Longrightarrow>
    internal P S S'"
| client: "client_box S = m # rest \<Longrightarrow> client_turn now draws m (S\<lparr>client_box := rest\<rparr>) = Ret S' \<Longrightarrow>
    internal P S S'"
| dtls_task: "dtls_tasks S = xs @ (n, t) # ys \<Longrightarrow> \<not> awaits_deletion n S \<Longrightarrow>
    dtls_task_turn (srtp_lib P) pushed env ssl_read n t S = (left, S1) \<Longrightarrow>
    S' = S1\<lparr>dtls_tasks := resume_with (n, t) xs left ys\<rparr> \<Longrightarrow> internal P S S'"
| send: "send_box S = m # rest \<Longrightarrow> length uninit = 1200 \<Longrightarrow>
    send_turn P uninit m (S\<lparr>send_box := rest\<rparr>) = Ret S' \<Longrightarrow> internal P S S'"

definition system_step :: "('s, 'b) platform \<Rightarrow> ('s, 'b) System \<Rightarrow> ('s, 'b) System \<Rightarrow> bool" where
  "system_step P S S' \<longleftrightarrow> arrival P S S' \<or> internal P S S'"

definition system_reachable :: "('s, 'b) platform \<Rightarrow> ('s, 'b) System \<Rightarrow> bool" where
  "system_reachable P S \<longleftrightarrow> (\<exists>meta. (system_step P)\<^sup>*\<^sup>* (create_udp meta) S)"

inductive_cases arrivalE: "arrival P S S'"
inductive_cases internalE: "internal P S S'"

end
