(* ===== verification/Step_Systems.thy ===== *)
theory Step_Systems
  imports "HOL-Library.Multiset"
begin

text \<open>
  Contracts of step relations, with their consequences for whole runs: a relation whose steps are
  steps of a more abstract one or leave it alone, a relation that works off a finite amount of pending
  work, and a labelled relation that conserves what its labels bring. The work is a multiset of ranks; a step replaces one piece by any number of pieces of
  smaller rank, so it cannot go on forever.
\<close>

section \<open>Refinement mappings\<close>

locale refinement_mapping =
  fixes cstep :: "'c \<Rightarrow> 'c \<Rightarrow> bool"
    and astep :: "'a \<Rightarrow> 'a \<Rightarrow> bool"
    and abs :: "'c \<Rightarrow> 'a"
    and inv :: "'c \<Rightarrow> bool"
  assumes inv_step: "inv s \<Longrightarrow> cstep s t \<Longrightarrow> inv t"
    and simulates: "inv s \<Longrightarrow> cstep s t \<Longrightarrow> astep (abs s) (abs t) \<or> abs t = abs s"
begin

lemma run_inv: "cstep\<^sup>*\<^sup>* s t \<Longrightarrow> inv s \<Longrightarrow> inv t"
  by (induction rule: rtranclp_induct) (auto intro: inv_step)

lemma run_simulates: "cstep\<^sup>*\<^sup>* s t \<Longrightarrow> inv s \<Longrightarrow> astep\<^sup>*\<^sup>* (abs s) (abs t)"
proof (induction rule: rtranclp_induct)
  case (step t u)
  then show ?case
    using simulates [OF run_inv [OF step.hyps(1) step.prems] step.hyps(2)]
    by (auto intro: rtranclp.rtrancl_into_rtrancl)
qed simp

end

section \<open>Working off what is pending\<close>

text \<open>One piece of work is replaced by smaller ones.\<close>

definition works_off :: "nat multiset \<Rightarrow> nat multiset \<Rightarrow> bool" where
  "works_off M N \<longleftrightarrow> (\<exists>a K R. M = add_mset a R \<and> N = R + K \<and> (\<forall>k \<in># K. k < a))"

lemma works_offI: "M = add_mset a R \<Longrightarrow> N = R + K \<Longrightarrow> (\<And>k. k \<in># K \<Longrightarrow> k < a) \<Longrightarrow> works_off M N"
  by (auto simp: works_off_def)

lemma works_off_mult: "works_off M N \<Longrightarrow> (N, M) \<in> mult less_than"
  unfolding works_off_def mult_def mult1_def by fastforce

locale working =
  fixes step :: "'c \<Rightarrow> 'c \<Rightarrow> bool"
    and pending :: "'c \<Rightarrow> nat multiset"
  assumes step_works: "step s t \<Longrightarrow> works_off (pending s) (pending t)"
begin

lemma terminates: "wfp (\<lambda>t s. step s t)"
proof -
  have "{(t, s). step s t} \<subseteq> inv_image (mult less_than) pending"
    using step_works works_off_mult by (auto simp: inv_image_def)
  then show ?thesis
    unfolding wfp_def using wf_subset [OF wf_inv_image [OF wf_mult [OF wf_less_than]]] by blast
qed

lemma no_infinite_run: "\<not> (\<forall>i. step (f i) (f (Suc i)))"
  using terminates unfolding wfp_def wf_iff_no_infinite_down_chain by auto

lemma reaches_end: "\<exists>t. step\<^sup>*\<^sup>* s t \<and> (\<nexists>u. step t u)"
  by (induction s rule: wfp_induct_rule [OF terminates]) (metis converse_rtranclp_into_rtranclp rtranclp.rtrancl_refl)

end

text \<open>Unless it is blocked, such a relation comes to rest with nothing pending.\<close>

locale settling = working +
  fixes inv :: "'a \<Rightarrow> bool"
    and blocked :: "'a \<Rightarrow> bool"
  assumes inv_step: "inv s \<Longrightarrow> step s t \<Longrightarrow> inv t"
    and progress: "inv s \<Longrightarrow> pending s \<noteq> {#} \<Longrightarrow> \<not> blocked s \<Longrightarrow> \<exists>t. step s t"
begin

lemma settles: "inv s \<Longrightarrow> \<exists>t. step\<^sup>*\<^sup>* s t \<and> inv t \<and> (pending t = {#} \<or> blocked t)"
proof (induction s rule: wfp_induct_rule [OF terminates])
  case (1 s)
  show ?case
  proof (cases "pending s = {#} \<or> blocked s")
    case False
    then obtain t where t: "step s t"
      using progress [OF 1(2)] by blast
    then show ?thesis
      using 1(1) [OF t inv_step [OF 1(2) t]] by (meson converse_rtranclp_into_rtranclp)
  qed (use 1 in blast)
qed

text \<open>Every run that cannot be continued has come to rest.\<close>

lemma stuck_at_rest: "inv s \<Longrightarrow> step\<^sup>*\<^sup>* s t \<Longrightarrow> \<nexists>u. step t u \<Longrightarrow> pending t = {#} \<or> blocked t"
proof -
  assume s: "inv s" "step\<^sup>*\<^sup>* s t" and stuck: "\<nexists>u. step t u"
  from s(2,1) have "inv t"
    by (induction rule: rtranclp_induct) (auto intro: inv_step)
  then show ?thesis
    using progress stuck by blast
qed

end

section \<open>Conserving what arrives\<close>

text \<open>The runs of a labelled relation, with their labels.\<close>

inductive runs :: "('c \<Rightarrow> 'l \<Rightarrow> 'c \<Rightarrow> bool) \<Rightarrow> 'c \<Rightarrow> 'l list \<Rightarrow> 'c \<Rightarrow> bool" for step where
  runs_none: "runs step s [] s"
| runs_step: "runs step s ls t \<Longrightarrow> step t l u \<Longrightarrow> runs step s (ls @ [l]) u"

text \<open>Every step adds to what a state holds exactly what its label brings.\<close>

locale conserving_steps =
  fixes step :: "'c \<Rightarrow> 'l \<Rightarrow> 'c \<Rightarrow> bool"
    and held :: "'c \<Rightarrow> 'x multiset"
    and brought :: "'l \<Rightarrow> 'x multiset"
  assumes conserves: "step s l t \<Longrightarrow> held t = held s + brought l"
begin

lemma runs_conserve: "runs step s ls t \<Longrightarrow> held t = held s + sum_list (map brought ls)"
  by (induction rule: runs.induct) (simp_all add: conserves)

end

end
