(* ===== verification/Mailbox_Invariant.thy ===== *)
theory Mailbox_Invariant
  imports Mailboxes Step_Systems
begin

text \<open>
  What every mailbox and every task of the running server looks like: requests of the right kind,
  packets that are RTP, addresses the server has heard of, references to clients that exist. The
  invariant is proved handler by handler; with it, the server with mailboxes refines the server of
  \<open>Server_Model\<close>, in which any handler may run on any message.
\<close>

section \<open>Well-formed messages\<close>

text \<open>
  What a message may look like: the right kind of request, packets that are RTP, addresses that the
  server has heard of (\<open>H\<close>), references to clients that exist (below \<open>L\<close>).
\<close>

primrec client_ok :: "SocketAddr set \<Rightarrow> 'b client_message \<Rightarrow> bool" where
  "client_ok H (ClientRequest q) = (case q of Dtls m a \<Rightarrow> a \<in> H | _ \<Rightarrow> False)"
| "client_ok H (ClientDelete n a) = (a \<in> H)"
| "client_ok H (ClientGroup k a s) = (a \<in> H)"
| "client_ok H (ClientMedia a md) = (a \<in> H)"

primrec jitter_ok :: "SocketAddr set \<Rightarrow> JitterMessage \<Rightarrow> bool" where
  "jitter_ok H (IncreaseJitterBufferDelay a) = (a \<in> H)"
| "jitter_ok H (DecreaseJitterBufferDelay a) = (a \<in> H)"
| "jitter_ok H (GetOrStoreJitterBuffer a m) = (a \<in> H \<and> rtp_like m)"

definition rtc_ok :: "SocketAddr set \<Rightarrow> WebRtcRequest \<Rightarrow> bool" where
  "rtc_ok H q = (case q of Rtc m a \<Rightarrow> a \<in> H \<and> rtp_like m | _ \<Rightarrow> False)"

definition send_ok :: "SocketAddr set \<Rightarrow> WebRtcRequest \<Rightarrow> bool" where
  "send_ok H q = (case q of
     Stun r a \<Rightarrow> a \<in> H \<and> length (transaction_id r) = 12
   | Dtls m a \<Rightarrow> a \<in> H | Rtc m a \<Rightarrow> a \<in> H | Unknown \<Rightarrow> False)"

definition reply_ok :: "SocketAddr set \<Rightarrow> SocketAddr \<times> GetOrStoreJitterBufferResponse \<Rightarrow> bool" where
  "reply_ok H = (\<lambda>(a, r). a \<in> H \<and> (case r of
     Buffer (Some b) \<Rightarrow> list_all rtp_like b | Buffer None \<Rightarrow> True | Packet m \<Rightarrow> rtp_like m))"

primrec task_ok :: "SocketAddr set \<Rightarrow> nat \<Rightarrow> dtls_task \<Rightarrow> bool" where
  "task_ok H L (PushTask r m a) = (r < L \<and> a \<in> H)"
| "task_ok H L (StatusTask r a) = (r < L \<and> a \<in> H)"
| "task_ok H L (ConnectTask r a) = (r < L \<and> a \<in> H)"
| "task_ok H L (ExtractTask r a) = (r < L \<and> a \<in> H)"

text \<open>The addresses the client actor and its clients know, and the packets the jitter actor holds.\<close>

definition clients_known :: "SocketAddr set \<Rightarrow> ('s, 'b) ClientActor \<Rightarrow> bool" where
  "clients_known H w \<longleftrightarrow> dom (client_storage w) \<subseteq> H \<and> ran (groups_storage (groups w)) \<subseteq> H \<and>
     list_all (\<lambda>c. dom (receivers c) \<subseteq> H \<and> set_option (sender_addr c) \<subseteq> H) (heap w)"

definition packets_held :: "JitterBufferStorage \<Rightarrow> bool" where
  "packets_held st \<longleftrightarrow> (\<forall>a j. st a = Some j \<longrightarrow> list_all rtp_like (buffer j))"

definition mail_inv :: "('s, 'b) System \<Rightarrow> bool" where
  "mail_inv S \<longleftrightarrow>
     list_all (client_ok (heard S)) (client_box S) \<and>
     list_all (jitter_ok (heard S)) (jitter_box S) \<and>
     list_all (rtc_ok (heard S) \<circ> snd) (rtc_box S) \<and>
     list_all (send_ok (heard S)) (send_box S) \<and>
     list_all (reply_ok (heard S) \<circ> snd) (recv_tasks S) \<and>
     list_all (task_ok (heard S) (length (heap (client_actor (actors S)))) \<circ> snd) (dtls_tasks S) \<and>
     list_all (\<lambda>a. a \<in> heard S) (streams S) \<and> list_all (\<lambda>(a, m). a \<in> heard S) (sent S) \<and>
     clients_known (heard S) (client_actor (actors S)) \<and> packets_held (jitter_control (actors S)) \<and>
     server_inv (actors S)"

subsection \<open>Monotonicity\<close>

lemma ok_mono:
  assumes "H \<subseteq> H'" and "L \<le> L'"
  shows "client_ok H m \<Longrightarrow> client_ok H' m" and "jitter_ok H j \<Longrightarrow> jitter_ok H' j"
    and "rtc_ok H q \<Longrightarrow> rtc_ok H' q" and "send_ok H q \<Longrightarrow> send_ok H' q" and "reply_ok H r \<Longrightarrow> reply_ok H' r"
    and "task_ok H L t \<Longrightarrow> task_ok H' L' t"
proof -
  show "client_ok H m \<Longrightarrow> client_ok H' m"
    using assms(1) by (cases m) (auto split: WebRtcRequest.splits)
  show "jitter_ok H j \<Longrightarrow> jitter_ok H' j"
    using assms(1) by (cases j) auto
  show "task_ok H L t \<Longrightarrow> task_ok H' L' t"
    using assms by (cases t) auto
qed (use assms(1) in \<open>auto simp: rtc_ok_def send_ok_def reply_ok_def split: WebRtcRequest.splits\<close>)

lemma clients_known_mono: "clients_known H w \<Longrightarrow> H \<subseteq> H' \<Longrightarrow> clients_known H' w"
  unfolding clients_known_def list_all_iff by (meson subset_trans)

subsection \<open>The outputs of the handlers\<close>

lemma WebRtcRequest_from_classified:
  assumes "WebRtcRequest_from be (b, a) = Ret req"
  shows "case req of Stun r a' \<Rightarrow> a' = a \<and> length (transaction_id r) = 12
    | Dtls m a' \<Rightarrow> a' = a \<and> m = b | Rtc m a' \<Rightarrow> a' = a \<and> m = b \<and> rtp_like m | Unknown \<Rightarrow> True"
proof (cases "rtp_like b")
  case True
  with assms show ?thesis
    by (auto simp: WebRtcRequest_from_def)
next
  case False
  with assms obtain stun where st: "parse_stun_binding_request be b = Ret stun"
    by (auto simp: WebRtcRequest_from_def rust_iffs)
  show ?thesis
  proof (cases stun)
    case (Some r)
    then have "length (transaction_id r) = 12"
      using parse_stun_binding_request_Some [of be b r] st by (auto simp: request_bounded_def)
    with Some assms False st show ?thesis
      by (auto simp: WebRtcRequest_from_def)
  qed (use assms False st in \<open>auto simp: WebRtcRequest_from_def rust_iffs split: if_splits\<close>)
qed

lemma datagram_turn_Ret:
  assumes "datagram_turn be received S = Ret S'"
  obtains (failed) e where "received = Inl e" "S' = S\<lparr>listening := False\<rparr>"
  | (packet) b a req where "received = Inr (b, a)" "WebRtcRequest_from be (take 1200 b, a) = Ret req"
      "S' = fold post (handle_Datagram req (udp_recv (actors S))) (S\<lparr>heard := insert a (heard S)\<rparr>)"
  using assms
  by (cases received) (auto simp: datagram_turn_def recv_datagram_def rust_iffs split: prod.splits)

lemma registration_turn_Ret:
  assumes "registration_turn m S = Ret S'" and "from_outside m"
  shows "\<exists>out u. handle_udp_recv (udp_recv (actors S)) m = Ret (out, u) \<and>
    S' = S\<lparr>actors := (actors S)\<lparr>udp_recv := u\<rparr>\<rparr>"
  using assms by (cases m) (auto simp: registration_turn_def handle_SessionMessage_def)

lemma handle_jitter_Ret:
  assumes "handle_jitter st (clk, m) = Ret (replies, st')" and "jitter_ok H m" and "packets_held st"
  shows "list_all (reply_ok H) replies" and "packets_held st'" and "length replies \<le> 1"
    and "replies \<noteq> [] \<Longrightarrow> \<exists>a b. m = GetOrStoreJitterBuffer a b"
  using assms
  by (cases m; auto simp: rust_iffs handle_GetOrStoreJitterBuffer_def handle_IncreaseJitterBufferDelay_def
      handle_DecreaseJitterBufferDelay_def reply_ok_def packets_held_def entry_or_default_def
      JitterBuffer_default_def JitterBuffer_new_def Let_def split: if_splits option.splits)+

text \<open>The clients' addresses, handler by handler.\<close>

definition knows :: "SocketAddr set \<Rightarrow> ('s, 'b) Client \<Rightarrow> bool" where
  "knows H c \<longleftrightarrow> dom (receivers c) \<subseteq> H \<and> set_option (sender_addr c) \<subseteq> H"

lemma clients_known_iff:
  "clients_known H w \<longleftrightarrow> dom (client_storage w) \<subseteq> H \<and> ran (groups_storage (groups w)) \<subseteq> H \<and>
     list_all (knows H) (heap w)"
  by (simp add: clients_known_def knows_def [abs_def])

lemma list_all_update_client:
  assumes "list_all Q (heap w)" and "r < length (heap w) \<Longrightarrow> Q (client_at w r) \<Longrightarrow> Q (f (client_at w r))"
  shows "list_all Q (heap (update_client r f w))"
  using assms by (cases "r < length (heap w)")
    (auto simp: update_client_def client_at_def list_all_length nth_list_update list_update_beyond)

lemma clients_known_update:
  assumes "clients_known H w"
    and "r < length (heap w) \<Longrightarrow> knows H (client_at w r) \<Longrightarrow> knows H (f (client_at w r))"
  shows "clients_known H (update_client r f w)"
  using assms list_all_update_client [of "knows H" w r f] by (simp add: clients_known_iff)

lemma knows_frame [simp]:
  "knows H (Client_default now)"
  "knows H (c\<lparr>dtls_connected := b\<rparr>) = knows H c" "knows H (c\<lparr>is_deleted := b\<rparr>) = knows H c"
  "knows H (c\<lparr>srtp := t\<rparr>) = knows H c" "knows H (c\<lparr>state := st\<rparr>) = knows H c"
  "knows H (c\<lparr>rtp_runtime_storage := rs, media := md\<rparr>) = knows H c"
  by (simp_all add: knows_def Client_default_def)

lemma handle_Dtls_known:
  assumes "handle_Dtls now a w = ((r, att), w')" and "clients_known H w" and "a \<in> H" and "sharing_ok w"
  shows "clients_known H w'" and "r < length (heap w')" and "length (heap w) \<le> length (heap w')"
proof -
  obtain w1 where e: "entry_client now a w = (r, w1)"
    using assms(1) by (auto simp: handle_Dtls_def split: prod.splits if_splits)
  have w1: "clients_known H w1" "r < length (heap w1)" "length (heap w) \<le> length (heap w1)"
    using e assms(2-4) storage_valid [OF assms(4), of a]
    by (auto simp: entry_client_def clients_known_iff split: option.splits if_splits dest: subsetD [OF _ domI])
  have w': "w' = w1 \<or> w' = update_client r (\<lambda>c. c\<lparr>dtls_connected := True\<rparr>) w1"
    using assms(1) e by (auto simp: handle_Dtls_def split: if_splits)
  then show "clients_known H w'" "r < length (heap w')" "length (heap w) \<le> length (heap w')"
    using w1 by (auto intro: clients_known_update)
qed

lemma connect_known: "knows H (snd (connect sc env c)) = knows H c"
  by (simp add: knows_def connect_def Let_def split: sum.splits handshake.splits ClientState.splits)

lemma dtls_connect_known:
  assumes "dtls_connect sc env r w = (del, w')" and "clients_known H w"
  shows "clients_known H w'"
  using assms connect_known [of H sc env "client_at w r"]
  by (auto simp: dtls_connect_def split: prod.splits sum.splits intro!: clients_known_update)

lemma handle_DeleteMessage_known:
  assumes "clients_known H w"
  shows "clients_known H (snd (handle_DeleteMessage a w))"
proof (cases "client_storage w a")
  case (Some r)
  let ?w1 = "w\<lparr>client_storage := (client_storage w)(a := None), groups := remove_sender (groups w) a\<rparr>"
  have "ran (groups_storage (remove_sender (groups w) a)) \<subseteq> ran (groups_storage (groups w))"
    by (auto simp: remove_sender_def ran_def split: option.splits if_splits)
  then have "clients_known H ?w1"
    using assms by (auto simp: clients_known_iff dom_def)
  then show ?thesis
    unfolding handle_DeleteMessage_def Some option.case Let_def snd_conv
    by (intro clients_known_update) (auto simp: knows_def dom_def split: option.splits if_splits)
qed (use assms in \<open>simp add: handle_DeleteMessage_def\<close>)

lemma handle_MediaAddrMessage_known:
  "clients_known H w \<Longrightarrow> clients_known H (handle_MediaAddrMessage draws a md w)"
  by (auto simp: handle_MediaAddrMessage_def split: option.splits intro!: clients_known_update)

lemma handle_GroupId_known:
  assumes "handle_GroupId k a s w = Ret w'" and "clients_known H w" and "a \<in> H"
  shows "clients_known H w'"
proof -
  let ?w1 = "w\<lparr>groups := snd (insert_or_get_sender (groups w) k a s)\<rparr>"
  have ls: "last_sender w k a \<in> H"
    using assms(2,3) by (auto simp: last_sender_def clients_known_def split: option.splits intro: ranI)
  have w1: "clients_known H ?w1"
    using assms(2,3) by (auto simp: clients_known_def insert_or_get_sender_def ran_def split: option.splits)
  have link: "clients_known H (update_client q (\<lambda>c. c\<lparr>receivers := (receivers c)(a \<mapsto> r)\<rparr>)
      (update_client r (\<lambda>c. c\<lparr>sender_addr := Some (last_sender w k a)\<rparr>) ?w1))" for q r
    using ls assms(3) by (intro clients_known_update w1) (auto simp: knows_def)
  show ?thesis
    using assms(1) w1 link unfolding handle_GroupId_cases
    by (auto split: option.splits if_splits)
qed

lemma same_core_known:
  fixes w w' :: "('s, 'b) ClientActor"
  assumes "same_core w w'"
  shows "clients_known H w' = clients_known H w"
proof -
  have g: "groups w' = groups w"
    using assms by (cases w; cases w') (simp add: same_core_def)
  have "list_all (\<lambda>c. knows H c) (heap v) = list_all (\<lambda>x. dom (fst (snd (snd x))) \<subseteq> H \<and>
      set_option (fst (snd (snd (snd x)))) \<subseteq> H) (map core (heap v))" for v :: "('s, 'b) ClientActor"
    by (simp add: list_all_iff knows_def core_def)
  then show ?thesis
    using assms g unfolding clients_known_iff same_core_def by simp
qed

text \<open>What the media actor sends.\<close>

lemma rtc_process_jitter:
  assumes "rtc_process p be sc bm clk sched rtcp h a r m (w :: ('s, 'b, 'z) Shared_scheme) = Ret (res, out, w')"
    and "ToJitter j \<in> set out"
  shows "j = IncreaseJitterBufferDelay a \<or> j = DecreaseJitterBufferDelay a"
proof -
  have meta: "j = IncreaseJitterBufferDelay a \<or> j = DecreaseJitterBufferDelay a"
    if "replace_meta p be clk h codec a r m1 w1 = Ret (x, out1, w2)" "ToJitter j \<in> set out1" 
      for codec m1 x out1 and w1 w2 :: "('s, 'b, 'z) Shared_scheme"
    using that by (auto simp: replace_meta_def calculate_jitter_def Let_def rust_iffs
        split: option.splits prod.splits if_splits)
  from assms(1) show ?thesis
  proof (cases rule: rtc_process_Ret)
    case (unknown e m1 w1)
    then show ?thesis using meta assms(2) by blast
  next
    case (delivered m1 w1 m2 out1 w2 out2)
    have "ToJitter j \<notin> set out2"
      using deliver_out [OF delivered(3)] by blast
    then have "ToJitter j \<in> set out1"
      using assms(2) delivered(4) by simp
    then show ?thesis
      using delivered(2) meta by (auto split: if_splits)
  qed (use assms(2) in simp)
qed

lemma handle_Rtc_jitter:
  assumes "handle_Rtc p be sc bm clk sched msg w = Ret (warned, out, w')" and "ToJitter j \<in> set out"
  shows "\<exists>m a. msg = Rtc m a \<and> (j = IncreaseJitterBufferDelay a \<or> j = DecreaseJitterBufferDelay a)"
  using assms(1)
proof (cases rule: handle_Rtc_Ret)
  case (processed m a r h res)
  then show ?thesis
    using rtc_process_jitter [OF processed(4) assms(2)] by simp
qed (use assms(2) in simp_all)

subsection \<open>The steps, seen from the actors\<close>

abbreviation platform_step :: "('s, 'b) platform \<Rightarrow> ('s, 'b) Server \<Rightarrow> ('s, 'b) Server \<Rightarrow> bool" where
  "platform_step P \<equiv> server_step (build P) (byteorder_lib P) (srtp_lib P) (bimap_lib P)"

lemma post_actors [simp]:
  "actors (fold post out S) = actors S" "actors (fold post_rtc out' S) = actors S"
  "actors (fold start_recv_task rs S) = actors S" "actors (ask_deletion n a del S) = actors S"
proof -
  show "actors (fold post out S) = actors S"
  proof (induction out arbitrary: S)
    case (Cons y out)
    then show ?case by (cases y) simp_all
  qed simp
  show "actors (fold post_rtc out' S) = actors S"
  proof (induction out' arbitrary: S)
    case (Cons y out)
    then show ?case by (cases y) simp_all
  qed simp
  show "actors (fold start_recv_task rs S) = actors S"
    by (induction rs arbitrary: S) (simp_all add: start_recv_task_def)
qed (simp add: ask_deletion_def)

lemma arrival_simulates: "arrival P S S' \<Longrightarrow> platform_step P (actors S) (actors S') \<or> actors S' = actors S"
proof (erule arrivalE)
  fix received assume "datagram_turn (byteorder_lib P) received S = Ret S'"
  then show ?thesis
    by (cases rule: datagram_turn_Ret) simp_all
next
  fix m :: "'b recv_message" assume "from_outside m" "registration_turn m S = Ret S'"
  then show ?thesis
    using registration_turn_Ret [of m S S'] server_step.recv [of "actors S" m] by fastforce
qed (simp add: record_turn_def)

lemma client_turn_simulates:
  assumes "client_turn now draws m S = Ret S'"
  shows "platform_step P (actors S) (actors S') \<or> actors S' = actors S"
proof -
  have *: "platform_step P (actors S) (actors (set_client w S))" if "client_step (srtp_lib P) (client_actor (actors S)) w" for w
    using server_step.client [OF that] by simp
  show ?thesis
  proof (cases m)
    case (ClientRequest q)
    then show ?thesis
      using assms * client_step.dtls
      by (cases q) (fastforce simp: start_dtls_task_def split: prod.splits)+
  next
    case (ClientDelete n a)
    then show ?thesis
      using assms * [OF client_step.delete [OF prod.collapse [symmetric]]] by auto
  next
    case (ClientGroup k a s)
    then show ?thesis
      using assms * [OF client_step.group] by (auto simp: rust_iffs)
  next
    case (ClientMedia a md)
    then show ?thesis
      using assms * [OF client_step.media [OF refl]] by auto
  qed
qed

lemma dtls_task_turn_simulates:
  assumes "dtls_task_turn (srtp_lib P) pushed env ssl_read n t S = (left, S')"
    and "task_ok H (length (heap (client_actor (actors S)))) t"
  shows "platform_step P (actors S) (actors S') \<or> actors S' = actors S"
proof (cases t)
  case (ConnectTask r a)
  obtain del w where d: "dtls_connect (srtp_lib P) env r (client_actor (actors S)) = (del, w)"
    by fastforce
  then have "client_step (srtp_lib P) (client_actor (actors S)) w"
    using assms(2) ConnectTask client_step.connected by fastforce
  then show ?thesis
    using assms(1) ConnectTask d server_step.client by fastforce
qed (use assms(1) in auto)

lemma internal_simulates:
  assumes "internal P S S'" and "mail_inv S"
  shows "platform_step P (actors S) (actors S') \<or> actors S' = actors S"
  using assms(1)
proof (cases rule: internal.cases)
  case (jitter m rest clk)
  then show ?thesis
    using server_step.jitter [of "actors S"] by (auto simp: jitter_turn_def rust_iffs)
next
  case (rtc xs t m ys clk sched)
  then show ?thesis
    using server_step.rtc [of "build P" "byteorder_lib P" "srtp_lib P" "bimap_lib P" clk sched m "actors S"]
    by (auto simp: rtc_turn_def rust_iffs)
next
  case (client m rest now draws)
  then show ?thesis
    using client_turn_simulates [OF client(2), of P] by simp
next
  case (dtls_task xs n t ys pushed env ssl_read left S1)
  have "task_ok (heard S) (length (heap (client_actor (actors S)))) t"
    using assms(2) dtls_task(1) by (simp add: mail_inv_def)
  then show ?thesis
    using dtls_task_turn_simulates [OF dtls_task(3)] dtls_task(4) by simp
qed (auto simp: send_turn_def rust_iffs)

subsection \<open>The invariant is kept\<close>

definition jitter_messages :: "rtc_out list \<Rightarrow> JitterMessage list" where
  "jitter_messages out = List.map_filter (\<lambda>y. case y of ToUdp q \<Rightarrow> None | ToJitter j \<Rightarrow> Some j) out"

lemma jitter_messages_simps [simp]:
  "jitter_messages [] = []" "jitter_messages (ToUdp q # ys) = jitter_messages ys"
  "jitter_messages (ToJitter j # ys) = j # jitter_messages ys"
  by (simp_all add: jitter_messages_def map_filter_simps)

lemma fold_post_rtc:
  "fold post_rtc out S =
     S\<lparr>send_box := send_box S @ datagrams out, jitter_box := jitter_box S @ jitter_messages out\<rparr>"
proof (induction out arbitrary: S)
  case (Cons y out)
  then show ?case by (cases y) simp_all
qed simp

lemma set_outputs:
  "q \<in> set (datagrams out) \<longleftrightarrow> ToUdp q \<in> set out" "j \<in> set (jitter_messages out) \<longleftrightarrow> ToJitter j \<in> set out"
proof (induction out)
  case (Cons y out)
  case 1 show ?case using Cons by (cases y) auto
  case 2 show ?case using Cons by (cases y) auto
qed simp_all

lemma mail_inv_server:
  "mail_inv S \<Longrightarrow> platform_step P (actors S) T \<or> T = actors S \<Longrightarrow> server_inv T"
  by (auto simp: mail_inv_def intro: server_inv_step)

lemma mail_inv_sharing: "mail_inv S \<Longrightarrow> sharing_ok (client_actor (actors S))"
  by (simp add: mail_inv_def server_inv_def)

lemma mail_inv_new: "mail_inv (create_udp meta)"
  by (simp add: mail_inv_def create_udp_def server_inv_new)
    (simp add: Server_new_def ClientActor_new_def clients_known_def Group_default_def packets_held_def)

text \<open>Hearing of an address, and what a datagram of that address makes \<open>UdpRecv\<close> send.\<close>

lemma mail_inv_heard:
  assumes "mail_inv S"
  shows "mail_inv (S\<lparr>heard := insert a (heard S)\<rparr>)"
proof -
  have m: "heard S \<subseteq> insert a (heard S)" by blast
  note mono = ok_mono [OF m order_refl]
  show ?thesis
    using assms clients_known_mono [OF _ m] unfolding mail_inv_def
    by (auto elim!: list.pred_mono_strong intro: mono)
qed

lemma mail_inv_datagram:
  assumes "mail_inv S" and "WebRtcRequest_from be (b, a) = Ret req" and "a \<in> heard S"
  shows "mail_inv (fold post (handle_Datagram req u) S)"
  using assms(1,3) WebRtcRequest_from_classified [OF assms(2)]
  by (auto simp: handle_Datagram_def Let_def mail_inv_def send_ok_def split: WebRtcRequest.splits option.splits)

lemma mail_inv_arrival: "arrival P S S' \<Longrightarrow> mail_inv S \<Longrightarrow> mail_inv S'"
proof -
  assume a: "arrival P S S'" and S: "mail_inv S"
  note srv = mail_inv_server [OF S arrival_simulates [OF a]]
  from a show ?thesis
  proof (cases rule: arrival.cases)
    case (datagram received)
    from datagram(2) show ?thesis
    proof (cases rule: datagram_turn_Ret)
      case (packet b a req)
      then show ?thesis
        using mail_inv_datagram [OF mail_inv_heard [OF S] packet(2)] by simp
    qed (use S in \<open>simp add: mail_inv_def\<close>)
  next
    case (registration m)
    then show ?thesis
      using S srv registration_turn_Ret [OF registration(2,1)] by (auto simp: mail_inv_def)
  next
    case (tls_record addr message)
    then have "addr \<in> heard S"
      using S by (simp add: mail_inv_def list_all_iff)
    then show ?thesis
      using S tls_record by (simp add: mail_inv_def record_turn_def handle_DtlsMessage_def create_outgoing_def send_ok_def)
  qed
qed

text \<open>The handlers and tasks of the server itself.\<close>

lemma mail_inv_jitter:
  assumes "mail_inv S" and "jitter_ok (heard S) m" and "jitter_turn clk m S = Ret S'" and "server_inv (actors S')"
  shows "mail_inv S'"
proof -
  obtain rs j where h: "handle_jitter (jitter_control (actors S)) (clk, m) = Ret (rs, j)"
    and S': "S' = fold start_recv_task rs (S\<lparr>actors := (actors S)\<lparr>jitter_control := j\<rparr>\<rparr>)"
    using assms(3) by (auto simp: jitter_turn_def rust_iffs)
  have held: "packets_held (jitter_control (actors S))"
    using assms(1) by (simp add: mail_inv_def)
  note r = handle_jitter_Ret [OF h assms(2) held]
  have "rs = [] \<or> (\<exists>y. rs = [y])"
    using r(3) by (cases rs) auto
  then show ?thesis
    using assms(1,4) r(1,2) by (auto simp: S' mail_inv_def start_recv_task_def)
qed

lemma recv_task_turn_ok:
  assumes "recv_task_turn n a r = (left, out)" and "reply_ok H (a, r)"
  shows "list_all (rtc_ok H \<circ> snd) out" and "left = Some r' \<Longrightarrow> reply_ok H (a, r')"
  using assms by (auto simp: reply_ok_def rtc_ok_def elim!: recv_task_turn.elims)

lemma mail_inv_rtc:
  assumes "mail_inv S" and "rtc_ok (heard S) m" and "rtc_turn P clk sched m S = Ret S'" and "server_inv (actors S')"
  shows "mail_inv S'"
proof -
  obtain warned out w where h: "handle_Rtc (build P) (byteorder_lib P) (srtp_lib P) (bimap_lib P) clk sched m
      (client_actor (actors S)) = Ret (warned, out, w)" and S': "S' = fold post_rtc out (set_client w S)"
    using assms(3) by (auto simp: rtc_turn_def rust_iffs)
  note k = handle_Rtc_keeps [OF h]
  have "dom (client_storage (client_actor (actors S))) \<subseteq> heard S"
    using assms(1) by (simp add: mail_inv_def clients_known_def)
  then have "send_ok (heard S) q" if "ToUdp q \<in> set out" for q
    using rtc_sends_registered [OF mail_inv_sharing [OF assms(1)] h that] by (auto simp: send_ok_def)
  then have "list_all (send_ok (heard S)) (datagrams out)"
    by (simp add: list_all_iff set_outputs)
  moreover have "list_all (jitter_ok (heard S)) (jitter_messages out)"
    using assms(2) by (auto simp: list_all_iff set_outputs rtc_ok_def dest!: handle_Rtc_jitter [OF h])
  ultimately show ?thesis
    using assms(1,4) by (simp add: S' fold_post_rtc mail_inv_def same_core_known [OF k] same_core_length [OF k])
qed

lemma task_ok_grow:
  "list_all (task_ok H L \<circ> snd) ts \<Longrightarrow> L \<le> L' \<Longrightarrow> list_all (task_ok H L' \<circ> snd) ts"
  using ok_mono(6) [OF order_refl] by (auto elim!: list.pred_mono_strong)

lemma mail_inv_set_client:
  assumes "mail_inv S" and "clients_known (heard S) w" and "length (heap (client_actor (actors S))) \<le> length (heap w)"
    and "server_inv ((actors S)\<lparr>client_actor := w\<rparr>)"
  shows "mail_inv (set_client w S)"
  using assms task_ok_grow unfolding mail_inv_def by auto

lemma server_step_length:
  "platform_step P T T' \<or> T' = T \<Longrightarrow> length (heap (client_actor T)) \<le> length (heap (client_actor T'))"
  by (auto dest!: server_step_advances simp: advances_def)

lemma mail_inv_client:
  fixes S :: "('s, 'b) System" and P :: "('s, 'b) platform"
  assumes S: "mail_inv S" and m: "client_ok (heard S) m" and t: "client_turn now draws m S = Ret S'"
  shows "mail_inv S'"
proof -
  note sim = client_turn_simulates [OF t, of P]
  note srv = mail_inv_server [OF S sim] and len = server_step_length [OF sim]
  have kn: "clients_known (heard S) (client_actor (actors S))"
    using S by (simp add: mail_inv_def)
  have set: "mail_inv S'" if "S' = set_client w S" "clients_known (heard S) w" for w
    using mail_inv_set_client [OF S that(2)] srv len by (simp add: that(1))
  show ?thesis
  proof (cases m)
    case (ClientRequest q)
    then obtain message a where q: "q = Dtls message a" "a \<in> heard S"
      using m by (auto split: WebRtcRequest.splits)
    obtain r att w where h: "handle_Dtls now a (client_actor (actors S)) = ((r, att), w)"
      by (metis prod.exhaust)
    note k = handle_Dtls_known [OF h kn q(2) mail_inv_sharing [OF S]]
    have S': "S' = (set_client w S)\<lparr>streams := streams S @ (if att then [a] else []),
        dtls_tasks := dtls_tasks S @ [(next_task S, PushTask r message a)], next_task := Suc (next_task S)\<rparr>"
      using t by (simp add: ClientRequest q start_dtls_task_def h)
    have "mail_inv (set_client w S)"
      using mail_inv_set_client [OF S k(1,3)] srv by (simp add: S')
    then show ?thesis
      using q(2) k(2) by (simp add: S' mail_inv_def)
  next
    case (ClientDelete n a)
    then show ?thesis using t set handle_DeleteMessage_known [OF kn] by auto
  next
    case (ClientGroup k a s)
    then show ?thesis using t m set handle_GroupId_known [OF _ kn] by (auto simp: rust_iffs)
  next
    case (ClientMedia a md)
    then show ?thesis using t set handle_MediaAddrMessage_known [OF kn] by auto
  qed
qed

lemma mail_inv_dtls_task:
  fixes S :: "('s, 'b) System" and P :: "('s, 'b) platform"
  assumes S: "mail_inv S" and ok: "task_ok (heard S) (length (heap (client_actor (actors S)))) t"
    and t: "dtls_task_turn (srtp_lib P) pushed env ssl_read n t S = (left, S')"
  shows "mail_inv S'"
    and "left = Some t' \<Longrightarrow> task_ok (heard S') (length (heap (client_actor (actors S')))) t'"
    and "dtls_tasks S' = dtls_tasks S"
proof -
  have ask: "mail_inv (ask_deletion n a del S1)" if "mail_inv S1" "a \<in> heard S1" for a del S1
    using that by (simp add: ask_deletion_def mail_inv_def)
  have con: "mail_inv (ask_deletion n a del (set_client w S))"
    if "dtls_connect (srtp_lib P) env r (client_actor (actors S)) = (del, w)" "t = ConnectTask r a" for r a del w
  proof (rule ask [OF mail_inv_set_client [OF S]])
    note sim = dtls_task_turn_simulates [OF t ok]
    show "server_inv ((actors S)\<lparr>client_actor := w\<rparr>)"
      using mail_inv_server [OF S sim] t that by auto
    show "length (heap (client_actor (actors S))) \<le> length (heap w)"
      using server_step_length [OF sim] t that by auto
    show "clients_known (heard S) w"
      using dtls_connect_known [OF that(1)] S by (simp add: mail_inv_def)
  qed (use ok that in simp)
  show "mail_inv S'"
    using t S ok con by (cases t) (auto split: prod.splits intro: ask)
  show "left = Some t' \<Longrightarrow> task_ok (heard S') (length (heap (client_actor (actors S')))) t'"
    using t ok by (cases t) (auto simp: ask_deletion_def split: prod.splits task_next.splits)
  show "dtls_tasks S' = dtls_tasks S"
    using t by (cases t) (auto simp: ask_deletion_def split: prod.splits)
qed

lemma handle_udp_send_addressed:
  assumes "handle_udp_send be cr meta uninit m = Ret out" and "send_ok H m"
  shows "list_all (\<lambda>(a, b). a \<in> H) out"
proof (cases m)
  case (Stun req a)
  with assms show ?thesis
    by (cases "write_stun_success_response be cr (transaction_id req) a (as_bytes (password meta)) uninit")
      (auto simp: handle_udp_send_def send_ok_def split: sum.splits)
qed (use assms in \<open>auto simp: handle_udp_send_def send_ok_def\<close>)

lemma list_all_resume:
  "list_all Q (resume_with t xs left ys) \<longleftrightarrow>
     list_all Q xs \<and> (\<forall>v. left = Some v \<longrightarrow> Q (fst t, v)) \<and> list_all Q ys"
  by (auto simp: resume_with_def split: option.splits)

lemma mail_inv_internal:
  assumes "internal P S S'" and S: "mail_inv S"
  shows "mail_inv S'"
proof -
  note srv = mail_inv_server [OF S internal_simulates [OF assms]]
  from assms(1) show ?thesis
  proof (cases rule: internal.cases)
    case (jitter m rest clk)
    have "mail_inv (S\<lparr>jitter_box := rest\<rparr>)" "jitter_ok (heard S) m"
      using S jitter(1) by (simp_all add: mail_inv_def)
    then show ?thesis
      using mail_inv_jitter [OF _ _ jitter(2) srv] by simp
  next
    case (recv_task xs n addr r ys left out)
    have "reply_ok (heard S) (addr, r)"
      using S recv_task(1) by (simp add: mail_inv_def)
    note ok = recv_task_turn_ok [OF recv_task(3) this]
    show ?thesis
      using S ok recv_task(1) by (auto simp: recv_task(4) mail_inv_def list_all_resume)
  next
    case (rtc xs t m ys clk sched)
    have "mail_inv (S\<lparr>rtc_box := xs @ ys, handled := handled S @ [(t, m)]\<rparr>)" "rtc_ok (heard S) m"
      using S rtc(1) by (simp_all add: mail_inv_def)
    then show ?thesis
      using mail_inv_rtc [OF _ _ rtc(3) srv] by simp
  next
    case (client m rest now draws)
    have "mail_inv (S\<lparr>client_box := rest\<rparr>)" "client_ok (heard S) m"
      using S client(1) by (simp_all add: mail_inv_def)
    then show ?thesis
      using mail_inv_client [OF _ _ client(2)] by simp
  next
    case (dtls_task xs n t ys pushed env ssl_read left S1)
    have "task_ok (heard S) (length (heap (client_actor (actors S)))) t"
      using S dtls_task(1) by (simp add: mail_inv_def)
    note k = mail_inv_dtls_task [OF S this dtls_task(3)]
    show ?thesis
      using k(1,2) k(1) [unfolded mail_inv_def k(3) dtls_task(1)]
      by (auto simp: dtls_task(4) mail_inv_def list_all_resume)
  next
    case (send m rest uninit)
    then show ?thesis
      using S by (auto simp: mail_inv_def send_turn_def rust_iffs dest: handle_udp_send_addressed)
  qed
qed

text \<open>
  The server with mailboxes refines the server in which any handler may run on any message, so what
  holds in every reachable state of the latter holds for the former.
\<close>

interpretation mailboxes: refinement_mapping "system_step P" "platform_step P" actors mail_inv for P
proof
  show "mail_inv t" if "mail_inv s" "system_step P s t" for s t
    using that mail_inv_arrival mail_inv_internal by (auto simp: system_step_def)
  show "platform_step P (actors s) (actors t) \<or> actors t = actors s" if "mail_inv s" "system_step P s t" for s t
    using that arrival_simulates [of P s t] internal_simulates [of P s t] by (auto simp: system_step_def)
qed

lemma system_reachable_inv: "system_reachable P S \<Longrightarrow> mail_inv S"
  using mailboxes.run_inv mail_inv_new by (auto simp: system_reachable_def)

lemma server_reachable_run:
  "(server_step p be sc bm)\<^sup>*\<^sup>* T T' \<Longrightarrow> server_reachable p be sc bm T \<Longrightarrow> server_reachable p be sc bm T'"
  by (induction rule: rtranclp_induct) (auto intro: server_reachable.step)

lemma system_reachable_step: "system_reachable P S \<Longrightarrow> system_step P S S' \<Longrightarrow> system_reachable P S'"
  unfolding system_reachable_def by (meson rtranclp.rtrancl_into_rtrancl)

section \<open>Properties\<close>

text \<open>A platform and a run for the witnesses: a DTLS record creates a client, whose answer is sent.\<close>

definition demo_platform :: "(nat, (string \<rightharpoonup> u8) \<times> (u8 \<rightharpoonup> string)) platform" where
  "demo_platform = \<lparr>build = Release, byteorder_lib = NetworkEndian, srtp_lib = counting_crate,
     bimap_lib = two_maps, stun_lib = toy_crypto, num_cpus = 2\<rparr>"

abbreviation demo_start :: "(nat, (string \<rightharpoonup> u8) \<times> (u8 \<rightharpoonup> string)) System" where
  "demo_start \<equiv> create_udp \<lparr>user = ''a'', password = ''pw''\<rparr>"

definition demo_received :: "(nat, (string \<rightharpoonup> u8) \<times> (u8 \<rightharpoonup> string)) System" where
  "demo_received = demo_start\<lparr>client_box := [ClientRequest (Dtls [22, 1] addr1)],
     jitter_box := [GetOrStoreJitterBuffer addr1 rtcp_packet], heard := {addr1}\<rparr>"

definition demo_queued :: "(nat, (string \<rightharpoonup> u8) \<times> (u8 \<rightharpoonup> string)) System" where
  "demo_queued = (start_dtls_task 0 [22, 1] addr1 (demo_received\<lparr>client_box := []\<rparr>))\<lparr>send_box := [Dtls [22, 9] addr1]\<rparr>"

definition demo_answered :: "(nat, (string \<rightharpoonup> u8) \<times> (u8 \<rightharpoonup> string)) System" where
  "demo_answered = demo_queued\<lparr>send_box := [], sent := [(addr1, [22, 9])]\<rparr>"

lemma demo_received_reachable: "system_reachable demo_platform demo_received"
proof -
  let ?S = "demo_start\<lparr>client_box := [ClientRequest (Dtls [22, 1] addr1)], heard := {addr1}\<rparr>"
  have d: "\<not> rtp_like [22, 1]" "parse_stun_binding_request NetworkEndian [22, 1] = Ret None" "is_dtls [22, 1] = Ret True"
    by (simp_all add: rtp_like_def parse_stun_binding_request_def stun_consts is_dtls_eq dtls_like_def)
  have "datagram_turn NetworkEndian (Inr ([22, 1], addr1)) demo_start = Ret ?S"
    using d by (simp add: datagram_turn_def recv_datagram_def WebRtcRequest_from_def handle_Datagram_def create_udp_def)
  then have 1: "system_step demo_platform demo_start ?S"
    using arrival.datagram [of demo_start demo_platform] by (auto simp: system_step_def demo_platform_def create_udp_def)
  have "datagram_turn NetworkEndian (Inr (rtcp_packet, addr1)) ?S = Ret demo_received"
    by (simp add: datagram_turn_def recv_datagram_def WebRtcRequest_from_def handle_Datagram_def create_udp_def
        demo_received_def rtcp_packet_def rtp_like_def drop_bit_eq_div)
  then have "system_step demo_platform ?S demo_received"
    using arrival.datagram [of ?S demo_platform] by (auto simp: system_step_def demo_platform_def create_udp_def)
  with 1 show ?thesis
    unfolding system_reachable_def by (meson converse_rtranclp_into_rtranclp r_into_rtranclp)
qed

definition demo_media :: "(nat, (string \<rightharpoonup> u8) \<times> (u8 \<rightharpoonup> string)) System" where
  "demo_media = demo_received\<lparr>jitter_box := [], rtc_box := [(None, Rtc rtcp_packet addr1)], next_task := 1\<rparr>"

lemma demo_media_reachable: "system_reachable demo_platform demo_media"
proof -
  let ?S = "demo_received\<lparr>jitter_box := [], recv_tasks := [(0, addr1, Packet rtcp_packet)], next_task := 1\<rparr>"
  have "rtcp_like rtcp_packet"
    by (simp add: rtcp_like_def rtp_like_def rtcp_packet_def drop_bit_eq_div)
  then have "internal demo_platform demo_received ?S"
    by (intro internal.jitter [where m = "GetOrStoreJitterBuffer addr1 rtcp_packet" and rest = "[]" and clk = "\<lambda>_. 0"])
      (simp_all add: demo_received_def jitter_turn_def handle_GetOrStoreJitterBuffer_def create_udp_def Server_new_def
        start_recv_task_def)
  moreover have "internal demo_platform ?S demo_media"
    by (rule internal.recv_task [where xs = "[]" and ys = "[]" and n = 0 and addr = addr1
          and r = "Packet rtcp_packet" and left = None and out = "[(None, Rtc rtcp_packet addr1)]"])
      (simp_all add: demo_received_def demo_media_def create_udp_def awaits_rtc_def resume_with_def)
  ultimately show ?thesis
    using demo_received_reachable system_reachable_step unfolding system_step_def by metis
qed

lemmas demo_defs = demo_received_def demo_queued_def demo_answered_def create_udp_def Server_new_def
  ClientActor_new_def start_dtls_task_def handle_Dtls_def entry_client_def client_at_def Client_default_def

lemma demo_queued_reachable: "system_reachable demo_platform demo_queued"
proof -
  let ?S = "start_dtls_task 0 [22, 1] addr1 (demo_received\<lparr>client_box := []\<rparr>)"
  have "internal demo_platform demo_received ?S"
    by (rule internal.client [where m = "ClientRequest (Dtls [22, 1] addr1)"]) (simp_all add: demo_received_def)
  moreover have "arrival demo_platform ?S demo_queued"
    by (rule arrival.tls_record [where addr = addr1 and message = "[22, 9]"])
      (simp_all add: demo_defs record_turn_def handle_DtlsMessage_def create_outgoing_def)
  ultimately show ?thesis
    using demo_received_reachable system_reachable_step unfolding system_step_def by metis
qed

lemma demo_answered_reachable: "system_reachable demo_platform demo_answered"
proof -
  have "internal demo_platform demo_queued demo_answered"
    by (rule internal.send [where m = "Dtls [22, 9] addr1" and uninit = "replicate 1200 0"])
      (simp_all add: demo_defs send_turn_def handle_udp_send_def)
  then show ?thesis
    using demo_queued_reachable system_reachable_step unfolding system_step_def by metis
qed

text \<open>
  Running with mailboxes refines the model of the actors: whatever the order in which datagrams
  arrive, mailboxes are served and tasks go on, the actors' states are reachable by running their
  handlers one at a time, so every invariant of the actors holds in the running server.
\<close>

lemma mailboxes_refine_server:
  assumes "system_reachable P S"
  shows "server_reachable (build P) (byteorder_lib P) (srtp_lib P) (bimap_lib P) (actors S)"
proof -
  obtain meta where run: "(system_step P)\<^sup>*\<^sup>* (create_udp meta) S"
    using assms by (auto simp: system_reachable_def)
  from server_reachable_run [OF mailboxes.run_simulates [OF run mail_inv_new]] show ?thesis
    by (simp add: create_udp_def server_reachable.start)
qed

text \<open>
  C9. The mailboxes are well typed: in the running server the client actor only gets DTLS requests, the
  media actor only gets RTP and RTCP packets, whose header it can read, and the sending actor never gets
  an unknown request; the branches of the handlers for other requests never run.
\<close>

theorem mailboxes_well_typed:
  assumes "system_reachable P S" and "network_endian (byteorder_lib P)"
  shows "(\<forall>q. ClientRequest q \<in> set (client_box S) \<longrightarrow> (\<exists>m a. q = Dtls m a)) \<and>
    (\<forall>t q. (t, q) \<in> set (rtc_box S) \<longrightarrow> (\<exists>m a h. q = Rtc m a \<and> from_buf (byteorder_lib P) m = Ret (Inr h))) \<and>
    Unknown \<notin> set (send_box S)"
proof (intro conjI allI impI)
  note inv = system_reachable_inv [OF assms(1), unfolded mail_inv_def]
  show "\<exists>m a. q = Dtls m a" if "ClientRequest q \<in> set (client_box S)" for q
    using inv that by (force simp: list_all_iff split: WebRtcRequest.splits)
  show "\<exists>m a h. q = Rtc m a \<and> from_buf (byteorder_lib P) m = Ret (Inr h)" if "(t, q) \<in> set (rtc_box S)" for t q
  proof -
    have "rtc_ok (heard S) q"
      using inv that by (auto simp: list_all_iff)
    then show ?thesis
      using from_buf_eq [OF assms(2)] by (auto simp: rtc_ok_def split: WebRtcRequest.splits)
  qed
  show "Unknown \<notin> set (send_box S)"
    using inv by (auto simp: list_all_iff send_ok_def)
qed

theorem mailboxes_well_typed_witness:
  "client_box demo_media = [ClientRequest (Dtls [22, 1] addr1)] \<and>
   rtc_box demo_media = [(None, Rtc rtcp_packet addr1)] \<and>
   (\<exists>h. from_buf NetworkEndian rtcp_packet = Ret (Inr h)) \<and> Unknown \<notin> set (send_box demo_media)"
proof -
  have "(None, Rtc rtcp_packet addr1) \<in> set (rtc_box demo_media)"
    by (simp add: demo_media_def)
  with mailboxes_well_typed [OF demo_media_reachable] have
    "(\<exists>h. from_buf NetworkEndian rtcp_packet = Ret (Inr h)) \<and> Unknown \<notin> set (send_box demo_media)"
    by (fastforce simp: demo_platform_def)
  then show ?thesis
    by (simp add: demo_media_def demo_received_def)
qed

text \<open>
  C6. The server never sends to an address it has not heard from: whatever the offers name and
  whatever the clients send, a datagram given to the socket goes to the source address of a datagram
  that arrived.
\<close>

theorem sent_only_to_heard:
  assumes "system_reachable P S" and "(a, m) \<in> set (sent S)"
  shows "a \<in> heard S"
  using system_reachable_inv [OF assms(1)] assms(2) by (auto simp: mail_inv_def list_all_iff)

theorem sent_only_to_heard_witness: "(addr1, [22, 9]) \<in> set (sent demo_answered) \<and> addr1 \<in> heard demo_answered"
  using sent_only_to_heard [OF demo_answered_reachable, of addr1 "[22, 9]"] by (simp add: demo_answered_def)

end
