(* ===== verification/Mailbox_Progress.thy ===== *)
theory Mailbox_Progress
  imports Mailbox_Invariant
begin

text \<open>
  The running server works off what is in its mailboxes: every step of its own replaces one piece of
  pending work by smaller ones, so it cannot go on forever; and unless the client actor is deadlocked,
  it can go on until all mailboxes are empty.
\<close>

section \<open>The server works off its mailboxes\<close>

text \<open>
  What is pending, as ranks: a DTLS record for the client actor, then the stages of its task; a packet
  for the jitter actor, then the task its reply wakes and the packets of its buffer; a packet for the
  media actor; messages that cause no others.
\<close>

primrec client_rank :: "'b client_message \<Rightarrow> nat" where
  "client_rank (ClientRequest q) = 5"
| "client_rank (ClientDelete n a) = 0"
| "client_rank (ClientGroup k a s) = 0"
| "client_rank (ClientMedia a md) = 0"

primrec jitter_rank :: "JitterMessage \<Rightarrow> nat" where
  "jitter_rank (IncreaseJitterBufferDelay a) = 0"
| "jitter_rank (DecreaseJitterBufferDelay a) = 0"
| "jitter_rank (GetOrStoreJitterBuffer a m) = 4"

fun reply_ranks :: "GetOrStoreJitterBufferResponse \<Rightarrow> nat list" where
  "reply_ranks (Buffer (Some b)) = 3 # replicate (length b) 2"
| "reply_ranks r = [3]"

primrec dtls_rank :: "dtls_task \<Rightarrow> nat" where
  "dtls_rank (PushTask r m a) = 4"
| "dtls_rank (StatusTask r a) = 3"
| "dtls_rank (ConnectTask r a) = 2"
| "dtls_rank (ExtractTask r a) = 2"

definition pending :: "('s, 'b) System \<Rightarrow> nat multiset" where
  "pending S = mset (map client_rank (client_box S)) + mset (map jitter_rank (jitter_box S)) +
     mset (map (\<lambda>_. 1) (rtc_box S)) + mset (map (\<lambda>_. 0) (send_box S)) +
     mset (concat (map (\<lambda>(n, a, r). reply_ranks r) (recv_tasks S))) +
     mset (map (\<lambda>(n, t). dtls_rank t) (dtls_tasks S))"

lemma pending_empty:
  "pending S = {#} \<longleftrightarrow> client_box S = [] \<and> jitter_box S = [] \<and> rtc_box S = [] \<and> send_box S = [] \<and>
     recv_tasks S = [] \<and> dtls_tasks S = []"
proof -
  have "reply_ranks r \<noteq> []" for r
    by (cases r rule: reply_ranks.cases) simp_all
  then have "concat (map (\<lambda>(n, a, r). reply_ranks r) (recv_tasks S)) = [] \<longleftrightarrow> recv_tasks S = []"
    by (cases "recv_tasks S") auto
  then show ?thesis
    by (simp add: pending_def)
qed

lemma client_turn_works:
  assumes "client_turn now draws m S = Ret S'"
  shows "\<exists>K. pending S' = pending S + K \<and> (\<forall>k \<in># K. k < client_rank m)"
proof (cases m)
  case (ClientRequest q)
  then show ?thesis
    using assms by (cases q) (auto simp: start_dtls_task_def pending_def split: prod.splits)
qed (use assms in \<open>auto simp: pending_def rust_iffs\<close>)

lemma dtls_task_turn_works:
  assumes "dtls_task_turn sc pushed env ssl_read n t S = (left, S')" and "dtls_tasks S = xs @ (n, t) # ys"
  shows "works_off (pending S) (pending (S'\<lparr>dtls_tasks := resume_with (n, t) xs left ys\<rparr>))"
proof -
  define R where "R = pending (S\<lparr>dtls_tasks := xs @ ys\<rparr>)"
  have P: "pending S = add_mset (dtls_rank t) R"
    by (simp add: R_def pending_def assms(2))
  have "\<exists>K. pending (S'\<lparr>dtls_tasks := resume_with (n, t) xs left ys\<rparr>) = R + K \<and> (\<forall>k \<in># K. k < dtls_rank t)"
    using assms by (cases t) (auto simp: R_def pending_def resume_with_def ask_deletion_def
        split: prod.splits task_next.splits)
  then show ?thesis
    using P by (auto intro: works_offI)
qed

lemma recv_task_turn_works:
  assumes "recv_task_turn n a r = (left, out)" and "recv_tasks S = xs @ (n, a, r) # ys"
  shows "works_off (pending S) (pending (S\<lparr>recv_tasks := resume_with (n, a, r) xs (map_option (Pair a) left) ys,
    rtc_box := rtc_box S @ out\<rparr>))"
proof -
  define R where "R = pending (S\<lparr>recv_tasks := xs @ ys\<rparr>)"
  have P: "pending S = R + mset (reply_ranks r)"
    by (simp add: R_def pending_def assms(2))
  have Q: "pending (S\<lparr>recv_tasks := resume_with (n, a, r) xs (map_option (Pair a) left) ys,
      rtc_box := rtc_box S @ out\<rparr>) = R + (case left of None \<Rightarrow> {#} | Some r \<Rightarrow> mset (reply_ranks r)) +
        mset (map (\<lambda>_. 1) out)"
    by (auto simp: R_def pending_def resume_with_def split: option.splits)
  consider (head) m b where "r = Buffer (Some (m # b))" | (one) m where "r = Packet m"
    | (over) "r = Buffer (Some []) \<or> r = Buffer None"
    by (metis GetOrStoreJitterBufferResponse.exhaust list.exhaust option.exhaust)
  then show ?thesis
  proof cases
    case (head m b)
    with assms(1) have "left = Some (Buffer (Some b))" "out = [(Some n, Rtc m a)]" by auto
    with head show ?thesis
      unfolding P Q
      by (intro works_offI [where a = 2 and R = "R + mset (reply_ranks (Buffer (Some b)))" and K = "{#1#}"]) auto
  next
    case (one m)
    with assms(1) have "left = None" "out = [(None, Rtc m a)]" by auto
    with one show ?thesis
      unfolding P Q by (intro works_offI [where a = 3 and R = R and K = "{#1#}"]) auto
  next
    case over
    with assms(1) have "left = None" "out = []" by auto
    then show ?thesis
      using over unfolding P Q by (intro works_offI [where a = 3 and R = R and K = "{#}"]) auto
  qed
qed

lemma jitter_turn_works:
  assumes "jitter_turn clk m S = Ret S'"
  shows "\<exists>K. pending S' = pending S + K \<and> (\<forall>k \<in># K. k < jitter_rank m)"
proof -
  obtain rs j where h: "handle_jitter (jitter_control (actors S)) (clk, m) = Ret (rs, j)"
    and S': "S' = fold start_recv_task rs (S\<lparr>actors := (actors S)\<lparr>jitter_control := j\<rparr>\<rparr>)"
    using assms by (auto simp: jitter_turn_def rust_iffs)
  have small: "k < 4" if "k \<in> set (reply_ranks r)" for k r
    using that by (cases r rule: reply_ranks.cases) (auto split: if_splits)
  have "rs = [] \<or> jitter_rank m = 4 \<and> (\<exists>a r. rs = [(a, r)])"
    using h by (cases m) (auto simp: rust_iffs)
  then show ?thesis
    using small by (auto simp: S' pending_def start_recv_task_def)
qed

lemma rtc_turn_works:
  assumes "rtc_turn P clk sched m S = Ret S'"
  shows "\<exists>K. pending S' = pending S + K \<and> (\<forall>k \<in># K. k < 1)"
proof -
  obtain warned out w where h: "handle_Rtc (build P) (byteorder_lib P) (srtp_lib P) (bimap_lib P) clk sched m
      (client_actor (actors S)) = Ret (warned, out, w)" and S': "S' = fold post_rtc out (set_client w S)"
    using assms by (auto simp: rtc_turn_def rust_iffs)
  have "jitter_rank j = 0" if "j \<in> set (jitter_messages out)" for j
    using that by (auto simp: set_outputs dest!: handle_Rtc_jitter [OF h])
  then show ?thesis
    by (auto simp: S' fold_post_rtc pending_def)
qed

interpretation mail_work: working "internal P" pending for P
proof
  fix S S'
  assume "internal P S S'"
  then show "works_off (pending S) (pending S')"
  proof (cases rule: internal.cases)
    case (jitter m rest clk)
    then show ?thesis
      using jitter_turn_works [OF jitter(2)] by (auto simp: pending_def intro!: works_offI)
  next
    case (rtc xs t m ys clk sched)
    then show ?thesis
      using rtc_turn_works [OF rtc(3)] by (auto simp: pending_def intro!: works_offI)
  next
    case (client m rest now draws)
    then show ?thesis
      using client_turn_works [OF client(2)] by (auto simp: pending_def intro!: works_offI)
  next
    case (send m rest uninit)
    then show ?thesis
      by (auto simp: pending_def send_turn_def rust_iffs intro!: works_offI [where K = "{#}"])
  qed (auto simp: recv_task_turn_works dtls_task_turn_works)
qed

subsection \<open>No mailbox gets stuck\<close>

text \<open>
  What progress needs of the platform: the release build (the debug build panics on overflows), the
  documented behaviour of the crates, and at least one thread. \<open>srtp_unprotect\<close> gives back a packet
  with its header of twelve bytes.
\<close>

definition keeps_header :: "'s srtp_crate \<Rightarrow> bool" where
  "keeps_header sc \<longleftrightarrow>
     (\<forall>s m m' s'. srtp_unprotect sc s m = (Inr m', s') \<and> 12 \<le> length m \<longrightarrow> 12 \<le> length m')"

definition platform_ok :: "('s, 'b) platform \<Rightarrow> bool" where
  "platform_ok P \<longleftrightarrow> build P = Release \<and> network_endian (byteorder_lib P) \<and> stun_crypto_laws (stun_lib P) \<and>
     keeps_header (srtp_lib P) \<and> 0 < num_cpus P"

text \<open>The client actor waits for a lock it holds.\<close>

definition deadlocked :: "('s, 'b) System \<Rightarrow> bool" where
  "deadlocked S =
     (case client_box S of
        ClientGroup k a s # rest \<Rightarrow> handle_GroupId k a s (client_actor (actors S)) = Abort SelfDeadlock
      | _ \<Rightarrow> False)"

lemma fan_out_returns: "(\<And>x v. returns (f x v)) \<Longrightarrow> returns (fan_out f xs w)"
proof (induction xs arbitrary: w)
  case (Cons x xs)
  from Cons.prems [of x w] obtain y where y: "f x w = Ret y"
    by (auto simp: returns_iff)
  obtain res out w' where y': "y = (res, out, w')"
    by (cases y)
  from Cons.IH [OF Cons.prems, of w'] obtain z where "fan_out f xs w' = Ret z"
    by (auto simp: returns_iff)
  then show ?case
    by (simp add: y y' split: prod.splits)
qed simp

lemma forward_to_returns:
  assumes "rtcp \<longrightarrow> codec = None"
  shows "returns (forward_to sc bm rtcp codec h a m x w)"
  using assms by (cases x) (auto simp: forward_to_def prepare_payload_def Let_def
      split: option.splits sum.splits prod.splits)

lemma deliver_returns:
  assumes "rtcp \<longrightarrow> codec = None"
  shows "returns (deliver sc bm sched rtcp codec h a r m w)"
  using assms by (simp add: deliver_def fan_out_returns forward_to_returns)

lemma decrypt_length:
  assumes "decrypt_package sc False h a r b w = (Inr m, w')" and "keeps_header sc" and "rtp_like b"
  shows "12 \<le> length m"
proof -
  obtain s s' where "srtp_unprotect sc s b = (Inr m, s')"
    using assms(1) by (auto simp: decrypt_package_def unprotect_def Let_def
        split: option.splits prod.splits sum.splits if_splits)
  moreover have "12 \<le> length b"
    using assms(3) by (simp add: rtp_like_def)
  ultimately show ?thesis
    using assms(2) unfolding keeps_header_def by blast
qed

lemma replace_meta_returns:
  assumes "network_endian be" and "8 \<le> length m"
  shows "\<exists>clk. returns (replace_meta Release be clk h codec a r m w)"
proof (cases codec)
  case (Some nf)
  obtain name f where nf: "nf = (name, f)" by (cases nf)
  show ?thesis
  proof (cases "rtp_runtime_storage (client_at w r) f")
    case (Some rt)
    let ?clk = "\<lambda>_ :: nat. started_time rt + prev_time_diff rt"
    obtain d e rt' where "advance_runtime Release (?clk 0) h rt = Ret (d, e, rt')"
      using advance_runtime_Release [of rt "?clk 0" h] by (auto simp: elapsed_def)
    from replace_meta_Release [where clk = ?clk, OF assms Some this, of name a] show ?thesis
      by (auto simp: \<open>codec = Some nf\<close> nf intro!: exI [of _ ?clk])
  qed (simp add: replace_meta_def Some nf)
qed (simp add: replace_meta_def)

lemma rtc_process_returns:
  assumes "network_endian be" and "keeps_header sc" and "rtp_like b"
  shows "\<exists>clk. \<forall>sched. returns (rtc_process Release be sc bm clk sched rtcp h a r b w)"
proof -
  let ?codec = "codec_n_frequency bm rtcp h (client_at w r)"
  obtain dec w1 where d: "decrypt_package sc rtcp h a r b w = (dec, w1)"
    by fastforce
  have dl: "returns (deliver sc bm sched rtcp ?codec h a r m v)" for sched m v
    by (rule deliver_returns) (simp add: codec_n_frequency_def)
  show ?thesis
  proof (cases dec)
    case (Inr m)
    have "\<exists>clk. returns (if rtcp then Ret (Inr m, [], w1) else replace_meta Release be clk h ?codec a r m w1)"
      using replace_meta_returns [OF assms(1), of m] decrypt_length [OF _ assms(2,3), of h a r w m w1] d Inr
      by (cases rtcp) auto
    then obtain clk x out w2 where x: "(if rtcp then Ret (Inr m, [], w1)
        else replace_meta Release be clk h ?codec a r m w1) = Ret (x, out, w2)"
      by (auto simp: returns_iff)
    have "returns (rtc_process Release be sc bm clk sched rtcp h a r b w)" for sched
      using dl [of sched "projr x" w2]
      by (cases x) (auto simp: rtc_process_def d Inr x returns_iff)
    then show ?thesis by blast
  qed (simp add: rtc_process_def d)
qed

lemma handle_Rtc_returns:
  assumes "network_endian be" and "keeps_header sc" and "rtc_ok H q"
  shows "\<exists>clk. \<forall>sched. returns (handle_Rtc Release be sc bm clk sched q w)"
proof -
  obtain b a where q: "q = Rtc b a" and b: "rtp_like b"
    using assms(3) by (auto simp: rtc_ok_def split: WebRtcRequest.splits)
  obtain h where h: "from_buf be b = Ret (Inr h)"
    using from_buf_eq [OF assms(1), of b] b by simp
  show ?thesis
  proof (cases "client_storage w a")
    case (Some r)
    obtain clk where clk: "returns (rtc_process Release be sc bm clk sched (rtcp_like b) h a r b w)" for sched
      using rtc_process_returns [OF assms(1,2) b] by blast
    have "returns (handle_Rtc Release be sc bm clk sched q w)" for sched
      using clk [of sched] by (auto simp: handle_Rtc_def q Some h returns_iff)
    then show ?thesis by blast
  qed (simp add: handle_Rtc_def q)
qed

lemma handle_udp_send_returns:
  assumes "network_endian be" and "stun_crypto_laws cr" and "send_ok H m" and "length uninit = 1200"
  shows "returns (handle_udp_send be cr meta uninit m)"
proof (cases m)
  case (Stun req a)
  let ?tid = "transaction_id req" and ?pw = "as_bytes (password meta)"
  have len: "length ?tid = 12"
    using assms(3) Stun by (simp add: send_ok_def)
  have room: "20 + content_len a \<le> length uninit"
    using assms(4) by (simp add: content_len_def content_len_integrity_def addr_attribute_len_def)
  show ?thesis
  proof (cases "response_tag cr ?tid a ?pw")
    case (Inl e)
    from write_stun_success_response_Err [OF assms(1) len Inl assms(2) room] show ?thesis
      by (auto simp: handle_udp_send_def Stun)
  next
    case (Inr tag)
    from write_stun_success_response_ok [OF assms(1,2) len room Inr] show ?thesis
      by (simp add: handle_udp_send_def Stun)
  qed
qed (simp_all add: handle_udp_send_def)

lemma client_turn_progress:
  assumes "client_box S = m # rest" and "\<not> deadlocked S"
  shows "\<exists>S'. internal P S S'"
proof -
  have "returns (client_turn 0 (\<lambda>_. (1, 1, 0)) m (S\<lparr>client_box := rest\<rparr>))"
  proof (cases m)
    case (ClientRequest q)
    then show ?thesis by (cases q) simp_all
  next
    case (ClientGroup k a s)
    then show ?thesis
      using assms by (auto simp: deadlocked_def handle_GroupId_cases split: option.splits if_splits)
  qed simp_all
  then show ?thesis
    unfolding returns_iff using internal.client [OF assms(1)] by blast
qed

lemma rtc_turn_progress:
  assumes "platform_ok P" and "mail_inv S" and "rtc_box S = (t, m) # rest"
  shows "\<exists>S'. internal P S S'"
proof -
  have "rtc_ok (heard S) m"
    using assms(2,3) by (simp add: mail_inv_def)
  then obtain clk where "returns (handle_Rtc (build P) (byteorder_lib P) (srtp_lib P) (bimap_lib P) clk [] m
      (client_actor (actors S)))"
    using handle_Rtc_returns assms(1) unfolding platform_ok_def by metis
  then have "returns (rtc_turn P clk [] m (S\<lparr>rtc_box := rest, handled := handled S @ [(t, m)]\<rparr>))"
    by (auto simp: rtc_turn_def returns_iff)
  then show ?thesis
    using internal.rtc [of S "[]" t m rest P clk "[]"] assms(1,3) by (auto simp: returns_iff platform_ok_def)
qed

lemma jitter_turn_progress:
  assumes "mail_inv S" and "jitter_box S = m # rest"
  shows "\<exists>S'. internal P S S'"
proof -
  have "jitter_inv (jitter_control (actors S))"
    using assms(1) by (simp add: mail_inv_def server_inv_def)
  then have "returns (jitter_turn (\<lambda>_. 0) m (S\<lparr>jitter_box := rest\<rparr>))"
    using jitter.handle_returns [of "jitter_control (actors S)" "(\<lambda>_. 0, m)"]
    by (auto simp: jitter_turn_def returns_iff)
  then show ?thesis
    using internal.jitter [OF assms(2)] by (auto simp: returns_iff)
qed

lemma recv_task_progress:
  assumes "rtc_box S = []" and "recv_tasks S = (n, a, r) # ys"
  shows "\<exists>S'. internal P S S'"
  using internal.recv_task [of S "[]" n a r ys, OF _ _ prod.collapse [symmetric] refl] assms
  by (auto simp: awaits_rtc_def)

lemma task_progress:
  assumes "client_box S = []" and "rtc_box S = []" and "recv_tasks S \<noteq> [] \<or> dtls_tasks S \<noteq> []"
  shows "\<exists>S'. internal P S S'"
proof -
  have "\<exists>S'. internal P S S'" if "dtls_tasks S = (n, t) # ys" for n t ys
    using internal.dtls_task [of S "[]" n t ys P "Inr ()" undefined None, OF _ _ prod.collapse [symmetric] refl]
      that assms(1) by (auto simp: awaits_deletion_def)
  then show ?thesis
    using assms(2,3) recv_task_progress by (cases "recv_tasks S"; cases "dtls_tasks S") auto
qed

lemma send_turn_progress:
  assumes "platform_ok P" and "mail_inv S" and "send_box S = m # rest"
  shows "\<exists>S'. internal P S S'"
proof -
  have "send_ok (heard S) m"
    using assms(2,3) by (simp add: mail_inv_def)
  then have "returns (send_turn P (replicate 1200 0) m (S\<lparr>send_box := rest\<rparr>))"
    using handle_udp_send_returns [of "byteorder_lib P" "stun_lib P" "heard S" m "replicate 1200 0"
        "data (udp_recv (actors S))"] assms(1)
    by (auto simp: send_turn_def returns_iff platform_ok_def)
  then show ?thesis
    using internal.send [OF assms(3), of "replicate 1200 0"] by (auto simp: returns_iff)
qed

lemma internal_progress:
  assumes "platform_ok P" and "mail_inv S" and "pending S \<noteq> {#}" and "\<not> deadlocked S"
  shows "\<exists>S'. internal P S S'"
proof -
  consider m rest where "client_box S = m # rest" | t m rest where "rtc_box S = (t, m) # rest"
    | m rest where "jitter_box S = m # rest" | m rest where "send_box S = m # rest"
    | "client_box S = []" "rtc_box S = []" "recv_tasks S \<noteq> [] \<or> dtls_tasks S \<noteq> []"
    using assms(3) unfolding pending_empty by (metis list.exhaust surj_pair)
  then show ?thesis
  proof cases
    case 1
    then show ?thesis using client_turn_progress assms(4) by blast
  next
    case 2
    then show ?thesis using rtc_turn_progress assms(1,2) by blast
  next
    case 3
    then show ?thesis using jitter_turn_progress assms(2) by blast
  next
    case 4
    then show ?thesis using send_turn_progress assms(1,2) by blast
  next
    case 5
    then show ?thesis using task_progress by blast
  qed
qed

interpretation mail_rest: settling "internal P" pending "\<lambda>S. platform_ok P \<and> mail_inv S" deadlocked for P
  by unfold_locales (auto intro: mail_inv_internal internal_progress)

subsection \<open>What is queued is sent\<close>

text \<open>The datagrams \<open>UdpSend\<close> makes of a request were given to the socket.\<close>

definition put_on_wire :: "('s, 'b) platform \<Rightarrow> ServerMeta \<Rightarrow> (SocketAddr \<times> bytes) list \<Rightarrow> WebRtcRequest \<Rightarrow> bool" where
  "put_on_wire P meta ds q \<longleftrightarrow> (\<exists>uninit out. length uninit = 1200 \<and>
     handle_udp_send (byteorder_lib P) (stun_lib P) meta uninit q = Ret out \<and> set out \<subseteq> set ds)"

lemma put_on_wire_mono: "put_on_wire P meta ds q \<Longrightarrow> set ds \<subseteq> set ds' \<Longrightarrow> put_on_wire P meta ds' q"
  unfolding put_on_wire_def by (meson order_trans)

lemma fold_start_recv_task_frame [simp]:
  "sent (fold start_recv_task rs S) = sent S" "send_box (fold start_recv_task rs S) = send_box S"
  by (induction rs arbitrary: S) (simp_all add: start_recv_task_def)

lemma client_turn_frame:
  assumes "client_turn now draws m S = Ret S'"
  shows "sent S' = sent S \<and> send_box S' = send_box S \<and> udp_recv (actors S') = udp_recv (actors S)"
proof (cases m)
  case (ClientRequest q)
  then show ?thesis
    using assms by (cases q) (auto simp: start_dtls_task_def split: prod.splits)
qed (use assms in \<open>auto simp: rust_iffs\<close>)

lemma dtls_task_turn_frame:
  assumes "dtls_task_turn sc pushed env ssl_read n t S = (left, S')"
  shows "sent S' = sent S \<and> send_box S' = send_box S \<and> udp_recv (actors S') = udp_recv (actors S)"
  using assms by (cases t) (auto simp: ask_deletion_def split: prod.splits)

lemma internal_sends:
  assumes "internal P S S'"
  shows "udp_recv (actors S') = udp_recv (actors S)" and "set (sent S) \<subseteq> set (sent S')"
    and "q \<in> set (send_box S) \<Longrightarrow>
      q \<in> set (send_box S') \<or> put_on_wire P (data (udp_recv (actors S))) (sent S') q"
proof -
  have "udp_recv (actors S') = udp_recv (actors S) \<and> set (sent S) \<subseteq> set (sent S') \<and>
    (q \<in> set (send_box S) \<longrightarrow> q \<in> set (send_box S') \<or> put_on_wire P (data (udp_recv (actors S))) (sent S') q)"
    using assms
  proof (cases rule: internal.cases)
    case (jitter m rest clk)
    then show ?thesis by (auto simp: jitter_turn_def rust_iffs)
  next
    case (rtc xs t m ys clk sched)
    then show ?thesis by (auto simp: rtc_turn_def rust_iffs fold_post_rtc)
  next
    case (client m rest now draws)
    then show ?thesis using client_turn_frame [OF client(2)] by simp
  next
    case (dtls_task xs n t ys pushed env ssl_read left S1)
    then show ?thesis using dtls_task_turn_frame [OF dtls_task(3)] by simp
  next
    case (send m rest uninit)
    then show ?thesis by (auto simp: send_turn_def rust_iffs put_on_wire_def)
  qed simp
  then show "udp_recv (actors S') = udp_recv (actors S)" "set (sent S) \<subseteq> set (sent S')"
    "q \<in> set (send_box S) \<Longrightarrow> q \<in> set (send_box S') \<or> put_on_wire P (data (udp_recv (actors S))) (sent S') q"
    by blast+
qed

lemma run_sends:
  assumes "(internal P)\<^sup>*\<^sup>* S S'" and "q \<in> set (send_box S)"
  shows "udp_recv (actors S') = udp_recv (actors S) \<and>
    (q \<in> set (send_box S') \<or> put_on_wire P (data (udp_recv (actors S))) (sent S') q)"
  using assms(1)
proof (induction rule: rtranclp_induct)
  case (step T U)
  then show ?case
    using internal_sends(1,2) [OF step.hyps(2)] internal_sends(3) [OF step.hyps(2), of q]
    by (auto intro: put_on_wire_mono)
qed (use assms(2) in simp)

lemma end_sends:
  assumes "platform_ok P" and "mail_inv S" and "(internal P)\<^sup>*\<^sup>* S T" and "\<nexists>U. internal P T U"
    and "q \<in> set (send_box S)"
  shows "put_on_wire P (data (udp_recv (actors S))) (sent T) q"
proof -
  have "mail_inv T"
    using assms(3,2) by (induction rule: rtranclp_induct) (auto intro: mail_inv_internal)
  then have "send_box T = []"
    using send_turn_progress [OF assms(1)] assms(4) by (meson neq_Nil_conv)
  then show ?thesis
    using run_sends [OF assms(3,5)] by simp
qed

section \<open>Properties\<close>

lemma demo_platform_ok: "platform_ok demo_platform"
  by (auto simp: platform_ok_def demo_platform_def keeps_header_def)

text \<open>
  C8. The server cannot keep itself busy: without datagrams, registrations and TLS records from outside,
  there is no infinite run of handlers and tasks, however many packets the buffers release and however
  many receivers a packet has.
\<close>

theorem no_infinite_internal_run: "\<nexists>f. \<forall>i. internal P (f i) (f (Suc i))"
  using mail_work.no_infinite_run by blast

text \<open>
  C4. From every state the running server reaches, it can work off everything it has: it comes to a
  state in which all mailboxes are empty and no task is left, or the client actor is deadlocked in its
  GroupId handler. No other handler and no task ever blocks it.
\<close>

theorem server_comes_to_rest:
  assumes "platform_ok P" and "system_reachable P S"
  shows "\<exists>T. (internal P)\<^sup>*\<^sup>* S T \<and>
    (client_box T = [] \<and> jitter_box T = [] \<and> rtc_box T = [] \<and> send_box T = [] \<and> recv_tasks T = [] \<and> dtls_tasks T = []
     \<or> deadlocked T)"
  using mail_rest.settles [of P S] assms system_reachable_inv [OF assms(2)] unfolding pending_empty by blast

theorem server_comes_to_rest_witness:
  "\<exists>T. client_box demo_received \<noteq> [] \<and> (internal demo_platform)\<^sup>*\<^sup>* demo_received T \<and>
    (client_box T = [] \<and> jitter_box T = [] \<and> rtc_box T = [] \<and> send_box T = [] \<and> recv_tasks T = [] \<and> dtls_tasks T = []
     \<or> deadlocked T)"
  using server_comes_to_rest [OF demo_platform_ok demo_received_reachable] by (auto simp: demo_received_def)

text \<open>
  What is queued for sending is sent, in every run: when the server has done all it can do by
  itself, the datagrams of every request that was in the mailbox of the sending actor have been given
  to the socket, even when the client actor is deadlocked.
\<close>

theorem queued_requests_are_sent:
  assumes "platform_ok P" and "system_reachable P S"
    and "(internal P)\<^sup>*\<^sup>* S T" and "\<nexists>U. internal P T U" and "q \<in> set (send_box S)"
  shows "put_on_wire P (data (udp_recv (actors S))) (sent T) q"
  by (rule end_sends [OF assms(1) system_reachable_inv [OF assms(2)] assms(3-5)])

theorem queued_requests_are_sent_witness:
  "\<exists>T. (internal demo_platform)\<^sup>*\<^sup>* demo_queued T \<and> (addr1, [22, 9]) \<in> set (sent T)"
proof -
  obtain T where T: "(internal demo_platform)\<^sup>*\<^sup>* demo_queued T" "\<nexists>U. internal demo_platform T U"
    using mail_work.reaches_end by blast
  have "Dtls [22, 9] addr1 \<in> set (send_box demo_queued)"
    by (simp add: demo_queued_def)
  from queued_requests_are_sent [OF demo_platform_ok demo_queued_reachable T this] T(1) show ?thesis
    by (auto simp: put_on_wire_def handle_udp_send_def)
qed

text \<open>
  C3. A STUN request of a known session is answered in every run: once the server has done what the
  arrival of the request makes it do, in whatever order, a datagram was given to the socket for the
  address of the request that carries its transaction identifier and that address.
\<close>

theorem stun_request_answered_in_every_run:
  assumes "platform_ok P" and "system_reachable P S" and "listening S"
    and "recv_datagram (byteorder_lib P) (Inr (packet, addr)) = Ret (Some (Stun req addr))"
    and "map_of (sessions (udp_recv (actors S))) (Session (server_user req) (remote_user req)) = Some item"
    and "response_tag (stun_lib P) (transaction_id req) addr
      (as_bytes (password (data (udp_recv (actors S))))) = Inr tag"
    and "datagram_turn (byteorder_lib P) (Inr (packet, addr)) S = Ret S1"
    and "(internal P)\<^sup>*\<^sup>* S1 T" and "\<nexists>U. internal P T U"
  shows "\<exists>answer. (addr, answer) \<in> set (sent T) \<and> take 12 (drop 8 answer) = take 12 (drop 8 packet) \<and>
    decode_mapped_address (byteorder_lib P) (transaction_id req)
      (take (addr_attribute_len addr) (drop 24 answer)) = (port addr, ip_octets addr)"
proof -
  have "arrival P S S1"
    using arrival.datagram [OF assms(3,7)] .
  then have inv: "mail_inv S1"
    by (rule mail_inv_arrival) (rule system_reachable_inv [OF assms(2)])
  have S1: "S1 = fold post (handle_Datagram (Stun req addr) (udp_recv (actors S))) (S\<lparr>heard := insert addr (heard S)\<rparr>)"
    using assms(4,7) by (simp add: datagram_turn_def)
  have q: "Stun req addr \<in> set (send_box S1)"
    using assms(5) by (auto simp: S1 handle_Datagram_def split: option.splits)
  have m: "udp_recv (actors S1) = udp_recv (actors S)"
    by (simp add: S1)
  have laws: "network_endian (byteorder_lib P)" "stun_crypto_laws (stun_lib P)"
    using assms(1) by (simp_all add: platform_ok_def)
  from end_sends [OF assms(1) inv assms(8,9) q] obtain uninit out where "length uninit = 1200"
    "handle_udp_send (byteorder_lib P) (stun_lib P) (data (udp_recv (actors S))) uninit (Stun req addr) = Ret out"
    "set out \<subseteq> set (sent T)"
    unfolding put_on_wire_def m by blast
  with stun_answer [OF laws assms(4) _ assms(6), of uninit] show ?thesis
    by auto
qed

text \<open>The server after an offer whose users are \<open>a\<close> and \<open>b\<close>, and after the request arrived.\<close>

definition demo_item :: SessionStorageItem where
  "demo_item = \<lparr>group_id = 7, ttl = 0, is_sender = False\<rparr>"

definition demo_registered :: "(nat, (string \<rightharpoonup> u8) \<times> (u8 \<rightharpoonup> string)) System" where
  "demo_registered = demo_start\<lparr>actors := (actors demo_start)\<lparr>udp_recv :=
     (udp_recv (actors demo_start))\<lparr>sessions := [(Session ''a'' ''b'', demo_item)]\<rparr>\<rparr>\<rparr>"

lemma demo_registered_reachable: "system_reachable demo_platform demo_registered"
proof -
  have "registration_turn (SessionMessage (Session ''a'' ''b'') demo_item) demo_start = Ret demo_registered"
    by (simp add: registration_turn_def handle_SessionMessage_def demo_registered_def create_udp_def Server_new_def
        UdpRecv_new_def)
  then have "system_step demo_platform demo_start demo_registered"
    using arrival.registration [of "SessionMessage (Session ''a'' ''b'') demo_item"] by (auto simp: system_step_def)
  then show ?thesis
    unfolding system_reachable_def by blast
qed

theorem stun_request_answered_in_every_run_witness:
  "\<exists>S1 T answer. datagram_turn NetworkEndian (Inr (demo_stun, addr1)) demo_registered = Ret S1 \<and>
    (internal demo_platform)\<^sup>*\<^sup>* S1 T \<and> (addr1, answer) \<in> set (sent T) \<and>
    take 12 (drop 8 answer) = take 12 (drop 8 demo_stun)"
proof -
  let ?S1 = "fold post (handle_Datagram (Stun demo_request addr1) (udp_recv (actors demo_registered)))
    (demo_registered\<lparr>heard := insert addr1 (heard demo_registered)\<rparr>)"
  have d: "datagram_turn NetworkEndian (Inr (demo_stun, addr1)) demo_registered = Ret ?S1"
    by (simp add: datagram_turn_def demo_stun_received)
  obtain T where T: "(internal demo_platform)\<^sup>*\<^sup>* ?S1 T" "\<nexists>U. internal demo_platform T U"
    using mail_work.reaches_end by blast
  have d': "datagram_turn (byteorder_lib demo_platform) (Inr (demo_stun, addr1)) demo_registered = Ret ?S1"
    using d by (simp add: demo_platform_def)
  have "\<exists>answer. (addr1, answer) \<in> set (sent T) \<and> take 12 (drop 8 answer) = take 12 (drop 8 demo_stun) \<and>
    decode_mapped_address (byteorder_lib demo_platform) (transaction_id demo_request)
      (take (addr_attribute_len addr1) (drop 24 answer)) = (port addr1, ip_octets addr1)"
    by (rule stun_request_answered_in_every_run [OF demo_platform_ok demo_registered_reachable _ _ _ _ d' T])
      (simp_all add: demo_platform_def demo_stun_received demo_registered_def create_udp_def demo_request_def
        response_tag_def toy_crypto_def)
  then show ?thesis
    using d T(1) by blast
qed

end
