(* ===== verification/Mailbox_Order.thy ===== *)
theory Mailbox_Order
  imports Mailbox_Invariant
begin

text \<open>
  The order of packets between \<open>UdpRecv\<close> and \<open>RtcActor\<close>. A task that forwards a released buffer waits
  for the media actor after every packet, so one buffer is forwarded in order although the media actor
  runs on several threads. Two buffers of the same address have two tasks, which run side by side.
\<close>

section \<open>The packets of a task\<close>

definition packets_of :: "nat \<Rightarrow> (nat option \<times> WebRtcRequest) list \<Rightarrow> WebRtcRequest list" where
  "packets_of n box = map snd (filter (\<lambda>(t, m). t = Some n) box)"

primrec unsent :: "SocketAddr \<times> GetOrStoreJitterBufferResponse \<Rightarrow> WebRtcRequest list" where
  "unsent (a, r) = (case r of Buffer (Some b) \<Rightarrow> map (\<lambda>m. Rtc m a) b | _ \<Rightarrow> [])"

definition left_of :: "nat \<Rightarrow> (nat \<times> SocketAddr \<times> GetOrStoreJitterBufferResponse) list \<Rightarrow> WebRtcRequest list" where
  "left_of n tasks = concat (map (\<lambda>(k, t). if k = n then unsent t else []) tasks)"

text \<open>All packets of a task, in order: those done, the one the media actor has, those still to come.\<close>

definition line_of :: "nat \<Rightarrow> ('s, 'b) System \<Rightarrow> WebRtcRequest list" where
  "line_of n S = packets_of n (handled S) @ packets_of n (rtc_box S) @ left_of n (recv_tasks S)"

lemma packets_of_simps [simp]:
  "packets_of n [] = []" "packets_of n (xs @ ys) = packets_of n xs @ packets_of n ys"
  "packets_of n ((t, m) # xs) = (if t = Some n then [m] else []) @ packets_of n xs"
  by (simp_all add: packets_of_def)

lemma left_of_simps [simp]:
  "left_of n [] = []" "left_of n (xs @ ys) = left_of n xs @ left_of n ys"
  "left_of n ((k, t) # xs) = (if k = n then unsent t else []) @ left_of n xs"
  by (simp_all add: left_of_def)

lemma awaits_rtc_iff: "awaits_rtc n S \<longleftrightarrow> packets_of n (rtc_box S) \<noteq> []"
  by (auto simp: awaits_rtc_def packets_of_def list_ex_iff filter_empty_conv)

lemma left_of_other: "n \<notin> fst ` set tasks \<Longrightarrow> left_of n tasks = []"
  by (induction tasks) auto

text \<open>Tasks have numbers of their own, below the next free one, and wait for one message at most.\<close>

definition numbering_inv :: "('s, 'b) System \<Rightarrow> bool" where
  "numbering_inv S \<longleftrightarrow> distinct (map fst (recv_tasks S)) \<and> (\<forall>n \<in> fst ` set (recv_tasks S). n < next_task S) \<and>
     (\<forall>n. length (packets_of n (rtc_box S)) \<le> 1 \<and>
        (packets_of n (handled S @ rtc_box S) \<noteq> [] \<longrightarrow> n < next_task S))"

text \<open>A step that does not concern the packets, and one that does.\<close>

definition same_line :: "('s, 'b) System \<Rightarrow> ('s, 'b) System \<Rightarrow> bool" where
  "same_line S S' \<longleftrightarrow> (\<forall>n. packets_of n (handled S') = packets_of n (handled S) \<and>
     packets_of n (rtc_box S') = packets_of n (rtc_box S)) \<and> recv_tasks S' = recv_tasks S \<and> next_task S \<le> next_task S'"

definition keeps_lines :: "('s, 'b) System \<Rightarrow> ('s, 'b) System \<Rightarrow> bool" where
  "keeps_lines S S' \<longleftrightarrow> numbering_inv S' \<and> next_task S \<le> next_task S' \<and>
     (\<forall>n < next_task S. line_of n S' = line_of n S)"

lemma same_line_keeps: "same_line S S' \<Longrightarrow> numbering_inv S \<Longrightarrow> keeps_lines S S'"
  by (auto simp: same_line_def keeps_lines_def numbering_inv_def line_of_def intro: less_le_trans)

lemma keeps_trans: "keeps_lines S T \<Longrightarrow> keeps_lines T U \<Longrightarrow> keeps_lines S U"
  by (auto simp: keeps_lines_def intro: less_le_trans)

lemma keeps_inv: "keeps_lines S T \<Longrightarrow> numbering_inv T"
  by (simp add: keeps_lines_def)

lemma post_same_line: "same_line S (fold post out S)"
proof (induction out arbitrary: S)
  case (Cons y out)
  have "same_line S (post y S)"
    by (cases y) (simp_all add: same_line_def)
  with Cons [of "post y S"] show ?case
    by (auto simp: same_line_def)
qed (simp add: same_line_def)

lemma arrival_same_line: "arrival P S S' \<Longrightarrow> same_line S S'"
proof (erule arrivalE)
  fix received assume "datagram_turn (byteorder_lib P) received S = Ret S'"
  then show "same_line S S'"
  proof (cases rule: datagram_turn_Ret)
    case (packet b a req)
    then show ?thesis
      using post_same_line [of "S\<lparr>heard := insert a (heard S)\<rparr>"] by (simp add: same_line_def)
  qed (simp add: same_line_def)
next
  fix m :: "'b recv_message" assume "from_outside m" "registration_turn m S = Ret S'"
  then show "same_line S S'"
    using registration_turn_Ret [of m S S'] by (auto simp: same_line_def)
qed (simp add: same_line_def record_turn_def)

lemma client_turn_same_line: "client_turn now draws m S = Ret S' \<Longrightarrow> same_line S S'"
proof (cases m)
  case (ClientRequest q)
  moreover assume "client_turn now draws m S = Ret S'"
  ultimately show ?thesis
    by (cases q) (auto simp: same_line_def start_dtls_task_def split: prod.splits)
qed (auto simp: same_line_def rust_iffs)

lemma start_task_keeps:
  assumes "numbering_inv S"
  shows "keeps_lines S (start_recv_task y S)"
  using assms by (auto simp: keeps_lines_def numbering_inv_def start_recv_task_def line_of_def less_Suc_eq
      intro: less_SucI)

lemma start_tasks_keep: "numbering_inv S \<Longrightarrow> keeps_lines S (fold start_recv_task ys S)"
proof (induction ys arbitrary: S)
  case (Cons y ys)
  note k = start_task_keeps [OF Cons.prems, of y]
  show ?case
    using keeps_trans [OF k Cons.IH [OF keeps_inv [OF k]]] by simp
qed (auto simp: keeps_lines_def)

lemma recv_task_keeps:
  assumes "numbering_inv S" and "recv_tasks S = xs @ (n, a, r) # ys" and "\<not> awaits_rtc n S"
    and "recv_task_turn n a r = (left, out)"
  shows "keeps_lines S (S\<lparr>recv_tasks := resume_with (n, a, r) xs (map_option (Pair a) left) ys,
    rtc_box := rtc_box S @ out\<rparr>)" (is "keeps_lines S ?S'")
proof -
  have out: "packets_of n out @ (case left of Some r' \<Rightarrow> unsent (a, r') | None \<Rightarrow> []) = unsent (a, r)"
    and other: "k \<noteq> n \<Longrightarrow> packets_of k out = []" and one: "length (packets_of n out) \<le> 1" for k
    using assms(4) by (cases "(n, a, r)" rule: recv_task_turn.cases; auto)+
  have n: "packets_of n (rtc_box S) = []" "n < next_task S" "n \<notin> fst ` set (xs @ ys)"
    using assms(1-3) by (auto simp: awaits_rtc_iff numbering_inv_def)
  have rest: "left_of n xs = []" "left_of n ys = []"
    using n(3) by (auto intro!: left_of_other)
  have "line_of k ?S' = line_of k S" for k
  proof (cases "k = n")
    case True
    then show ?thesis
      using n(1) rest out
      by (auto simp: line_of_def assms(2) resume_with_def simp del: unsent.simps split: option.splits)
  next
    case False
    then show ?thesis
      using other by (auto simp: line_of_def assms(2) resume_with_def simp del: unsent.simps split: option.splits)
  qed
  moreover have "numbering_inv ?S'"
    unfolding numbering_inv_def
  proof (intro conjI allI)
    show "length (packets_of k (rtc_box ?S')) \<le> 1" for k
      using assms(1) n(1) one other [of k] by (cases "k = n") (simp_all add: numbering_inv_def)
    show "packets_of k (handled ?S' @ rtc_box ?S') \<noteq> [] \<longrightarrow> k < next_task ?S'" for k
      using assms(1) n(2) other [of k] by (cases "k = n") (simp_all add: numbering_inv_def)
  qed (use assms(1,2) in \<open>auto simp: numbering_inv_def resume_with_def split: option.splits\<close>)
  ultimately show ?thesis
    by (simp add: keeps_lines_def)
qed

lemma rtc_keeps:
  assumes "numbering_inv S" and "rtc_box S = xs @ (t, m) # ys"
    and "rtc_turn P clk sched m (S\<lparr>rtc_box := xs @ ys, handled := handled S @ [(t, m)]\<rparr>) = Ret S'"
  shows "keeps_lines S S'"
proof -
  have S': "rtc_box S' = xs @ ys" "handled S' = handled S @ [(t, m)]" "recv_tasks S' = recv_tasks S"
    "next_task S' = next_task S"
    using assms(3) by (auto simp: rtc_turn_def rust_iffs fold_post_rtc)
  have one: "length (packets_of k xs) + length (packets_of k ys) + (if t = Some k then 1 else 0) \<le> 1" for k
  proof -
    have "length (packets_of k (xs @ (t, m) # ys)) \<le> 1"
      using assms(1) unfolding numbering_inv_def assms(2) by blast
    then show ?thesis by (simp split: if_splits)
  qed
  have "line_of k S' = line_of k S" for k
    using one [of k] by (simp add: line_of_def S' assms(2) split: if_splits)
  moreover have "length (packets_of k (rtc_box S')) \<le> 1" for k
    using one [of k] by (simp add: S')
  ultimately show ?thesis
    using assms(1) by (auto simp: keeps_lines_def numbering_inv_def S' assms(2) split: if_splits)
qed

lemma internal_keeps:
  assumes "internal P S S'" and n: "numbering_inv S"
  shows "keeps_lines S S'"
  using assms(1)
proof (cases rule: internal.cases)
  case (jitter m rest clk)
  obtain rs j where S': "S' = fold start_recv_task rs (S\<lparr>jitter_box := rest, actors := (actors S)\<lparr>jitter_control := j\<rparr>\<rparr>)"
    (is "_ = fold _ _ ?T") using jitter(2) by (auto simp: jitter_turn_def rust_iffs)
  have k: "keeps_lines S ?T"
    by (rule same_line_keeps [OF _ n]) (simp add: same_line_def)
  show ?thesis
    unfolding S' by (rule keeps_trans [OF k start_tasks_keep [OF keeps_inv [OF k]]])
next
  case (recv_task xs k addr r ys left out)
  then show ?thesis using recv_task_keeps [OF n] by simp
next
  case (rtc xs t m ys clk sched)
  then show ?thesis using rtc_keeps [OF n] by blast
next
  case (client m rest now draws)
  then show ?thesis
    using client_turn_same_line [OF client(2)] by (intro same_line_keeps [OF _ n]) (simp add: same_line_def)
next
  case (dtls_task xs k t ys pushed env ssl_read left S1)
  have "same_line S S1"
    using dtls_task(3) by (cases t) (auto simp: same_line_def ask_deletion_def split: prod.splits)
  then show ?thesis
    by (intro same_line_keeps [OF _ n]) (simp add: same_line_def dtls_task(4))
next
  case (send m rest uninit)
  then show ?thesis
    by (intro same_line_keeps [OF _ n]) (auto simp: same_line_def send_turn_def rust_iffs)
qed

lemma run_keeps: "(system_step P)\<^sup>*\<^sup>* S T \<Longrightarrow> numbering_inv S \<Longrightarrow> keeps_lines S T"
proof (induction rule: rtranclp_induct)
  case (step T U)
  then have T: "keeps_lines S T" and "numbering_inv T"
    by (simp_all add: keeps_lines_def)
  then have "keeps_lines T U"
    using step.hyps(2) arrival_same_line same_line_keeps internal_keeps unfolding system_step_def by metis
  with T show ?case by (rule keeps_trans)
qed (simp add: keeps_lines_def)

lemma numbering_reachable: "system_reachable P S \<Longrightarrow> numbering_inv S"
proof -
  assume "system_reachable P S"
  then obtain meta where "(system_step P)\<^sup>*\<^sup>* (create_udp meta) S"
    by (auto simp: system_reachable_def)
  from run_keeps [OF this] show ?thesis
    by (simp add: keeps_lines_def) (simp add: numbering_inv_def create_udp_def)
qed

text \<open>Over its life a task sends what \<open>handle_JitterReply\<close> gives, turn by turn.\<close>

lemma recv_task_turn_reply:
  "recv_task_turn n a r = (left, out) \<Longrightarrow>
   handle_JitterReply a r =
     map (RtcRequest \<circ> snd) out @ (case left of None \<Rightarrow> [] | Some r' \<Rightarrow> handle_JitterReply a r')"
  by (cases "(n, a, r)" rule: recv_task_turn.cases) (auto simp: handle_JitterReply_def)

section \<open>Properties\<close>

text \<open>Two packets of a stream arrive; the second releases the buffer. Then the first is forwarded.\<close>

definition demo_released :: "(nat, (string \<rightharpoonup> u8) \<times> (u8 \<rightharpoonup> string)) System" where
  "demo_released = demo_start\<lparr>actors := (actors demo_start)\<lparr>jitter_control :=
       [addr1 \<mapsto> \<lparr>buffer = [], time = millis 50, delay = millis 50\<rparr>]\<rparr>,
     heard := {addr1}, recv_tasks := [(0, addr1, Buffer None), (1, addr1, Buffer (Some [rtp_sample 1, rtp_sample 2]))],
     next_task := 2\<rparr>"

definition demo_forwarding :: "(nat, (string \<rightharpoonup> u8) \<times> (u8 \<rightharpoonup> string)) System" where
  "demo_forwarding = demo_released\<lparr>rtc_box := [(Some 1, Rtc (rtp_sample 1) addr1)],
     recv_tasks := [(0, addr1, Buffer None), (1, addr1, Buffer (Some [rtp_sample 2]))]\<rparr>"

lemma rtp_sample_rtp: "rtp_like (rtp_sample n)" "take 1200 (rtp_sample n) = rtp_sample n"
  by (simp_all add: rtp_like_def rtp_sample_def drop_bit_eq_div)

lemma rtp_sample_turn:
  assumes "heard S \<subseteq> {addr1}"
  shows "datagram_turn NetworkEndian (Inr (rtp_sample n, addr1)) S =
    Ret (S\<lparr>jitter_box := jitter_box S @ [GetOrStoreJitterBuffer addr1 (rtp_sample n)], heard := {addr1}\<rparr>)"
  using assms rtp_sample_rtp [of n]
  by (simp add: datagram_turn_def recv_datagram_def WebRtcRequest_from_def handle_Datagram_def
      rtp_sample_def insert_absorb subset_singleton_iff)

lemma rtp_sample_arrives:
  assumes "listening S" and "heard S \<subseteq> {addr1}"
  shows "system_step demo_platform S (S\<lparr>jitter_box := jitter_box S @ [GetOrStoreJitterBuffer addr1 (rtp_sample n)],
    heard := {addr1}\<rparr>)"
  using arrival.datagram [of S demo_platform] assms rtp_sample_turn [OF assms(2)]
  by (auto simp: system_step_def demo_platform_def)

lemma demo_released_reachable: "system_reachable demo_platform demo_released"
proof -
  let ?j = "\<lambda>n. GetOrStoreJitterBuffer addr1 (rtp_sample n)"
  let ?S1 = "demo_start\<lparr>jitter_box := [?j 1], heard := {addr1}\<rparr>"
  let ?S2 = "demo_start\<lparr>jitter_box := [?j 1, ?j 2], heard := {addr1}\<rparr>"
  let ?S3 = "?S2\<lparr>jitter_box := [?j 2], actors := (actors demo_start)\<lparr>jitter_control :=
      [addr1 \<mapsto> \<lparr>buffer = [rtp_sample 1], time = 0, delay = millis 50\<rparr>]\<rparr>,
    recv_tasks := [(0, addr1, Buffer None)], next_task := 1\<rparr>"
  have 1: "system_step demo_platform demo_start ?S1" "system_step demo_platform ?S1 ?S2"
    using rtp_sample_arrives [of demo_start 1] rtp_sample_arrives [of ?S1 2] by (simp_all add: create_udp_def)
  note defs = create_udp_def Server_new_def jitter_turn_def handle_GetOrStoreJitterBuffer_def entry_or_default_def
    JitterBuffer_default_def JitterBuffer_new_def jitter_consts elapsed_def start_recv_task_def
  have "internal demo_platform ?S2 ?S3"
    by (rule internal.jitter [where m = "?j 1" and rest = "[?j 2]" and clk = "\<lambda>_. 0"]) (simp_all add: defs)
  moreover have "internal demo_platform ?S3 demo_released"
    by (rule internal.jitter [where m = "?j 2" and rest = "[]" and clk = "\<lambda>_. millis 50"])
      (simp_all add: defs demo_released_def)
  moreover have "system_reachable demo_platform ?S2"
    unfolding system_reachable_def using 1 by (meson converse_rtranclp_into_rtranclp r_into_rtranclp)
  ultimately show ?thesis
    using system_reachable_step unfolding system_step_def by metis
qed

text \<open>
  C7. The media actor gets the packets of a released buffer in order and one at a time, although it runs
  on several threads: at any later time the packets of the buffer that it is done with, the one it
  has, and those still to be sent are together the buffer, in its order, and it has at most one.
\<close>

theorem buffer_is_forwarded_in_order:
  assumes "system_reachable P S" and "(n, a, Buffer (Some b)) \<in> set (recv_tasks S)"
    and "packets_of n (handled S @ rtc_box S) = []" and "(system_step P)\<^sup>*\<^sup>* S T"
  shows "packets_of n (handled T) @ packets_of n (rtc_box T) @ left_of n (recv_tasks T) = map (\<lambda>m. Rtc m a) b \<and>
    length (packets_of n (rtc_box T)) \<le> 1"
proof -
  note inv = numbering_reachable [OF assms(1)]
  note k = run_keeps [OF assms(4) inv]
  obtain xs ys where t: "recv_tasks S = xs @ (n, a, Buffer (Some b)) # ys"
    using assms(2) by (meson split_list)
  have n: "n < next_task S" "n \<notin> fst ` set xs" "n \<notin> fst ` set ys"
    using inv by (auto simp: numbering_inv_def t)
  have "line_of n S = map (\<lambda>m. Rtc m a) b"
    using assms(3) n(2,3) by (simp add: line_of_def t left_of_other)
  moreover have "line_of n T = line_of n S" "length (packets_of n (rtc_box T)) \<le> 1"
    using k n(1) by (auto simp: keeps_lines_def numbering_inv_def)
  ultimately show ?thesis
    by (simp add: line_of_def)
qed

theorem buffer_is_forwarded_in_order_witness:
  "(system_step demo_platform)\<^sup>*\<^sup>* demo_released demo_forwarding \<and>
   packets_of 1 (rtc_box demo_forwarding) @ left_of 1 (recv_tasks demo_forwarding) =
     [Rtc (rtp_sample 1) addr1, Rtc (rtp_sample 2) addr1] \<and> length (packets_of 1 (rtc_box demo_forwarding)) \<le> 1"
proof -
  have "internal demo_platform demo_released demo_forwarding"
    by (rule internal.recv_task [where xs = "[(0, addr1, Buffer None)]" and ys = "[]" and n = 1 and addr = addr1
          and r = "Buffer (Some [rtp_sample 1, rtp_sample 2])" and left = "Some (Buffer (Some [rtp_sample 2]))"
          and out = "[(Some 1, Rtc (rtp_sample 1) addr1)]"])
      (simp_all add: demo_released_def demo_forwarding_def create_udp_def awaits_rtc_def resume_with_def)
  then have run: "(system_step demo_platform)\<^sup>*\<^sup>* demo_released demo_forwarding"
    by (auto simp: system_step_def)
  have "(1, addr1, Buffer (Some [rtp_sample 1, rtp_sample 2])) \<in> set (recv_tasks demo_released)"
    "packets_of 1 (handled demo_released @ rtc_box demo_released) = []"
    by (simp_all add: demo_released_def create_udp_def)
  from buffer_is_forwarded_in_order [OF demo_released_reachable this run] run show ?thesis
    by (simp add: demo_forwarding_def demo_released_def create_udp_def)
qed

text \<open>
  Buffers released one after the other are not kept in order: when the first has not been forwarded
  completely, the first packet of the next one reaches the media actor before the rest of the first.
\<close>

theorem later_buffer_overtakes:
  assumes "recv_tasks S = [(n, a, Buffer (Some (m1 # b1))), (k, a, Buffer (Some (m2 # b2)))]"
    and "n \<noteq> k" and "rtc_box S = []"
  shows "\<exists>T. (internal P)\<^sup>*\<^sup>* S T \<and> rtc_box T = [(Some n, Rtc m1 a), (Some k, Rtc m2 a)] \<and>
    left_of n (recv_tasks T) = map (\<lambda>m. Rtc m a) b1"
proof -
  let ?S1 = "S\<lparr>recv_tasks := [(n, a, Buffer (Some b1)), (k, a, Buffer (Some (m2 # b2)))], rtc_box := [(Some n, Rtc m1 a)]\<rparr>"
  let ?T = "S\<lparr>recv_tasks := [(n, a, Buffer (Some b1)), (k, a, Buffer (Some b2))],
    rtc_box := [(Some n, Rtc m1 a), (Some k, Rtc m2 a)]\<rparr>"
  have "internal P S ?S1"
    by (rule internal.recv_task [where xs = "[]" and n = n and addr = a and r = "Buffer (Some (m1 # b1))"
          and ys = "[(k, a, Buffer (Some (m2 # b2)))]" and left = "Some (Buffer (Some b1))" and out = "[(Some n, Rtc m1 a)]"])
      (use assms in \<open>simp_all add: awaits_rtc_def resume_with_def\<close>)
  moreover have "internal P ?S1 ?T"
    by (rule internal.recv_task [where xs = "[(n, a, Buffer (Some b1))]" and n = k and addr = a
          and r = "Buffer (Some (m2 # b2))" and ys = "[]" and left = "Some (Buffer (Some b2))" and out = "[(Some k, Rtc m2 a)]"])
      (use assms in \<open>simp_all add: awaits_rtc_def resume_with_def\<close>)
  ultimately have "(internal P)\<^sup>*\<^sup>* S ?T"
    by (meson converse_rtranclp_into_rtranclp r_into_rtranclp)
  with assms(2) show ?thesis
    by (intro exI [of _ ?T]) simp
qed

end
