(* ===== verification/Mailbox_Conservation.thy ===== *)
theory Mailbox_Conservation
  imports Mailbox_Progress Mailbox_Order
begin

text \<open>
  What becomes of media between the socket and \<open>RtcActor\<close>: a received RTP or RTCP packet is, at every
  time, at exactly one place, and it gets to the media actor unless the jitter buffer holds it. The
  runs are those of \<open>Mailboxes\<close>, with the datagrams that arrive as labels.
\<close>

section \<open>Runs with the datagrams that arrive\<close>

inductive observed ::
    "('s, 'b) platform \<Rightarrow> ('s, 'b) System \<Rightarrow> (bytes \<times> SocketAddr) option \<Rightarrow> ('s, 'b) System \<Rightarrow> bool"
  for P where
  received: "listening S \<Longrightarrow> datagram_turn (byteorder_lib P) (Inr d) S = Ret S' \<Longrightarrow> observed P S (Some d) S'"
| receive_failed: "listening S \<Longrightarrow> datagram_turn (byteorder_lib P) (Inl e) S = Ret S' \<Longrightarrow> observed P S None S'"
| registration: "from_outside m \<Longrightarrow> registration_turn m S = Ret S' \<Longrightarrow> observed P S None S'"
| tls_record: "addr \<in> set (streams S) \<Longrightarrow> S' = record_turn message addr S \<Longrightarrow> observed P S None S'"
| own: "internal P S S' \<Longrightarrow> observed P S None S'"

text \<open>These are all steps of the running server.\<close>

lemma observed_iff: "system_step P S S' \<longleftrightarrow> (\<exists>l. observed P S l S')"
proof
  assume "system_step P S S'"
  then show "\<exists>l. observed P S l S'"
    unfolding system_step_def
  proof (elim disjE arrivalE)
    fix received assume "listening S" "datagram_turn (byteorder_lib P) received S = Ret S'"
    then show ?thesis
      by (cases received) (blast intro: observed.intros)+
  qed (blast intro: observed.intros)+
next
  assume "\<exists>l. observed P S l S'"
  then show "system_step P S S'"
    unfolding system_step_def by (auto elim!: observed.cases intro: arrival.intros)
qed

lemma runs_reachable: "runs (observed P) (create_udp meta) ds T \<Longrightarrow> system_reachable P T"
proof (induction "create_udp meta :: ('a, 'b) System" ds T rule: runs.induct)
  case runs_none
  then show ?case
    unfolding system_reachable_def by blast
next
  case (runs_step ls t l u)
  then show ?case
    using system_reachable_step observed_iff by blast
qed

lemma runs_internal:
  assumes "runs (observed P) S ds T" and "(internal P)\<^sup>*\<^sup>* T U"
  shows "\<exists>n. runs (observed P) S (ds @ replicate n None) U"
  using assms(2)
proof (induction rule: rtranclp_induct)
  case base
  show ?case
    using assms(1) by (intro exI [of _ 0]) simp
next
  case (step U V)
  then obtain n where "runs (observed P) S (ds @ replicate n None) U"
    by blast
  from runs_step [OF this observed.own [OF step.hyps(2)]] show ?case
    by (intro exI [of _ "Suc n"]) (simp add: replicate_append_same)
qed

section \<open>Where the packets of an address are\<close>

primrec jitter_content :: "SocketAddr \<Rightarrow> JitterMessage \<Rightarrow> bytes multiset" where
  "jitter_content a (GetOrStoreJitterBuffer b m) = (if b = a then {#m#} else {#})"
| "jitter_content a (IncreaseJitterBufferDelay b) = {#}"
| "jitter_content a (DecreaseJitterBufferDelay b) = {#}"

fun reply_content :: "SocketAddr \<Rightarrow> SocketAddr \<times> GetOrStoreJitterBufferResponse \<Rightarrow> bytes multiset" where
  "reply_content a (b, Buffer (Some ms)) = (if b = a then mset ms else {#})"
| "reply_content a (b, Buffer None) = {#}"
| "reply_content a (b, Packet m) = (if b = a then {#m#} else {#})"

primrec rtc_content :: "SocketAddr \<Rightarrow> WebRtcRequest \<Rightarrow> bytes multiset" where
  "rtc_content a (Rtc m b) = (if b = a then {#m#} else {#})"
| "rtc_content a (Stun r b) = {#}"
| "rtc_content a (Dtls m b) = {#}"
| "rtc_content a Unknown = {#}"

text \<open>
  On the way: in the mailbox of the jitter actor, in the buffer of the address, in a task that forwards
  a reply, in the mailbox of the media actor. Done: handled by the media actor.
\<close>

definition in_transit :: "SocketAddr \<Rightarrow> ('s, 'b) System \<Rightarrow> bytes multiset" where
  "in_transit a S =
     sum_list (map (jitter_content a) (jitter_box S)) + mset (stored_at a (jitter_control (actors S))) +
     sum_list (map (reply_content a \<circ> snd) (recv_tasks S)) + sum_list (map (rtc_content a \<circ> snd) (rtc_box S))"

definition handled_from :: "SocketAddr \<Rightarrow> ('s, 'b) System \<Rightarrow> bytes multiset" where
  "handled_from a S = sum_list (map (rtc_content a \<circ> snd) (handled S))"

text \<open>What a datagram brings: itself, as far as it fits the receive buffer, when it is RTP or RTCP.\<close>

fun media_brought :: "SocketAddr \<Rightarrow> (bytes \<times> SocketAddr) option \<Rightarrow> bytes multiset" where
  "media_brought a (Some (packet, b)) = (if b = a \<and> rtp_like (take 1200 packet) then {#take 1200 packet#} else {#})"
| "media_brought a None = {#}"

abbreviation media_held :: "SocketAddr \<Rightarrow> ('s, 'b) System \<Rightarrow> bytes multiset" where
  "media_held a S \<equiv> handled_from a S + in_transit a S"

section \<open>Lemmas\<close>

lemma sum_list_no_content: "(\<And>x. x \<in> set xs \<Longrightarrow> f x = {#}) \<Longrightarrow> sum_list (map f xs) = {#}"
  by (induction xs) simp_all

text \<open>What a step does not touch.\<close>

lemma media_held_cong:
  "jitter_box S' = jitter_box S \<Longrightarrow> jitter_control (actors S') = jitter_control (actors S) \<Longrightarrow>
   recv_tasks S' = recv_tasks S \<Longrightarrow> rtc_box S' = rtc_box S \<Longrightarrow> handled S' = handled S \<Longrightarrow>
   media_held a S' = media_held a S"
  by (simp add: in_transit_def handled_from_def)

lemma datagram_media:
  assumes "datagram_turn be (Inr d) S = Ret S'"
  shows "media_held a S' = media_held a S + media_brought a (Some d)"
  using assms
proof (cases rule: datagram_turn_Ret)
  case (packet b x req)
  note c = WebRtcRequest_from_classified [OF packet(2)]
  have rtp: "rtp_like (take 1200 b) \<longleftrightarrow> (\<exists>m y. req = Rtc m y)"
    using packet(2) c WebRtcRequest_from_eq [of be "take 1200 b" x]
    by (auto split: WebRtcRequest.splits if_splits rust.splits option.splits)
  show ?thesis
  proof (cases req)
    case (Stun r y)
    then show ?thesis
      using packet rtp by (auto simp: handle_Datagram_def in_transit_def handled_from_def Let_def split: option.splits)
  qed (use packet c rtp in \<open>auto simp: handle_Datagram_def in_transit_def handled_from_def\<close>)
qed simp

lemma jitter_reply_content:
  assumes "handle_jitter st (clk, m) = Ret (rs, st')"
  shows "sum_list (map (reply_content a) rs) + mset (stored_at a st') = mset (stored_at a st) + jitter_content a m"
proof (cases m)
  case (GetOrStoreJitterBuffer b p)
  then show ?thesis
    using assms by (auto simp: rust_iffs handle_GetOrStoreJitterBuffer_def stored_at_def entry_or_default_def Let_def
        split: if_splits option.splits)
next
  case (IncreaseJitterBufferDelay b)
  then show ?thesis
    using assms by (cases "b = a") (auto simp: handle_IncreaseJitterBufferDelay_def stored_at_def entry_or_default_def
        Let_def split: option.splits)
next
  case (DecreaseJitterBufferDelay b)
  then show ?thesis
    using assms by (auto simp: rust_iffs stored_at_def dest!: handle_Decrease_eq)
qed

lemma fold_start_recv_task:
  "map snd (recv_tasks (fold start_recv_task rs S)) = map snd (recv_tasks S) @ rs"
  "jitter_box (fold start_recv_task rs S) = jitter_box S" "rtc_box (fold start_recv_task rs S) = rtc_box S"
  "handled (fold start_recv_task rs S) = handled S"
  by (induction rs arbitrary: S) (simp_all add: start_recv_task_def)

lemma jitter_media:
  assumes "jitter_box S = m # rest" and "jitter_turn clk m (S\<lparr>jitter_box := rest\<rparr>) = Ret S'"
  shows "media_held a S' = media_held a S"
proof -
  obtain rs j where h: "handle_jitter (jitter_control (actors S)) (clk, m) = Ret (rs, j)"
    and S': "S' = fold start_recv_task rs (S\<lparr>jitter_box := rest, actors := (actors S)\<lparr>jitter_control := j\<rparr>\<rparr>)"
    using assms(2) by (auto simp: jitter_turn_def rust_iffs)
  show ?thesis
    using jitter_reply_content [OF h, of a]
    by (simp add: S' in_transit_def handled_from_def fold_start_recv_task assms(1) add_ac flip: map_map)
qed

lemma recv_task_media:
  assumes "recv_tasks S = xs @ (n, b, r) # ys" and "recv_task_turn n b r = (left, out)"
  shows "media_held a (S\<lparr>recv_tasks := resume_with (n, b, r) xs (map_option (Pair b) left) ys,
    rtc_box := rtc_box S @ out\<rparr>) = media_held a S"
  using assms by (cases "(n, b, r)" rule: recv_task_turn.cases)
    (auto simp: in_transit_def handled_from_def resume_with_def add_ac)

lemma rtc_media:
  assumes "rtc_box S = xs @ (t, m) # ys"
    and "rtc_turn P clk sched m (S\<lparr>rtc_box := xs @ ys, handled := handled S @ [(t, m)]\<rparr>) = Ret S'"
  shows "media_held a S' = media_held a S"
proof -
  obtain warned out w where h: "handle_Rtc (build P) (byteorder_lib P) (srtp_lib P) (bimap_lib P) clk sched m
      (client_actor (actors S)) = Ret (warned, out, w)"
    and S': "S' = fold post_rtc out (S\<lparr>rtc_box := xs @ ys, handled := handled S @ [(t, m)],
      actors := (actors S)\<lparr>client_actor := w\<rparr>\<rparr>)"
    using assms(2) by (auto simp: rtc_turn_def rust_iffs)
  have "jitter_content a j = {#}" if "j \<in> set (jitter_messages out)" for j
    using handle_Rtc_jitter [OF h, of j] that by (auto simp: set_outputs)
  then have "sum_list (map (jitter_content a) (jitter_messages out)) = {#}"
    by (simp add: sum_list_no_content)
  then show ?thesis
    by (simp add: S' fold_post_rtc in_transit_def handled_from_def assms(1) add_ac)
qed

lemma client_turn_media:
  assumes "client_turn now draws m S = Ret S'"
  shows "media_held a S' = media_held a S"
proof (cases m)
  case (ClientRequest q)
  with assms show ?thesis
    by (intro media_held_cong; cases q) (auto simp: start_dtls_task_def split: prod.splits)
qed (use assms in \<open>auto simp: rust_iffs in_transit_def handled_from_def\<close>)

lemma internal_media:
  assumes "internal P S S'"
  shows "media_held a S' = media_held a S"
  using assms
proof (cases rule: internal.cases)
  case (jitter m rest clk)
  then show ?thesis by (rule jitter_media)
next
  case (recv_task xs k addr r ys left out)
  then show ?thesis using recv_task_media by blast
next
  case (rtc xs t m ys clk sched)
  then show ?thesis by (intro rtc_media)
next
  case (client m rest now draws)
  then show ?thesis
    using client_turn_media [OF client(2), of a] by (simp add: in_transit_def handled_from_def)
next
  case (dtls_task xs k t ys pushed env ssl_read left S1)
  then show ?thesis
    by (intro media_held_cong; cases t) (auto simp: ask_deletion_def split: prod.splits)
next
  case (send m rest uninit)
  then show ?thesis
    by (intro media_held_cong) (auto simp: send_turn_def rust_iffs)
qed

interpretation media: conserving_steps "observed P" "media_held a" "media_brought a" for P a
proof
  fix S l T assume "observed P S l T"
  then show "media_held a T = media_held a S + media_brought a l"
  proof (cases rule: observed.cases)
    case (received d)
    then show ?thesis using datagram_media by blast
  next
    case (receive_failed e)
    then show ?thesis
      by (auto simp: datagram_turn_def recv_datagram_def in_transit_def handled_from_def)
  next
    case (registration m)
    then show ?thesis
      using registration_turn_Ret by (fastforce simp: in_transit_def handled_from_def)
  next
    case own
    then show ?thesis using internal_media [OF own(2)] by simp
  qed (auto simp: record_turn_def in_transit_def handled_from_def)
qed

text \<open>A server that has done all it can do by itself has nothing on the way but what is buffered.\<close>

lemma stuck_media:
  assumes "platform_ok P" and "mail_inv T" and "\<nexists>U. internal P T U"
  shows "jitter_box T = []" "rtc_box T = []" "recv_tasks T = []"
proof -
  show "jitter_box T = []"
    using jitter_turn_progress [OF assms(2)] assms(3) by (metis list.exhaust)
  show box: "rtc_box T = []"
    using rtc_turn_progress [OF assms(1,2)] assms(3) by (metis list.exhaust surj_pair)
  show "recv_tasks T = []"
    using recv_task_progress [OF box] assms(3) by (metis list.exhaust surj_pair)
qed

section \<open>Properties\<close>

text \<open>
  C2. Nothing of the media is lost, doubled, invented or given to the wrong client between the socket
  and the media actor. In every run, whatever the order in which datagrams arrive, mailboxes are served
  and tasks go on: the RTP and RTCP packets of an address that the media actor has handled, with those
  waiting for the jitter actor, buffered, being forwarded or waiting for the media actor, are exactly
  those that arrived from that address. Once the server has done all it can do by itself, only what the
  jitter buffer of the address holds is not handled, even when the client actor is deadlocked.
\<close>

theorem media_reaches_media_actor:
  assumes "platform_ok P" and "runs (observed P) (create_udp meta) ds T"
  shows "handled_from a T + in_transit a T = sum_list (map (media_brought a) ds) \<and>
    ((\<nexists>U. internal P T U) \<longrightarrow>
       handled_from a T + mset (stored_at a (jitter_control (actors T))) = sum_list (map (media_brought a) ds))"
proof -
  have "media_held a (create_udp meta :: ('a, 'b) System) = {#}"
    by (simp add: create_udp_def in_transit_def handled_from_def Server_new_def stored_at_def)
  then have all: "media_held a T = sum_list (map (media_brought a) ds)"
    using media.runs_conserve [OF assms(2), of a] by simp
  have "mail_inv T"
    by (rule system_reachable_inv [OF runs_reachable [OF assms(2)]])
  then show ?thesis
    using all stuck_media [OF assms(1)] by (auto simp: in_transit_def)
qed

theorem media_reaches_media_actor_witness:
  "\<exists>ds T. runs (observed demo_platform) demo_start ds T \<and> (\<nexists>U. internal demo_platform T U) \<and>
    handled_from addr1 T + mset (stored_at addr1 (jitter_control (actors T))) = {#rtp_sample 1#}"
proof -
  let ?S1 = "demo_start\<lparr>jitter_box := [GetOrStoreJitterBuffer addr1 (rtp_sample 1)], heard := {addr1}\<rparr>"
  obtain T where T: "(internal demo_platform)\<^sup>*\<^sup>* ?S1 T" "\<nexists>U. internal demo_platform T U"
    using mail_work.reaches_end by blast
  have "observed demo_platform demo_start (Some (rtp_sample 1, addr1)) ?S1"
    using rtp_sample_turn [of demo_start 1] by (intro observed.received) (simp_all add: create_udp_def demo_platform_def)
  from runs_internal [OF runs_step [of "observed demo_platform", OF runs_none this] T(1)] obtain n where
    run: "runs (observed demo_platform) demo_start ([Some (rtp_sample 1, addr1)] @ replicate n None) T"
    by auto
  have "sum_list (map (media_brought addr1) ([Some (rtp_sample 1, addr1)] @ replicate n None)) = {#rtp_sample 1#}"
    using sum_list_no_content [of "replicate n None" "media_brought addr1"] by (simp add: rtp_sample_rtp)
  with media_reaches_media_actor [OF demo_platform_ok run, of addr1] T(2) run show ?thesis
    by metis
qed

end
