(* ===== verification/Ssl_Stream.thy ===== *)
theory Ssl_Stream
  imports Clients Demux
begin

text \<open>
  \<open>src/src/client/stream.rs\<close> and \<open>push_dtls\<close> of \<open>src/src/client/dtls.rs\<close>: the adapter that lets the
  TLS library read the datagrams of a client and write datagrams to it. Two channels of the
  \<open>futures\<close> crate connect it to the client actor; their operations are parameters, with the documented
  laws of an unbounded channel in \<open>mpsc_laws\<close>. Of \<open>ReadBuf\<close> (the \<open>tokio\<close> crate) only the filled part
  and the remaining capacity matter; writing more than that panics.
\<close>

section \<open>Definitions\<close>

datatype 'a poll = Ready 'a | Pending

datatype channel_error = Full | Disconnected

record 'c mpsc_crate =
  unbounded :: 'c
  is_terminated :: "'c \<Rightarrow> bool"
  poll_next :: "'c \<Rightarrow> bytes option poll \<times> 'c"
  send :: "'c \<Rightarrow> bytes \<Rightarrow> (channel_error + unit) poll \<times> 'c"
  poll_flush_chan :: "'c \<Rightarrow> (channel_error + unit) poll"
  poll_close_chan :: "'c \<Rightarrow> (channel_error + unit) poll \<times> 'c"

text \<open>
  \<open>open_queue mc c = Some q\<close>: both ends of the channel \<open>c\<close> are alive and \<open>q\<close> are the messages in it.
  A message sent then goes to the end of the queue at once, the next one received is the first.
\<close>

definition mpsc_laws :: "'c mpsc_crate \<Rightarrow> ('c \<Rightarrow> bytes list option) \<Rightarrow> bool" where
  "mpsc_laws mc open_queue \<longleftrightarrow>
     open_queue (unbounded mc) = Some [] \<and>
     (\<forall>c q. open_queue c = Some q \<longrightarrow> \<not> is_terminated mc c) \<and>
     (\<forall>c q m. open_queue c = Some q \<longrightarrow>
        fst (send mc c m) = Ready (Inr ()) \<and> open_queue (snd (send mc c m)) = Some (q @ [m])) \<and>
     (\<forall>c. open_queue c = Some [] \<longrightarrow> poll_next mc c = (Pending, c)) \<and>
     (\<forall>c m q. open_queue c = Some (m # q) \<longrightarrow>
        fst (poll_next mc c) = Ready (Some m) \<and> open_queue (snd (poll_next mc c)) = Some q)"

text \<open>A list of messages is such a channel; it is the instance the witnesses evaluate.\<close>

definition list_channel :: "bytes list mpsc_crate" where
  "list_channel =
     \<lparr>unbounded = [], is_terminated = (\<lambda>_. False),
      poll_next = (\<lambda>q. case q of [] \<Rightarrow> (Pending, []) | m # q' \<Rightarrow> (Ready (Some m), q')),
      send = (\<lambda>q m. (Ready (Inr ()), q @ [m])),
      poll_flush_chan = (\<lambda>_. Ready (Inr ())), poll_close_chan = (\<lambda>q. (Ready (Inr ()), q))\<rparr>"

text \<open>The two channels; the TLS library holds one end of each, the client actor the other.\<close>

record 'c ClientSslPackets =
  incoming :: 'c
  outgoing :: 'c

definition ClientSslPackets_new :: "'c mpsc_crate \<Rightarrow> 'c ClientSslPackets" where
  "ClientSslPackets_new mc = \<lparr>incoming = unbounded mc, outgoing = unbounded mc\<rparr>"

record ReadBuf =
  filled :: bytes
  remaining :: nat

definition put_slice :: "ReadBuf \<Rightarrow> bytes \<Rightarrow> ReadBuf rust" where
  "put_slice buf message =
     (if length message \<le> remaining buf
      then Ret \<lparr>filled = filled buf @ message, remaining = remaining buf - length message\<rparr>
      else Abort SliceOutOfRange)"

subsection \<open>The side of the TLS library\<close>

definition poll_read ::
    "'c mpsc_crate \<Rightarrow> 'c ClientSslPackets \<Rightarrow> ReadBuf \<Rightarrow>
      ((io_error + unit) poll \<times> ReadBuf \<times> 'c ClientSslPackets) rust" where
  "poll_read mc s buf =
     (if is_terminated mc (incoming s) then Ret (Ready (Inl ConnectionAborted), buf, s)
      else
        let (next, c) = poll_next mc (incoming s); s = s\<lparr>incoming := c\<rparr> in
        case next of
          Ready (Some message) \<Rightarrow> rbind (put_slice buf message) (\<lambda>buf. Ret (Ready (Inr ()), buf, s))
        | Ready None \<Rightarrow> Ret (Ready (Inl ConnectionAborted), buf, s)
        | Pending \<Rightarrow> Ret (Pending, buf, s))"

definition poll_write ::
    "'c mpsc_crate \<Rightarrow> 'c ClientSslPackets \<Rightarrow> bytes \<Rightarrow> (io_error + nat) poll \<times> 'c ClientSslPackets" where
  "poll_write mc s buf =
     (let (sent, c) = send mc (outgoing s) buf; s = s\<lparr>outgoing := c\<rparr> in
      case sent of
        Ready (Inr _) \<Rightarrow> (Ready (Inr (length buf)), s)
      | Ready (Inl _) \<Rightarrow> (Ready (Inl WriteZero), s)
      | Pending \<Rightarrow> (Pending, s))"

text \<open>\<open>ErrorKind::Other\<close> is \<open>OtherIo 0\<close>.\<close>

definition flush_error :: "channel_error \<Rightarrow> io_error" where
  "flush_error e = (if e = Disconnected then ConnectionAborted else OtherIo 0)"

definition poll_flush :: "'c mpsc_crate \<Rightarrow> 'c ClientSslPackets \<Rightarrow> (io_error + unit) poll" where
  "poll_flush mc s =
     (case poll_flush_chan mc (outgoing s) of
        Ready (Inl e) \<Rightarrow> Ready (Inl (flush_error e))
      | Ready (Inr _) \<Rightarrow> Ready (Inr ())
      | Pending \<Rightarrow> Pending)"

definition poll_shutdown ::
    "'c mpsc_crate \<Rightarrow> 'c ClientSslPackets \<Rightarrow> (io_error + unit) poll \<times> 'c ClientSslPackets" where
  "poll_shutdown mc s =
     (case poll_close_chan mc (outgoing s) of (r, c) \<Rightarrow>
        (case r of
           Ready (Inl e) \<Rightarrow> Ready (Inl (flush_error e))
         | Ready (Inr _) \<Rightarrow> Ready (Inr ())
         | Pending \<Rightarrow> Pending, s\<lparr>outgoing := c\<rparr>))"

subsection \<open>The side of the client actor\<close>

text \<open>Awaiting the send; \<open>None\<close> means that it has not finished yet.\<close>

definition push_dtls ::
    "'c mpsc_crate \<Rightarrow> 'c ClientSslPackets \<Rightarrow> bytes \<Rightarrow> (ClientError + unit) option \<times> 'c ClientSslPackets" where
  "push_dtls mc s buf =
     (let (sent, c) = send mc (incoming s) buf; s = s\<lparr>incoming := c\<rparr> in
      case sent of
        Ready (Inr _) \<Rightarrow> (Some (Inr ()), s)
      | Ready (Inl e) \<Rightarrow> (Some (Inl (ClientError_from_SendError (if e = Full then 0 else 1))), s)
      | Pending \<Rightarrow> (None, s))"

text \<open>One step of the stream of outgoing messages; \<open>Ready None\<close> is its end.\<close>

definition outgoing_stream ::
    "'c mpsc_crate \<Rightarrow> SocketAddr \<Rightarrow> 'c ClientSslPackets \<Rightarrow> DtlsMessage option poll \<times> 'c ClientSslPackets" where
  "outgoing_stream mc addr s =
     (if is_terminated mc (outgoing s) then (Ready None, s)
      else
        let (next, c) = poll_next mc (outgoing s); s = s\<lparr>outgoing := c\<rparr> in
        case next of
          Ready (Some message) \<Rightarrow> (Ready (Some (create_outgoing message addr)), s)
        | Ready None \<Rightarrow> (Ready None, s)
        | Pending \<Rightarrow> (Pending, s))"

section \<open>Lemmas\<close>

lemma list_channel_laws [simp]: "mpsc_laws list_channel Some"
  by (simp add: mpsc_laws_def list_channel_def)

lemma mpsc_send:
  assumes "mpsc_laws mc oq" and "oq c = Some q"
  shows "\<exists>c'. send mc c m = (Ready (Inr ()), c') \<and> oq c' = Some (q @ [m])"
  using assms unfolding mpsc_laws_def by (metis prod.collapse)

lemma mpsc_next:
  assumes "mpsc_laws mc oq" and "oq c = Some (m # q)"
  shows "\<exists>c'. poll_next mc c = (Ready (Some m), c') \<and> oq c' = Some q"
  using assms unfolding mpsc_laws_def by (metis prod.collapse)

lemma mpsc_alive: "mpsc_laws mc oq \<Longrightarrow> oq c = Some q \<Longrightarrow> \<not> is_terminated mc c"
  unfolding mpsc_laws_def by blast

text \<open>A datagram in the queue is what the next read appends, whole, if it fits.\<close>

lemma poll_read_next:
  assumes "mpsc_laws mc oq" and "oq (incoming s) = Some (m # q)"
  shows "\<exists>s'. oq (incoming s') = Some q \<and> outgoing s' = outgoing s \<and>
    poll_read mc s buf = rbind (put_slice buf m) (\<lambda>buf'. Ret (Ready (Inr ()), buf', s'))"
proof -
  obtain c' where c': "poll_next mc (incoming s) = (Ready (Some m), c')" "oq c' = Some q"
    using mpsc_next [OF assms] by blast
  show ?thesis
    using c' mpsc_alive [OF assms] by (intro exI [of _ "s\<lparr>incoming := c'\<rparr>"]) (simp add: poll_read_def)
qed

lemma push_dtls_queue:
  assumes "mpsc_laws mc oq" and "oq (incoming s) = Some q"
  shows "\<exists>s'. push_dtls mc s m = (Some (Inr ()), s') \<and> oq (incoming s') = Some (q @ [m]) \<and> outgoing s' = outgoing s"
  using mpsc_send [OF assms, of m] by (auto simp: push_dtls_def)

lemma poll_write_queue:
  assumes "mpsc_laws mc oq" and "oq (outgoing s) = Some q"
  shows "\<exists>s'. poll_write mc s m = (Ready (Inr (length m)), s') \<and> oq (outgoing s') = Some (q @ [m]) \<and> incoming s' = incoming s"
  using mpsc_send [OF assms, of m] by (auto simp: poll_write_def)

lemma outgoing_stream_next:
  assumes "mpsc_laws mc oq" and "oq (outgoing s) = Some (m # q)"
  shows "\<exists>s'. outgoing_stream mc addr s = (Ready (Some (create_outgoing m addr)), s') \<and>
    oq (outgoing s') = Some q \<and> incoming s' = incoming s"
  using mpsc_next [OF assms] mpsc_alive [OF assms] by (auto simp: outgoing_stream_def)

text \<open>Pushing, reading, writing and draining several datagrams.\<close>

fun push_all :: "'c mpsc_crate \<Rightarrow> bytes list \<Rightarrow> 'c ClientSslPackets \<Rightarrow> 'c ClientSslPackets" where
  "push_all mc [] s = s"
| "push_all mc (m # ms) s = push_all mc ms (snd (push_dtls mc s m))"

fun read_all ::
    "'c mpsc_crate \<Rightarrow> nat list \<Rightarrow> 'c ClientSslPackets \<Rightarrow> (bytes list \<times> 'c ClientSslPackets) rust" where
  "read_all mc [] s = Ret ([], s)"
| "read_all mc (n # ns) s =
     rbind (poll_read mc s \<lparr>filled = [], remaining = n\<rparr>) (\<lambda>(r, buf, s').
     rbind (read_all mc ns s') (\<lambda>(bs, s''). Ret (filled buf # bs, s'')))"

fun write_all :: "'c mpsc_crate \<Rightarrow> bytes list \<Rightarrow> 'c ClientSslPackets \<Rightarrow> 'c ClientSslPackets" where
  "write_all mc [] s = s"
| "write_all mc (m # ms) s = write_all mc ms (snd (poll_write mc s m))"

fun drain :: "'c mpsc_crate \<Rightarrow> SocketAddr \<Rightarrow> nat \<Rightarrow> 'c ClientSslPackets \<Rightarrow> DtlsMessage option poll list" where
  "drain mc addr 0 s = []"
| "drain mc addr (Suc n) s =
     (case outgoing_stream mc addr s of (r, s') \<Rightarrow> r # drain mc addr n s')"

lemma push_all_queue:
  assumes "mpsc_laws mc oq" and "oq (incoming s) = Some q"
  shows "oq (incoming (push_all mc ms s)) = Some (q @ ms)"
  using assms(2)
proof (induction ms arbitrary: s q)
  case (Cons m ms)
  from push_dtls_queue [OF assms(1) Cons.prems, of m] Cons.IH [of _ "q @ [m]"] show ?case by force
qed simp

lemma write_all_queue:
  assumes "mpsc_laws mc oq" and "oq (outgoing s) = Some q"
  shows "oq (outgoing (write_all mc ms s)) = Some (q @ ms)"
  using assms(2)
proof (induction ms arbitrary: s q)
  case (Cons m ms)
  from poll_write_queue [OF assms(1) Cons.prems, of m] Cons.IH [of _ "q @ [m]"] show ?case by force
qed simp

lemma read_all_queue:
  assumes "mpsc_laws mc oq" and "oq (incoming s) = Some ms" and "list_all2 (\<lambda>m n. length m \<le> n) ms ns"
  shows "\<exists>s'. read_all mc ns s = Ret (ms, s') \<and> oq (incoming s') = Some []"
  using assms(3,2)
proof (induction ms ns arbitrary: s rule: list_all2_induct)
  case (Cons m ms n ns)
  obtain s1 where s1: "oq (incoming s1) = Some ms" "poll_read mc s \<lparr>filled = [], remaining = n\<rparr> =
      rbind (put_slice \<lparr>filled = [], remaining = n\<rparr> m) (\<lambda>buf'. Ret (Ready (Inr ()), buf', s1))"
    using poll_read_next [OF assms(1) Cons.prems] by blast
  from Cons.IH [OF s1(1)] Cons.hyps(1) show ?case
    by (auto simp: s1(2) put_slice_def)
qed simp

lemma drain_queue:
  assumes "mpsc_laws mc oq" and "oq (outgoing s) = Some ms"
  shows "drain mc addr (length ms) s = map (\<lambda>m. Ready (Some (create_outgoing m addr))) ms"
  using assms(2)
proof (induction ms arbitrary: s)
  case (Cons m ms)
  from outgoing_stream_next [OF assms(1) Cons.prems, of addr] Cons.IH show ?case by auto
qed simp

section \<open>Properties\<close>

text \<open>
  C38. The TLS library reads the datagrams of a client in the order they came, one whole datagram per
  read: after any datagrams are pushed into a new stream, reads with enough room give exactly these
  datagrams, and a further read has to wait. A read with less room than the datagram panics.
\<close>

theorem datagrams_are_read_in_order:
  assumes "mpsc_laws mc oq" and "s = push_all mc ms (ClientSslPackets_new mc)"
  shows "(list_all2 (\<lambda>m n. length m \<le> n) ms ns \<longrightarrow>
      (\<exists>s'. read_all mc ns s = Ret (ms, s') \<and> poll_read mc s' buf = Ret (Pending, buf, s'))) \<and>
    (ms \<noteq> [] \<and> remaining buf < length (hd ms) \<longrightarrow> poll_read mc s buf = Abort SliceOutOfRange)"
proof -
  have q: "oq (incoming s) = Some ms"
    using push_all_queue [OF assms(1), of "ClientSslPackets_new mc" "[]" ms] assms
    by (simp add: ClientSslPackets_new_def mpsc_laws_def)
  have wait: "poll_read mc s' buf = Ret (Pending, buf, s')" if e: "oq (incoming s') = Some []" for s'
  proof -
    have "poll_next mc (incoming s') = (Pending, incoming s')"
      using assms(1) e unfolding mpsc_laws_def by blast
    then show ?thesis
      using mpsc_alive [OF assms(1) e] by (simp add: poll_read_def)
  qed
  have "poll_read mc s buf = Abort SliceOutOfRange" if "ms \<noteq> []" "remaining buf < length (hd ms)"
    using poll_read_next [OF assms(1), of s "hd ms" "tl ms" buf] q that by (auto simp: put_slice_def)
  then show ?thesis
    using read_all_queue [OF assms(1) q, of ns] wait by blast
qed

theorem datagrams_are_read_in_order_witness:
  "\<exists>s'. read_all list_channel [1500, 3]
      (push_all list_channel [[22, 1], [23, 2, 3]] (ClientSslPackets_new list_channel)) = Ret ([[22, 1], [23, 2, 3]], s')"
  using datagrams_are_read_in_order [OF list_channel_laws refl, of "[[22, 1], [23, 2, 3]]" "[1500, 3]"
      "\<lparr>filled = [], remaining = 0\<rparr>"] by auto

text \<open>
  What the TLS library writes leaves the server as it was written: every write is accepted
  whole and becomes one outgoing DTLS message for the client's address, in order.
\<close>

theorem writes_become_dtls_messages:
  assumes "mpsc_laws mc oq" and "s = write_all mc ms (ClientSslPackets_new mc)"
  shows "drain mc addr (length ms) s = map (\<lambda>m. Ready (Some (create_outgoing m addr))) ms \<and>
    (\<exists>s'. poll_write mc s m = (Ready (Inr (length m)), s'))"
proof -
  have q: "oq (outgoing s) = Some ms"
    using write_all_queue [OF assms(1), of "ClientSslPackets_new mc" "[]" ms] assms
    by (simp add: ClientSslPackets_new_def mpsc_laws_def)
  show ?thesis
    using drain_queue [OF assms(1) q] poll_write_queue [OF assms(1) q, of m] by blast
qed

theorem writes_become_dtls_messages_witness:
  "drain list_channel addr1 2 (write_all list_channel [[22], [23, 9]] (ClientSslPackets_new list_channel)) =
     [Ready (Some (create_outgoing [22] addr1)), Ready (Some (create_outgoing [23, 9] addr1))]"
  using writes_become_dtls_messages [OF list_channel_laws refl, of addr1 "[[22], [23, 9]]" "[]"]
  by (simp add: numeral_2_eq_2)

end
