(* ===== verification/Sdp_Response.thy ===== *)
theory Sdp_Response
  imports Udp_Server
begin

text \<open>
  \<open>src/src/sdp/mod.rs\<close> and the route \<open>parse_sdp\<close> of \<open>src/src/main.rs\<close>: the SDP offer of a client
  becomes an answer, and its users become sessions of the UDP server. Parsing, printing and the
  operations on media sections belong to the \<open>webrtc-sdp\<close> crate and are parameters; \<open>sdp_laws\<close> is what
  its documentation says about attributes. Random numbers and the clock are arguments.
\<close>

section \<open>Definitions\<close>

subsection \<open>The \<open>webrtc-sdp\<close> crate\<close>

datatype SdpAttributeType =
    TRtpmap | TIceUfrag | TIcePwd | TFingerprint | TSetup | TRtcp | TRtcpMux | TCandidate | TEndOfCandidates
  | TSendonly | TRecvonly | TMsid | TSsrc | TSsrcGroup | TMsidSemantic | TGroup | TIceLite | TIceOptions
  | TOther nat

primrec attribute_type :: "SdpAttribute \<Rightarrow> SdpAttributeType" where
  "attribute_type (Rtpmap p c f ch) = TRtpmap"
| "attribute_type (IceUfrag u) = TIceUfrag"
| "attribute_type (IcePwd pw) = TIcePwd"
| "attribute_type (FingerprintAttribute h b) = TFingerprint"
| "attribute_type (Setup r) = TSetup"
| "attribute_type (Rtcp p a) = TRtcp"
| "attribute_type RtcpMux = TRtcpMux"
| "attribute_type (Candidate pr a p) = TCandidate"
| "attribute_type EndOfCandidates = TEndOfCandidates"
| "attribute_type Sendonly = TSendonly"
| "attribute_type Recvonly = TRecvonly"
| "attribute_type (Msid s) = TMsid"
| "attribute_type (Ssrc s) = TSsrc"
| "attribute_type (SsrcGroup s) = TSsrcGroup"
| "attribute_type (MsidSemantic s ids) = TMsidSemantic"
| "attribute_type (GroupAttribute s tags) = TGroup"
| "attribute_type IceLite = TIceLite"
| "attribute_type (IceOptions os) = TIceOptions"
| "attribute_type (OtherAttribute n) = TOther n"

record SdpOrigin =
  username :: string
  session_id :: nat
  session_version :: nat
  unicast_addr :: bytes

record 'm SdpSession =
  version :: nat
  origin :: SdpOrigin
  session :: "string option"
  session_attributes :: "SdpAttribute list"
  timing :: "(nat \<times> nat) option"
  session_media :: "'m list"

record ('m, 'e) sdp_crate =
  parse_sdp :: "string \<Rightarrow> 'e + 'm SdpSession"
  session_to_string :: "'m SdpSession \<Rightarrow> string"
  session_get :: "'m SdpSession \<Rightarrow> SdpAttributeType \<Rightarrow> SdpAttribute option"
  session_add :: "'m SdpSession \<Rightarrow> SdpAttribute \<Rightarrow> 'e + 'm SdpSession"
  attribute_to_string :: "SdpAttribute \<Rightarrow> string"
  get_attributes :: "'m \<Rightarrow> SdpAttribute list"
  get_attribute :: "'m \<Rightarrow> SdpAttributeType \<Rightarrow> SdpAttribute option"
  remove_attribute :: "'m \<Rightarrow> SdpAttributeType \<Rightarrow> 'm"
  set_attribute :: "'m \<Rightarrow> SdpAttribute \<Rightarrow> 'e + 'm"
  add_attribute :: "'m \<Rightarrow> SdpAttribute \<Rightarrow> 'e + 'm"
  remove_codecs :: "'m \<Rightarrow> 'm"
  add_codec :: "'m \<Rightarrow> SdpAttribute \<Rightarrow> 'e + 'm"
  set_port :: "'m \<Rightarrow> nat \<Rightarrow> 'm"
  set_connection :: "'m \<Rightarrow> bytes \<Rightarrow> 'm"

text \<open>
  Attributes are kept in order; setting one replaces those of its type, removing codecs takes away the
  \<open>rtpmap\<close> attributes and may take away others the program does not name, adding a codec adds its
  \<open>rtpmap\<close>; a user fragment is printed with its name in front.
\<close>

definition sdp_laws :: "('m, 'e) sdp_crate \<Rightarrow> bool" where
  "sdp_laws cr \<longleftrightarrow>
     (\<forall>m t. get_attribute cr m t = find (\<lambda>a. attribute_type a = t) (get_attributes cr m)) \<and>
     (\<forall>m t. get_attributes cr (remove_attribute cr m t) =
        filter (\<lambda>a. attribute_type a \<noteq> t) (get_attributes cr m)) \<and>
     (\<forall>m a m'. set_attribute cr m a = Inr m' \<longrightarrow> get_attributes cr m' =
        filter (\<lambda>b. attribute_type b \<noteq> attribute_type a) (get_attributes cr m) @ [a]) \<and>
     (\<forall>m a m'. add_attribute cr m a = Inr m' \<longrightarrow> get_attributes cr m' = get_attributes cr m @ [a]) \<and>
     (\<forall>m t. t \<noteq> TRtpmap \<and> (\<forall>n. t \<noteq> TOther n) \<longrightarrow>
        filter (\<lambda>a. attribute_type a = t) (get_attributes cr (remove_codecs cr m)) =
        filter (\<lambda>a. attribute_type a = t) (get_attributes cr m)) \<and>
     (\<forall>m. filter (\<lambda>a. attribute_type a = TRtpmap) (get_attributes cr (remove_codecs cr m)) = []) \<and>
     (\<forall>m a m'. add_codec cr m a = Inr m' \<longrightarrow> get_attributes cr m' = get_attributes cr m @ [a]) \<and>
     (\<forall>m n. get_attributes cr (set_port cr m n) = get_attributes cr m) \<and>
     (\<forall>m ip. get_attributes cr (set_connection cr m ip) = get_attributes cr m) \<and>
     (\<forall>u. attribute_to_string cr (IceUfrag u) = ''ice-ufrag:'' @ u)"

subsection \<open>The answer\<close>

datatype 'e SdpResponseGeneratorError =
    SdpParserError 'e
  | SdpParserInternalError 'e
  | MailBoxError nat
  | CustomError string

text \<open>
  The conversions of the \<open>?\<close> operators, and \<open>Display\<close>; \<open>show_parser\<close> and \<open>show_internal\<close> are
  \<open>Display\<close> of the two errors of the crate.
\<close>

definition Sdp_from_parser :: "'e \<Rightarrow> 'e SdpResponseGeneratorError" where
  [simp]: "Sdp_from_parser e = SdpParserError e"

definition Sdp_from_internal :: "'e \<Rightarrow> 'e SdpResponseGeneratorError" where
  [simp]: "Sdp_from_internal e = SdpParserInternalError e"

definition Sdp_from_mailbox :: "nat \<Rightarrow> 'e SdpResponseGeneratorError" where
  [simp]: "Sdp_from_mailbox e = MailBoxError e"

definition Sdp_from_str :: "string \<Rightarrow> 'e SdpResponseGeneratorError" where
  [simp]: "Sdp_from_str e = CustomError e"

primrec display_error :: "('e \<Rightarrow> string) \<Rightarrow> ('e \<Rightarrow> string) \<Rightarrow> 'e SdpResponseGeneratorError \<Rightarrow> string" where
  "display_error show_parser show_internal (SdpParserError e) = show_parser e"
| "display_error show_parser show_internal (SdpParserInternalError e) = show_internal e"
| "display_error show_parser show_internal (MailBoxError e) = ''Udp receiver is broken''"
| "display_error show_parser show_internal (CustomError m) = m"

fun try_for_each :: "('a \<Rightarrow> 'm \<Rightarrow> 'e + 'm) \<Rightarrow> 'a list \<Rightarrow> 'm \<Rightarrow> 'e + 'm" where
  "try_for_each f [] m = Inr m"
| "try_for_each f (x # xs) m = sbind (f x m) (try_for_each f xs)"

definition is_supported_format :: "string \<Rightarrow> bool" where
  "is_supported_format format \<longleftrightarrow> format \<in>
     {''PCMU/8000'', ''PCMA/8000'', ''G722/8000'', ''H264/90000'', ''telephone-event/8000'', ''opus/48000'',
      ''VP8/90000'', ''VP9/90000''}"

fun supported_codec :: "SdpAttribute \<Rightarrow> bool" where
  "supported_codec (Rtpmap p c f ch) = is_supported_format (c @ ''/'' @ decimal (unat f))"
| "supported_codec _ = False"

definition remove_useless_attributes :: "('m, 'e) sdp_crate \<Rightarrow> 'm \<Rightarrow> 'e + 'm" where
  "remove_useless_attributes cr m =
     (let m = remove_attribute cr m TMsid
      in sbind (if get_attribute cr m TRecvonly \<noteq> None
                then set_attribute cr (remove_attribute cr m TRecvonly) Sendonly
                else if get_attribute cr m TSendonly \<noteq> None
                then set_attribute cr (remove_attribute cr m TSendonly) Recvonly
                else Inr m)
           (\<lambda>m. Inr (remove_attribute cr (remove_attribute cr m TSsrcGroup) TSsrc)))"

definition set_attributes ::
    "('m, 'e) sdp_crate \<Rightarrow> string \<Rightarrow> string \<Rightarrow> bytes \<Rightarrow> SocketAddr \<Rightarrow> u32 \<Rightarrow> 'm \<Rightarrow> 'e + 'm" where
  "set_attributes cr su server_passwd fingerprint addr priority m =
     (let good_codecs = filter supported_codec (get_attributes cr m); m = remove_codecs cr m
      in sbind (try_for_each (\<lambda>attr m. add_codec cr m attr) good_codecs m) (\<lambda>m.
         sbind (set_attribute cr m (IcePwd server_passwd)) (\<lambda>m.
         sbind (set_attribute cr m (IceUfrag su)) (\<lambda>m.
         sbind (set_attribute cr m (FingerprintAttribute ''sha-256'' fingerprint)) (\<lambda>m.
         sbind (set_attribute cr m (Setup Passive)) (\<lambda>m.
         sbind (set_attribute cr m (Rtcp (port addr) (Some (ip_octets addr)))) (\<lambda>m.
         sbind (set_attribute cr m RtcpMux) (\<lambda>m.
         sbind (add_attribute cr m (Candidate priority (ip_octets addr) (port addr))) (\<lambda>m.
           set_attribute cr m EndOfCandidates)))))))))"

definition answer_media ::
    "('m, 'e) sdp_crate \<Rightarrow> ServerMeta \<Rightarrow> bytes \<Rightarrow> SocketAddr \<Rightarrow> u32 \<Rightarrow> 'm \<Rightarrow> 'e + 'm" where
  "answer_media cr meta digest sdp_addr priority m =
     sbind (remove_useless_attributes cr (set_port cr m (unat (port sdp_addr)))) (\<lambda>m.
     sbind (set_attributes cr (user meta) (password meta) digest sdp_addr priority m) (\<lambda>m.
       Inr (set_connection cr m (ip_octets sdp_addr))))"

fun answer_all :: "(nat \<Rightarrow> 'm \<Rightarrow> 'e + 'm) \<Rightarrow> nat \<Rightarrow> 'm list \<Rightarrow> 'e + 'm list" where
  "answer_all f n [] = Inr []"
| "answer_all f n (m # ms) = sbind (f n m) (\<lambda>m'. sbind (answer_all f (Suc n) ms) (\<lambda>ms'. Inr (m' # ms')))"

text \<open>The messages that register the users of an offer; \<open>clk n\<close> is the clock at the n-th of them.\<close>

definition registrations ::
    "('m, 'e) sdp_crate \<Rightarrow> 'b bimap_crate \<Rightarrow> ServerMeta \<Rightarrow> nat \<Rightarrow> (nat \<Rightarrow> time) \<Rightarrow> 'm SdpSession \<Rightarrow>
      'b recv_message list" where
  "registrations cr bm meta gid clk req =
     concat (map (\<lambda>(n, attr).
       let client_user = replace (attribute_to_string cr attr) ''ice-ufrag:'' [];
           s = Session (user meta) client_user
       in [SessionMessage s \<lparr>group_id = gid, ttl = clk n, is_sender = (session_get cr req TSendonly \<noteq> None)\<rparr>,
           MediaUserMessage (get_client s) (MediaList_from bm (map (get_attributes cr) (session_media req)))])
       (List.enumerate 0 (List.map_filter (\<lambda>m. get_attribute cr m TIceUfrag) (session_media req))))"

text \<open>
  \<open>server_data\<close> is what the UDP server replied, \<open>sent\<close> whether it took the registrations; \<open>sid\<close> and
  \<open>prio n\<close> are the random numbers. The result comes with the messages sent.
\<close>

definition generate_streamer_response ::
    "('m, 'e) sdp_crate \<Rightarrow> 'b bimap_crate \<Rightarrow> nat + ServerMeta \<times> bytes \<Rightarrow> bool \<Rightarrow> (nat \<Rightarrow> time) \<Rightarrow> u16 \<Rightarrow>
      (nat \<Rightarrow> u32) \<Rightarrow> string \<Rightarrow> nat \<Rightarrow> SocketAddr \<Rightarrow>
      (('e SdpResponseGeneratorError + 'm SdpSession) \<times> 'b recv_message list) rust" where
  "generate_streamer_response cr bm server_data sent clk sid prio sdp gid sdp_addr =
     (case parse_sdp cr sdp of
        Inl e \<Rightarrow> Ret (Inl (Sdp_from_parser e), [])
      | Inr req \<Rightarrow>
      case server_data of
        Inl e \<Rightarrow> Ret (Inl (Sdp_from_mailbox e), [])
      | Inr (meta, digest) \<Rightarrow>
      case session req of
        None \<Rightarrow> Ret (Inl (Sdp_from_str ''Session is empty''), [])
      | Some name \<Rightarrow>
          let group = (case session_get cr req TGroup of
                Some g \<Rightarrow> g
              | None \<Rightarrow> GroupAttribute ''BUNDLE'' (map decimal [0..<length (session_media req)]));
              msgs = registrations cr bm meta gid clk req
          in if \<not> sent \<and> msgs \<noteq> [] then Abort ExpectFailed
             else
               case answer_all (\<lambda>n. answer_media cr meta digest sdp_addr (prio n)) 0 (session_media req) of
                 Inl e \<Rightarrow> Ret (Inl (Sdp_from_internal e), msgs)
               | Inr media \<Rightarrow>
                   let org = (origin req)\<lparr>session_id := unat sid, unicast_addr := ip_octets sdp_addr,
                         username := ''-''\<rparr>;
                       res = \<lparr>version = version req, origin = org, session = Some name,
                         session_attributes = [], timing = None, session_media = []\<rparr>
                   in case sbind (session_add cr res (MsidSemantic ''WMS'' [])) (\<lambda>res.
                           sbind (session_add cr res group) (\<lambda>res.
                           sbind (session_add cr res IceLite) (\<lambda>res.
                             session_add cr res (IceOptions [''trickle''])))) of
                        Inl e \<Rightarrow> Ret (Inl (Sdp_from_internal e), msgs)
                      | Inr res \<Rightarrow> Ret (Inr (res\<lparr>timing := Some (0, 0), session_media := media\<rparr>), msgs))"

subsection \<open>The HTTP route\<close>

datatype http_response = Ok string | BadRequest string

definition parse_sdp_route ::
    "('m, 'e) sdp_crate \<Rightarrow> 'b bimap_crate \<Rightarrow> ('e \<Rightarrow> string) \<Rightarrow> ('e \<Rightarrow> string) \<Rightarrow>
      nat + ServerMeta \<times> bytes \<Rightarrow> bool \<Rightarrow> (nat \<Rightarrow> time) \<Rightarrow> u16 \<Rightarrow> (nat \<Rightarrow> u32) \<Rightarrow> bytes \<Rightarrow> nat \<Rightarrow> SocketAddr \<Rightarrow> (http_response \<times> 'b recv_message list) rust" where
  "parse_sdp_route cr bm show_parser show_internal server_data sent clk sid prio body gid sdp_addr =
     (case from_utf8 body of
        None \<Rightarrow> Ret (BadRequest [], [])
      | Some text \<Rightarrow>
          rbind (generate_streamer_response cr bm server_data sent clk sid prio text gid sdp_addr) (\<lambda>(res, msgs).
            case res of
              Inl e \<Rightarrow> Ret (BadRequest (display_error show_parser show_internal e), msgs)
            | Inr sdp \<Rightarrow>
                Ret (Ok (replace (session_to_string cr sdp) [CHR 0x0D, CHR 0x0A, CHR 0x0D, CHR 0x0A]
                       [CHR 0x0D, CHR 0x0A]), msgs)))"

section \<open>Lemmas\<close>

lemma sdp_lawsD:
  assumes "sdp_laws cr"
  shows "get_attribute cr m t = find (\<lambda>a. attribute_type a = t) (get_attributes cr m)"
    and "get_attributes cr (remove_attribute cr m t) = filter (\<lambda>a. attribute_type a \<noteq> t) (get_attributes cr m)"
    and "set_attribute cr m a = Inr m' \<Longrightarrow> get_attributes cr m' =
      filter (\<lambda>b. attribute_type b \<noteq> attribute_type a) (get_attributes cr m) @ [a]"
    and "add_attribute cr m a = Inr m' \<Longrightarrow> get_attributes cr m' = get_attributes cr m @ [a]"
    and "t \<noteq> TRtpmap \<Longrightarrow> (\<And>n. t \<noteq> TOther n) \<Longrightarrow>
      filter (\<lambda>a. attribute_type a = t) (get_attributes cr (remove_codecs cr m)) =
      filter (\<lambda>a. attribute_type a = t) (get_attributes cr m)"
    and "filter (\<lambda>a. attribute_type a = TRtpmap) (get_attributes cr (remove_codecs cr m)) = []"
    and "add_codec cr m a = Inr m' \<Longrightarrow> get_attributes cr m' = get_attributes cr m @ [a]"
    and "get_attributes cr (set_port cr m n) = get_attributes cr m"
    and "get_attributes cr (set_connection cr m ip) = get_attributes cr m"
    and "attribute_to_string cr (IceUfrag u) = ''ice-ufrag:'' @ u"
  using assms unfolding sdp_laws_def by simp_all

text \<open>The attributes of one type of a media section.\<close>

definition of_type :: "('m, 'e) sdp_crate \<Rightarrow> SdpAttributeType \<Rightarrow> 'm \<Rightarrow> SdpAttribute list" where
  "of_type cr t m = filter (\<lambda>a. attribute_type a = t) (get_attributes cr m)"

lemma find_filter: "find P xs = (case filter P xs of [] \<Rightarrow> None | x # _ \<Rightarrow> Some x)"
  by (induction xs) auto

lemma of_type_ops:
  assumes "sdp_laws cr"
  shows "get_attribute cr m t = (case of_type cr t m of [] \<Rightarrow> None | x # _ \<Rightarrow> Some x)"
    and "of_type cr t (remove_attribute cr m t') = (if t = t' then [] else of_type cr t m)"
    and "set_attribute cr m a = Inr m' \<Longrightarrow> of_type cr t m' = (if t = attribute_type a then [a] else of_type cr t m)"
    and "add_attribute cr m a = Inr m' \<Longrightarrow> of_type cr t m' = of_type cr t m @ (if t = attribute_type a then [a] else [])"
    and "add_codec cr m a = Inr m' \<Longrightarrow> of_type cr t m' = of_type cr t m @ (if t = attribute_type a then [a] else [])"
    and "of_type cr t (set_port cr m n) = of_type cr t m"
    and "of_type cr t (set_connection cr m ip) = of_type cr t m"
    and "of_type cr TRtpmap (remove_codecs cr m) = []"
    and "t \<noteq> TRtpmap \<Longrightarrow> (\<And>n. t \<noteq> TOther n) \<Longrightarrow> of_type cr t (remove_codecs cr m) = of_type cr t m"
  using sdp_lawsD [OF assms] unfolding of_type_def find_filter
  by (auto simp: filter_empty_conv intro!: filter_cong)

lemma of_type_codecs:
  assumes "sdp_laws cr"
  shows "try_for_each (\<lambda>attr m. add_codec cr m attr) as m = Inr m' \<Longrightarrow>
    of_type cr t m' = of_type cr t m @ filter (\<lambda>a. attribute_type a = t) as"
proof (induction as arbitrary: m)
  case (Cons a as)
  then obtain m1 where m1: "add_codec cr m a = Inr m1" "try_for_each (\<lambda>attr m. add_codec cr m attr) as m1 = Inr m'"
    by auto
  show ?case
    using Cons.IH [OF m1(2)] of_type_ops(5) [OF assms m1(1), of t] by auto
qed simp

lemma supported_is_rtpmap: "supported_codec a \<Longrightarrow> attribute_type a = TRtpmap"
  by (cases a) auto

lemma filter_supported:
  "filter (\<lambda>a. attribute_type a = t) (filter supported_codec xs) =
     (if t = TRtpmap then filter supported_codec (filter (\<lambda>a. attribute_type a = TRtpmap) xs) else [])"
  by (induction xs) (auto dest: supported_is_rtpmap)

text \<open>What \<open>remove_useless_attributes\<close> leaves, type by type.\<close>

lemma useless_of_type:
  assumes "sdp_laws cr" and "remove_useless_attributes cr m = Inr m'"
  shows "of_type cr t m' =
    (if t \<in> {TMsid, TSsrc, TSsrcGroup} then []
     else if of_type cr TRecvonly m \<noteq> [] then
       (if t = TRecvonly then [] else if t = TSendonly then [Sendonly] else of_type cr t m)
     else if of_type cr TSendonly m \<noteq> [] then
       (if t = TSendonly then [] else if t = TRecvonly then [Recvonly] else of_type cr t m)
     else of_type cr t m)"
  using assms(2) of_type_ops [OF assms(1)]
  by (auto simp: remove_useless_attributes_def Let_def split: if_splits list.splits)

text \<open>What \<open>set_attributes\<close> adds: each attribute it sets is the only one of its type.\<close>

lemma attributes_of_type:
  assumes "sdp_laws cr" and "set_attributes cr su pw fp addr pr m = Inr m'"
  shows "of_type cr TRtpmap m' = filter supported_codec (of_type cr TRtpmap m)"
    and "of_type cr TIcePwd m' = [IcePwd pw]" and "of_type cr TIceUfrag m' = [IceUfrag su]"
    and "of_type cr TFingerprint m' = [FingerprintAttribute ''sha-256'' fp]"
    and "of_type cr TSetup m' = [Setup Passive]"
    and "t \<in> {TSendonly, TRecvonly, TMsid, TSsrc, TSsrcGroup} \<Longrightarrow> of_type cr t m' = of_type cr t m"
proof -
  obtain m1 m2 m3 m4 m5 m6 m7 m8 where
    c: "try_for_each (\<lambda>attr m. add_codec cr m attr) (filter supported_codec (get_attributes cr m)) (remove_codecs cr m) = Inr m1"
    and s: "set_attribute cr m1 (IcePwd pw) = Inr m2" "set_attribute cr m2 (IceUfrag su) = Inr m3"
      "set_attribute cr m3 (FingerprintAttribute ''sha-256'' fp) = Inr m4" "set_attribute cr m4 (Setup Passive) = Inr m5"
      "set_attribute cr m5 (Rtcp (port addr) (Some (ip_octets addr))) = Inr m6" "set_attribute cr m6 RtcpMux = Inr m7"
    and a: "add_attribute cr m7 (Candidate pr (ip_octets addr) (port addr)) = Inr m8"
    and e: "set_attribute cr m8 EndOfCandidates = Inr m'"
    using assms(2) by (auto simp: set_attributes_def Let_def)
  note sets = s [THEN of_type_ops(3) [OF assms(1)]] e [THEN of_type_ops(3) [OF assms(1)]]
    of_type_ops(4) [OF assms(1) a]
  have m1: "of_type cr t m1 = (if t = TRtpmap then filter supported_codec (of_type cr TRtpmap m)
      else of_type cr t (remove_codecs cr m))" for t
  proof -
    have "filter (\<lambda>a. attribute_type a = t) (filter supported_codec (get_attributes cr m)) =
        (if t = TRtpmap then filter supported_codec (of_type cr TRtpmap m) else [])"
      by (simp only: filter_supported of_type_def)
    then show ?thesis
      using of_type_codecs [OF assms(1) c, of t] of_type_ops(8) [OF assms(1), of m]
      by (auto simp del: filter_filter)
  qed
  show "of_type cr TRtpmap m' = filter supported_codec (of_type cr TRtpmap m)"
    "of_type cr TIcePwd m' = [IcePwd pw]" "of_type cr TIceUfrag m' = [IceUfrag su]"
    "of_type cr TFingerprint m' = [FingerprintAttribute ''sha-256'' fp]" "of_type cr TSetup m' = [Setup Passive]"
    by (simp_all add: sets m1)
  show "of_type cr t m' = of_type cr t m" if "t \<in> {TSendonly, TRecvonly, TMsid, TSsrc, TSsrcGroup}"
    using that of_type_ops(9) [OF assms(1), of t m] by (auto simp: sets m1)
qed

subsection \<open>Registrations\<close>

definition client_user :: "('m, 'e) sdp_crate \<Rightarrow> SdpAttribute \<Rightarrow> string" where
  "client_user cr attr = replace (attribute_to_string cr attr) ''ice-ufrag:'' []"

definition offer_users :: "('m, 'e) sdp_crate \<Rightarrow> 'm SdpSession \<Rightarrow> string list" where
  "offer_users cr req =
     map (client_user cr) (List.map_filter (\<lambda>m. get_attribute cr m TIceUfrag) (session_media req))"

lemma registrations_eq:
  "registrations cr bm meta gid clk req =
     concat (map (\<lambda>(n, u). [SessionMessage (Session (user meta) u)
         \<lparr>group_id = gid, ttl = clk n, is_sender = (session_get cr req TSendonly \<noteq> None)\<rparr>,
       MediaUserMessage u (MediaList_from bm (map (get_attributes cr) (session_media req)))])
       (List.enumerate 0 (offer_users cr req)))"
  unfolding registrations_def offer_users_def
  by (simp add: enumerate_map_upt client_user_def Let_def enumerate_eq_zip zip_map2 comp_def split_def)

lemma client_user_ufrag:
  assumes "sdp_laws cr" and "CHR '':'' \<notin> set u"
  shows "client_user cr (IceUfrag u) = u"
  using replace_prefix [of "''ice-ufrag:''" "CHR '':''" u] assms
  by (simp add: client_user_def sdp_lawsD(10) [OF assms(1)])

lemma run_registrations:
  assumes "run_actor handle_udp_recv st
      (concat (map (\<lambda>(n, u). [SessionMessage (Session su u) (it n), MediaUserMessage u md]) us)) = Ret (outs, st')"
  shows "(if u \<in> snd ` set us then (\<exists>n. map_of (sessions st') (Session su u) = Some (it n)) \<and> media_sessions st' u = Some md
     else map_of (sessions st') (Session su u) = map_of (sessions st) (Session su u) \<and>
       media_sessions st' u = media_sessions st u)"
  using assms
proof (induction us arbitrary: st outs)
  case (Cons x us)
  obtain n v where x: "x = (n, v)" by (cases x)
  let ?st = "handle_MediaUserMessage v md (snd (handle_SessionMessage (Session su v) (it n) st))"
  have "\<exists>outs'. run_actor handle_udp_recv ?st
      (concat (map (\<lambda>(n, u). [SessionMessage (Session su u) (it n), MediaUserMessage u md]) us)) = Ret (outs', st')"
    using Cons.prems by (auto simp: x rust_iffs handle_SessionMessage_def split: prod.splits)
  then obtain outs' where "run_actor handle_udp_recv ?st
      (concat (map (\<lambda>(n, u). [SessionMessage (Session su u) (it n), MediaUserMessage u md]) us)) = Ret (outs', st')"
    by blast
  note ih = Cons.IH [OF this]
  show ?case
  proof (cases "u \<in> snd ` set us")
    case True
    then show ?thesis using ih by (simp add: x)
  next
    case False
    then show ?thesis
      using ih by (auto simp: x handle_MediaUserMessage_def handle_SessionMessage_def update_conv simp del: image_iff)
  qed
qed simp

text \<open>A media section as the list of its attributes satisfies the laws.\<close>

definition list_sdp :: "SdpAttribute list SdpSession \<Rightarrow> (SdpAttribute list, nat) sdp_crate" where
  "list_sdp offer =
     \<lparr>parse_sdp = (\<lambda>_. Inr offer), session_to_string = (\<lambda>_. []),
      session_get = (\<lambda>s t. find (\<lambda>a. attribute_type a = t) (session_attributes s)),
      session_add = (\<lambda>s a. Inr (s\<lparr>session_attributes := session_attributes s @ [a]\<rparr>)),
      attribute_to_string = (\<lambda>a. case a of IceUfrag u \<Rightarrow> ''ice-ufrag:'' @ u | _ \<Rightarrow> []),
      get_attributes = (\<lambda>m. m),
      get_attribute = (\<lambda>m t. find (\<lambda>a. attribute_type a = t) m),
      remove_attribute = (\<lambda>m t. filter (\<lambda>a. attribute_type a \<noteq> t) m),
      set_attribute = (\<lambda>m a. Inr (filter (\<lambda>b. attribute_type b \<noteq> attribute_type a) m @ [a])),
      add_attribute = (\<lambda>m a. Inr (m @ [a])),
      remove_codecs = filter (\<lambda>a. attribute_type a \<noteq> TRtpmap),
      add_codec = (\<lambda>m a. Inr (m @ [a])),
      set_port = (\<lambda>m n. m), set_connection = (\<lambda>m ip. m)\<rparr>"

lemma char_of_eqI: "n = (of_char c :: nat) \<Longrightarrow> char_of n = c"
  by simp

lemma digit_chars: "char_of (57::nat) = CHR ''9''" "char_of (48::nat) = CHR ''0''"
  by (rule char_of_eqI, simp)+

lemma decimal_90000: "decimal 90000 = ''90000''"
  by (simp add: decimal.simps digit_chars)

lemma list_sdp_laws [simp]: "sdp_laws (list_sdp offer)"
  by (auto simp: sdp_laws_def list_sdp_def filter_empty_conv intro!: filter_cong)

definition demo_offer :: "SdpAttribute list SdpSession" where
  "demo_offer =
     \<lparr>version = 0, origin = \<lparr>username = ''-'', session_id = 1, session_version = 1, unicast_addr = []\<rparr>,
      session = Some ''s'', session_attributes = [Sendonly], timing = None,
      session_media = [[IceUfrag ''Ab12'', Sendonly, Setup Actpass, Rtpmap 96 ''VP8'' 90000 None,
        Rtpmap 97 ''rtx'' 90000 None, Ssrc ''1'']]\<rparr>"

subsection \<open>The outcome of an offer\<close>

lemma generate_returns: "returns (generate_streamer_response cr bm server_data True clk sid prio sdp gid sdp_addr)"
  by (simp add: generate_streamer_response_def Let_def split: sum.splits option.splits)

lemma generate_outcome:
  assumes "generate_streamer_response cr bm server_data True clk sid prio sdp gid sdp_addr = Ret (res, msgs)"
  shows "parse_sdp cr sdp = Inl e \<Longrightarrow> res = Inl (SdpParserError e) \<and> msgs = []"
    and "parse_sdp cr sdp = Inr req \<Longrightarrow> server_data = Inr (meta, digest) \<Longrightarrow> session req = None \<Longrightarrow>
      res = Inl (CustomError ''Session is empty'') \<and> msgs = []"
    and "parse_sdp cr sdp = Inr req \<Longrightarrow> server_data = Inr (meta, digest) \<Longrightarrow> session req = Some name \<Longrightarrow>
      msgs = registrations cr bm meta gid clk req"
    and "parse_sdp cr sdp = Inr req \<Longrightarrow> server_data = Inr (meta, digest) \<Longrightarrow> session req = Some name \<Longrightarrow>
      answer_all (\<lambda>n. answer_media cr meta digest sdp_addr (prio n)) 0 (session_media req) = Inl e' \<Longrightarrow>
      res = Inl (SdpParserInternalError e')"
  using assms by (auto simp: generate_streamer_response_def Let_def split: sum.splits option.splits)

section \<open>Properties\<close>

text \<open>
  C36. A media section of the answer offers the supported codecs of the offer and no others: its
  \<open>rtpmap\<close> attributes are those of the offer whose name and clock rate are on the server's list, in
  their order.
\<close>

theorem answer_keeps_supported_codecs:
  assumes "sdp_laws cr" and "answer_media cr meta digest addr pr m = Inr m'"
  shows "of_type cr TRtpmap m' = filter supported_codec (of_type cr TRtpmap m)"
proof -
  obtain m1 m2 where m: "remove_useless_attributes cr (set_port cr m (unat (port addr))) = Inr m1"
    "set_attributes cr (user meta) (password meta) digest addr pr m1 = Inr m2"
    "m' = set_connection cr m2 (ip_octets addr)"
    using assms(2) by (auto simp: answer_media_def)
  show ?thesis
    using useless_of_type [OF assms(1) m(1), of TRtpmap] attributes_of_type(1) [OF assms(1) m(2)]
    by (simp add: m(3) of_type_ops [OF assms(1)])
qed

theorem answer_keeps_supported_codecs_witness:
  "\<exists>m'. answer_media (list_sdp demo_offer) \<lparr>user = ''u'', password = ''p''\<rparr> [1] (V4 1 2) 5
       (hd (session_media demo_offer)) = Inr m' \<and>
     of_type (list_sdp demo_offer) TRtpmap m' = [Rtpmap 96 ''VP8'' 90000 None]"
proof -
  have "\<exists>m'. answer_media (list_sdp demo_offer) \<lparr>user = ''u'', password = ''p''\<rparr> [1] (V4 1 2) 5
       (hd (session_media demo_offer)) = Inr m'"
    by (simp add: answer_media_def remove_useless_attributes_def set_attributes_def list_sdp_def demo_offer_def
        is_supported_format_def decimal_90000)
  then obtain m' where m': "answer_media (list_sdp demo_offer) \<lparr>user = ''u'', password = ''p''\<rparr> [1] (V4 1 2) 5
       (hd (session_media demo_offer)) = Inr m'" by blast
  have "of_type (list_sdp demo_offer) TRtpmap m' = [Rtpmap 96 ''VP8'' 90000 None]"
    unfolding answer_keeps_supported_codecs [OF list_sdp_laws m']
    by (simp add: of_type_def list_sdp_def demo_offer_def is_supported_format_def decimal_90000)
  with m' show ?thesis by blast
qed

text \<open>
  C37. A media section of the answer carries the server's identity and mirrors the direction: the ICE
  user, password and fingerprint are the server's and the only ones, the server is the passive side, a
  receiving section becomes a sending one and the other way round, and nothing identifies the
  client's own streams.
\<close>

theorem answer_identity_and_direction:
  assumes "sdp_laws cr" and "answer_media cr meta digest addr pr m = Inr m'"
  shows "of_type cr TIceUfrag m' = [IceUfrag (user meta)] \<and> of_type cr TIcePwd m' = [IcePwd (password meta)] \<and>
    of_type cr TFingerprint m' = [FingerprintAttribute ''sha-256'' digest] \<and> of_type cr TSetup m' = [Setup Passive] \<and>
    (of_type cr TRecvonly m \<noteq> [] \<longrightarrow> of_type cr TSendonly m' = [Sendonly] \<and> of_type cr TRecvonly m' = []) \<and>
    (of_type cr TRecvonly m = [] \<and> of_type cr TSendonly m \<noteq> [] \<longrightarrow>
       of_type cr TRecvonly m' = [Recvonly] \<and> of_type cr TSendonly m' = []) \<and>
    of_type cr TSsrc m' = [] \<and> of_type cr TSsrcGroup m' = [] \<and> of_type cr TMsid m' = []"
proof -
  obtain m1 m2 where m: "remove_useless_attributes cr (set_port cr m (unat (port addr))) = Inr m1"
    "set_attributes cr (user meta) (password meta) digest addr pr m1 = Inr m2"
    "m' = set_connection cr m2 (ip_octets addr)"
    using assms(2) by (auto simp: answer_media_def)
  note a = attributes_of_type [OF assms(1) m(2)]
  show ?thesis
    using useless_of_type [OF assms(1) m(1)] a by (simp add: m(3) of_type_ops [OF assms(1)])
qed

theorem answer_identity_and_direction_witness:
  "\<exists>m'. answer_media (list_sdp demo_offer) \<lparr>user = ''u'', password = ''p''\<rparr> [1] (V4 1 2) 5
       (hd (session_media demo_offer)) = Inr m' \<and>
     of_type (list_sdp demo_offer) TRecvonly m' = [Recvonly] \<and> of_type (list_sdp demo_offer) TSsrc m' = [] \<and>
     of_type (list_sdp demo_offer) TIceUfrag m' = [IceUfrag ''u'']"
proof -
  have "\<exists>m'. answer_media (list_sdp demo_offer) \<lparr>user = ''u'', password = ''p''\<rparr> [1] (V4 1 2) 5
       (hd (session_media demo_offer)) = Inr m'"
    by (simp add: answer_media_def remove_useless_attributes_def set_attributes_def list_sdp_def demo_offer_def
        is_supported_format_def decimal_90000)
  then obtain m' where m': "answer_media (list_sdp demo_offer) \<lparr>user = ''u'', password = ''p''\<rparr> [1] (V4 1 2) 5
       (hd (session_media demo_offer)) = Inr m'" by blast
  moreover have "of_type (list_sdp demo_offer) TRecvonly (hd (session_media demo_offer)) = []"
    "of_type (list_sdp demo_offer) TSendonly (hd (session_media demo_offer)) = [Sendonly]"
    by (simp_all add: of_type_def list_sdp_def demo_offer_def)
  ultimately show ?thesis
    using answer_identity_and_direction [OF list_sdp_laws m'] by simp
qed

text \<open>
  C15. The users of an offer become sessions that STUN accepts: once the messages of a successful answer
  have reached the UDP server, a STUN request whose user name pairs the server's user with the ICE user
  of any media section of the offer is answered, and the client actor is told the announced media, the
  group of the request and whether the offer was to send.
\<close>

theorem offer_opens_sessions:
  assumes "sdp_laws cr" and "parse_sdp cr sdp = Inr offer"
    and "generate_streamer_response cr bm (Inr (meta, digest)) sent clk sid prio sdp gid sdp_addr = Ret (Inr answer, msgs)"
    and "m \<in> set (session_media offer)" and "get_attribute cr m TIceUfrag = Some (IceUfrag u)"
    and "CHR '':'' \<notin> set u"
    and "run_actor handle_udp_recv st msgs = Ret (outs, st')"
    and "server_user req = user meta" and "remote_user req = u"
  shows "handle_Datagram (Stun req addr) st' =
    [DtlsMedia addr (MediaList_from bm (map (get_attributes cr) (session_media offer))),
     SendRequest (Stun req addr), DtlsGroup gid addr (session_get cr offer TSendonly \<noteq> None)]"
proof -
  have msgs: "msgs = registrations cr bm meta gid clk offer"
    using assms(2,3) by (auto simp: Let_def split: option.splits if_splits sum.splits
        simp: generate_streamer_response_def)
  have "IceUfrag u \<in> set (List.map_filter (\<lambda>m. get_attribute cr m TIceUfrag) (session_media offer))"
    using assms(4,5) by (force simp: map_filter_def)
  then have "client_user cr (IceUfrag u) \<in> set (offer_users cr offer)"
    unfolding offer_users_def set_map by (rule imageI)
  then have u: "u \<in> set (offer_users cr offer)"
    using client_user_ufrag [OF assms(1,6)] by simp
  show ?thesis
    using run_registrations [OF assms(7) [unfolded msgs registrations_eq], of u] u assms(8,9)
    by (auto simp: handle_Datagram_def set_map [symmetric] simp del: set_map)
qed

theorem offer_opens_sessions_witness:
  "\<exists>answer msgs outs st'. generate_streamer_response (list_sdp demo_offer) two_maps
      (Inr (\<lparr>user = ''u'', password = ''p''\<rparr>, [1])) True (\<lambda>_. 0) 9 (\<lambda>_. 5) [] 7 (V4 1 2) = Ret (Inr answer, msgs) \<and>
    run_actor handle_udp_recv (UdpRecv_new \<lparr>user = ''u'', password = ''p''\<rparr>) msgs = Ret (outs, st') \<and>
    DtlsGroup 7 (V4 1 1) True \<in> set (handle_Datagram
      (Stun \<lparr>transaction_id = [], remote_user = ''Ab12'', server_user = ''u''\<rparr> (V4 1 1)) st')"
proof -
  let ?g = "generate_streamer_response (list_sdp demo_offer) two_maps
      (Inr (\<lparr>user = ''u'', password = ''p''\<rparr>, [1])) True (\<lambda>_. 0) 9 (\<lambda>_. 5) [] 7 (V4 1 2)"
  have "\<exists>answer msgs. ?g = Ret (Inr answer, msgs)"
    by (simp add: generate_streamer_response_def answer_media_def remove_useless_attributes_def
        set_attributes_def list_sdp_def demo_offer_def is_supported_format_def decimal_90000)
  then obtain answer msgs where g: "?g = Ret (Inr answer, msgs)"
    by blast
  obtain outs st' where r: "run_actor handle_udp_recv (UdpRecv_new \<lparr>user = ''u'', password = ''p''\<rparr>) msgs = Ret (outs, st')"
    using udp_recv.run_returns [of "UdpRecv_new \<lparr>user = ''u'', password = ''p''\<rparr>" msgs]
    by (auto simp: recv_inv_def UdpRecv_new_def)
  have "handle_Datagram (Stun \<lparr>transaction_id = [], remote_user = ''Ab12'', server_user = ''u''\<rparr> (V4 1 1)) st' =
      [DtlsMedia (V4 1 1) (MediaList_from two_maps (map (get_attributes (list_sdp demo_offer)) (session_media demo_offer))),
       SendRequest (Stun \<lparr>transaction_id = [], remote_user = ''Ab12'', server_user = ''u''\<rparr> (V4 1 1)),
       DtlsGroup 7 (V4 1 1) (session_get (list_sdp demo_offer) demo_offer TSendonly \<noteq> None)]"
    by (rule offer_opens_sessions [OF list_sdp_laws _ g _ _ _ r, of _ "hd (session_media demo_offer)" "''Ab12''"])
      (simp_all add: list_sdp_def demo_offer_def)
  then show ?thesis
    using g r by (auto simp: list_sdp_def demo_offer_def)
qed

text \<open>
  C40. What becomes of an offer, while the receiving actor is alive: a body that is not UTF-8, that is no
  SDP or that has no session name is refused with status 400 and its reason, and nothing is registered;
  any other offer is registered first, and stays registered when building the answer then fails and the
  client gets status 400.
\<close>

theorem sdp_route_outcome:
  "\<exists>resp msgs. parse_sdp_route cr bm show_parser show_internal server_data True clk sid prio body gid sdp_addr =
      Ret (resp, msgs) \<and>
    (\<not> utf8_valid body \<longrightarrow> resp = BadRequest [] \<and> msgs = []) \<and>
    (\<forall>e. utf8_valid body \<and> parse_sdp cr (str_of_bytes body) = Inl e \<longrightarrow> resp = BadRequest (show_parser e) \<and> msgs = []) \<and>
    (\<forall>req meta digest. utf8_valid body \<and> parse_sdp cr (str_of_bytes body) = Inr req \<and> server_data = Inr (meta, digest) \<longrightarrow>
       (session req = None \<longrightarrow> resp = BadRequest ''Session is empty'' \<and> msgs = []) \<and>
       (session req \<noteq> None \<longrightarrow> msgs = registrations cr bm meta gid clk req \<and>
          (\<forall>e. answer_all (\<lambda>n. answer_media cr meta digest sdp_addr (prio n)) 0 (session_media req) = Inl e \<longrightarrow>
             resp = BadRequest (show_internal e))))"
proof (cases "utf8_valid body")
  case False
  then show ?thesis
    by (simp add: parse_sdp_route_def from_utf8_def)
next
  case True
  let ?g = "generate_streamer_response cr bm server_data True clk sid prio (str_of_bytes body) gid sdp_addr"
  have route: "parse_sdp_route cr bm show_parser show_internal server_data True clk sid prio body gid sdp_addr =
      rbind ?g (\<lambda>(res, msgs). case res of
          Inl e \<Rightarrow> Ret (BadRequest (display_error show_parser show_internal e), msgs)
        | Inr sdp \<Rightarrow> Ret (Ok (replace (session_to_string cr sdp) [CHR 0x0D, CHR 0x0A, CHR 0x0D, CHR 0x0A]
            [CHR 0x0D, CHR 0x0A]), msgs))"
    using True by (simp add: parse_sdp_route_def from_utf8_def)
  obtain res msgs where g: "?g = Ret (res, msgs)"
    using generate_returns by (metis returns_iff surj_pair)
  show ?thesis
    using True unfolding route g by (cases res) (auto dest: generate_outcome [OF g])
qed

theorem sdp_route_outcome_witness:
  "\<exists>resp. parse_sdp_route (list_sdp demo_offer) two_maps (\<lambda>_. []) (\<lambda>_. []) (Inr (\<lparr>user = ''u'', password = ''p''\<rparr>, [1])) True
      (\<lambda>_. 0) 9 (\<lambda>_. 5) [] 7 (V4 1 2) =
    Ret (resp, registrations (list_sdp demo_offer) two_maps \<lparr>user = ''u'', password = ''p''\<rparr> 7 (\<lambda>_. 0) demo_offer)"
  using sdp_route_outcome [of "list_sdp demo_offer" two_maps "\<lambda>_. []" "\<lambda>_. []" "Inr (\<lparr>user = ''u'', password = ''p''\<rparr>, [1])"
      "\<lambda>_. 0" 9 "\<lambda>_. 5" "[]" 7 "V4 1 2"]
  by (auto simp: list_sdp_def demo_offer_def)

end
