(* ===== verification/Startup.thy ===== *)
theory Startup
  imports Mailbox_Invariant Sdp_Response
begin

text \<open>
  Start-up: \<open>main\<close> and the page route of \<open>src/src/main.rs\<close>, \<open>Crypto::init\<close> of
  \<open>src/src/server/crypto.rs\<close> and the rest of \<open>create_udp\<close> of \<open>src/src/server/udp.rs\<close>. OpenSSL, the
  sockets, the environment and the parser of socket addresses are what they answer; what OpenSSL's
  setters do to an acceptor is stated by \<open>openssl_laws\<close>.
\<close>

section \<open>Definitions\<close>

subsection \<open>The certificate and the acceptor\<close>

text \<open>OpenSSL: keys \<open>'k\<close>, certificates \<open>'c\<close>, builders of acceptors \<open>'a\<close>.\<close>

record ('k, 'c, 'a) openssl_crate =
  x509_from_pem :: "bytes \<Rightarrow> ErrorStack + 'c"
  private_key_from_pem :: "bytes \<Rightarrow> ErrorStack + 'k"
  x509_digest_sha256 :: "'c \<Rightarrow> ErrorStack + bytes"
  mozilla_intermediate_v5_dtls :: "ErrorStack + 'a"
  set_verify_none :: "'a \<Rightarrow> 'a"
  set_tlsext_use_srtp :: "string \<Rightarrow> 'a \<Rightarrow> ErrorStack + 'a"
  set_read_ahead :: "bool \<Rightarrow> 'a \<Rightarrow> 'a"
  set_session_cache_off :: "'a \<Rightarrow> 'a"
  set_private_key :: "'k \<Rightarrow> 'a \<Rightarrow> ErrorStack + 'a"
  set_certificate :: "'c \<Rightarrow> 'a \<Rightarrow> ErrorStack + 'a"
  check_private_key :: "'a \<Rightarrow> ErrorStack + unit"

record ('k, 'c, 'a) Crypto =
  key :: 'k
  x509 :: 'c
  digest :: bytes
  ssl_acceptor :: 'a

definition Crypto_init ::
    "('k, 'c, 'a) openssl_crate \<Rightarrow> bytes \<Rightarrow> bytes \<Rightarrow> ErrorStack + ('k, 'c, 'a) Crypto" where
  "Crypto_init ssl cert_pem key_pem =
     sbind (x509_from_pem ssl cert_pem) (\<lambda>x509.
     sbind (private_key_from_pem ssl key_pem) (\<lambda>key.
     sbind (x509_digest_sha256 ssl x509) (\<lambda>digest.
     sbind (mozilla_intermediate_v5_dtls ssl) (\<lambda>builder.
     sbind (set_tlsext_use_srtp ssl ''SRTP_AES128_CM_SHA1_80'' (set_verify_none ssl builder)) (\<lambda>builder.
     sbind (set_private_key ssl key (set_session_cache_off ssl (set_read_ahead ssl True builder))) (\<lambda>builder.
     sbind (set_certificate ssl x509 builder) (\<lambda>builder.
     sbind (check_private_key ssl builder) (\<lambda>_.
       Inr \<lparr>key = key, x509 = x509, digest = digest, ssl_acceptor = builder\<rparr>))))))))"

text \<open>
  What the setters are documented to do: \<open>profile_of\<close>, \<open>key_of\<close> and \<open>cert_of\<close> read off an acceptor
  which SRTP profiles it offers, its private key and the certificate it presents. Setting a certificate
  drops a private key that does not match it, and the check of the private key fails when there is none.
\<close>

definition openssl_laws ::
    "('k, 'c, 'a) openssl_crate \<Rightarrow> ('a \<Rightarrow> string option) \<Rightarrow> ('a \<Rightarrow> 'k option) \<Rightarrow> ('a \<Rightarrow> 'c option) \<Rightarrow> bool" where
  "openssl_laws ssl profile_of key_of cert_of \<longleftrightarrow>
     (\<forall>p a a'. set_tlsext_use_srtp ssl p a = Inr a' \<longrightarrow>
        profile_of a' = Some p \<and> key_of a' = key_of a \<and> cert_of a' = cert_of a) \<and>
     (\<forall>k a a'. set_private_key ssl k a = Inr a' \<longrightarrow>
        profile_of a' = profile_of a \<and> key_of a' = Some k \<and> cert_of a' = cert_of a) \<and>
     (\<forall>c a a'. set_certificate ssl c a = Inr a' \<longrightarrow>
        profile_of a' = profile_of a \<and> (key_of a' = key_of a \<or> key_of a' = None) \<and> cert_of a' = Some c) \<and>
     (\<forall>a. check_private_key ssl a = Inr () \<longrightarrow> key_of a \<noteq> None) \<and>
     (\<forall>b a. profile_of (set_read_ahead ssl b a) = profile_of a) \<and>
     (\<forall>a. profile_of (set_session_cache_off ssl a) = profile_of a)"

subsection \<open>Creating the server\<close>

record ('k, 'c, 'a) ServerData =
  crypto :: "('k, 'c, 'a) Crypto"
  meta :: ServerMeta

text \<open>\<open>bind\<close> is the answer of \<open>UdpSocket::bind\<close>; a failure of it or of \<open>Crypto::init\<close> panics.\<close>

definition create_server ::
    "('k, 'c, 'a) openssl_crate \<Rightarrow> bytes \<Rightarrow> bytes \<Rightarrow> (SocketAddr \<Rightarrow> io_error + unit) \<Rightarrow> (nat \<Rightarrow> 'r \<Rightarrow> nat \<times> 'r) \<Rightarrow> 'r \<Rightarrow>
      SocketAddr \<Rightarrow> (('s, 'b) System \<times> ('k, 'c, 'a) ServerData) rust" where
  "create_server ssl cert_pem key_pem bind gen_range rng addr =
     (case bind addr of
        Inl e \<Rightarrow> Abort ExpectFailed
      | Inr _ \<Rightarrow>
          rbind (ServerMeta_new gen_range rng) (\<lambda>m.
            case Crypto_init ssl cert_pem key_pem of
              Inl e \<Rightarrow> Abort ExpectFailed
            | Inr cr \<Rightarrow> Ret (create_udp m, \<lparr>crypto = cr, meta = m\<rparr>)))"

subsection \<open>\<open>main\<close>\<close>

text \<open>
  \<open>env\<close> is \<open>std::env::var\<close>, \<open>parse\<close> the parser of socket addresses, \<open>http_bind\<close> the answer of
  \<open>HttpServer::bind\<close>.
\<close>

definition addr_from_env ::
    "(string \<Rightarrow> SocketAddr option) \<Rightarrow> (string \<Rightarrow> string option) \<Rightarrow> string \<Rightarrow> string \<Rightarrow> SocketAddr rust" where
  "addr_from_env parse env name fallback =
     (case (case env name of Some addr \<Rightarrow> parse addr | None \<Rightarrow> parse fallback) of
        Some addr \<Rightarrow> Ret addr
      | None \<Rightarrow> Abort ExpectFailed)"

record ('s, 'b, 'k, 'c, 'a) application =
  system :: "('s, 'b) System"
  server_data :: "('k, 'c, 'a) ServerData"
  public_udp_addr :: SocketAddr
  session_listen_addr :: SocketAddr

definition main ::
    "('k, 'c, 'a) openssl_crate \<Rightarrow> bytes \<Rightarrow> bytes \<Rightarrow> (string \<Rightarrow> SocketAddr option) \<Rightarrow> (string \<Rightarrow> string option) \<Rightarrow>
      (SocketAddr \<Rightarrow> io_error + unit) \<Rightarrow> (SocketAddr \<Rightarrow> io_error + unit) \<Rightarrow> (nat \<Rightarrow> 'r \<Rightarrow> nat \<times> 'r) \<Rightarrow> 'r \<Rightarrow>
      (io_error + ('s, 'b, 'k, 'c, 'a) application) rust" where
  "main ssl cert_pem key_pem parse env bind http_bind gen_range rng =
     rbind (addr_from_env parse env ''TURN_ADDR'' ''127.0.0.1:3336'') (\<lambda>udp_addr.
     rbind (addr_from_env parse env ''WEB_ADDR'' ''127.0.0.1:3333'') (\<lambda>web_addr.
     rbind (create_server ssl cert_pem key_pem bind gen_range rng udp_addr) (\<lambda>(S, d).
       case http_bind web_addr of
         Inl e \<Rightarrow> Ret (Inl e)
       | Inr _ \<Rightarrow> Ret (Inr \<lparr>system = S, server_data = d, public_udp_addr = udp_addr,
           session_listen_addr = web_addr\<rparr>))))"

text \<open>
  The page: the debug build reads the file on every request, the release build has it built in.
\<close>

definition index_page :: "profile \<Rightarrow> string option \<Rightarrow> string \<Rightarrow> http_response rust" where
  "index_page p file built_in =
     (case p of
        Debug \<Rightarrow> (case file of Some body \<Rightarrow> Ret (Ok body) | None \<Rightarrow> Abort ExpectFailed)
      | Release \<Rightarrow> Ret (Ok built_in))"

section \<open>Lemmas\<close>

text \<open>The acceptor presents the certificate whose digest the server announces.\<close>

lemma Crypto_init_Inr:
  assumes "openssl_laws ssl profile_of key_of cert_of" and "Crypto_init ssl cert_pem key_pem = Inr cr"
  shows "x509_digest_sha256 ssl (x509 cr) = Inr (digest cr)"
    and "x509_from_pem ssl cert_pem = Inr (x509 cr)" and "private_key_from_pem ssl key_pem = Inr (key cr)"
    and "cert_of (ssl_acceptor cr) = Some (x509 cr)" and "key_of (ssl_acceptor cr) = Some (key cr)"
    and "check_private_key ssl (ssl_acceptor cr) = Inr ()"
    and "profile_of (ssl_acceptor cr) = Some ''SRTP_AES128_CM_SHA1_80''"
  using assms unfolding openssl_laws_def by (auto simp: Crypto_init_def) (metis option.distinct(1))+

text \<open>The profile offered in the handshake is one that the media path supports.\<close>

lemma offered_profile_supported:
  "selected_srtp_profile tls = Some ''SRTP_AES128_CM_SHA1_80'' \<Longrightarrow>
   SrtpTransport_new sc tls \<noteq> Inl (UnsupportedProfile name)"
  by (auto simp: SrtpTransport_new_def Let_def split: sum.splits prod.splits)

lemma create_server_eq:
  assumes "rng_laws gen_range"
  shows "\<exists>m. length (user m) = 12 \<and> length (password m) = 24 \<and>
    create_server ssl cert_pem key_pem bind gen_range rng addr =
    (case bind addr of Inl _ \<Rightarrow> Abort ExpectFailed
     | Inr _ \<Rightarrow> (case Crypto_init ssl cert_pem key_pem of Inl _ \<Rightarrow> Abort ExpectFailed
         | Inr cr \<Rightarrow> Ret (create_udp m, \<lparr>crypto = cr, meta = m\<rparr>)))"
proof -
  obtain m where "ServerMeta_new gen_range rng = Ret m" "length (user m) = 12" "length (password m) = 24"
    using ServerMeta_new_ok [OF assms] by blast
  then show ?thesis
    by (intro exI [of _ m]) (simp add: create_server_def split: sum.splits)
qed

text \<open>An instance for concrete runs: an acceptor is the three things set on it.\<close>

definition toy_openssl :: "(bytes, bytes, string option \<times> bytes option \<times> bytes option) openssl_crate" where
  "toy_openssl =
     \<lparr>x509_from_pem = Inr, private_key_from_pem = Inr, x509_digest_sha256 = (\<lambda>c. Inr (rev c)),
      mozilla_intermediate_v5_dtls = Inr (None, None, None), set_verify_none = (\<lambda>a. a),
      set_tlsext_use_srtp = (\<lambda>p (q, k, c). Inr (Some p, k, c)), set_read_ahead = (\<lambda>b a. a),
      set_session_cache_off = (\<lambda>a. a), set_private_key = (\<lambda>k (q, k', c). Inr (q, Some k, c)),
      set_certificate = (\<lambda>c (q, k, c'). Inr (q, k, Some c)), check_private_key = (\<lambda>(q, k, c). if k = None then Inl 0 else Inr ())\<rparr>"

definition toy_parse :: "string \<Rightarrow> SocketAddr option" where
  "toy_parse s = (if s = ''127.0.0.1:3336'' then Some (V4 0x7f000001 3336)
     else if s = ''127.0.0.1:3333'' then Some (V4 0x7f000001 3333) else None)"

lemma toy_openssl_laws: "openssl_laws toy_openssl fst (fst \<circ> snd) (snd \<circ> snd)"
  by (auto simp: openssl_laws_def toy_openssl_def)

section \<open>Properties\<close>

text \<open>
  C39. Start-up: with readable addresses, a free UDP port and usable certificate files the server runs,
  unless the HTTP port cannot be bound, which \<open>main\<close> returns as an error; everything else panics. A
  server that runs starts with empty mailboxes on the address it announces, with a user of 12 and a
  password of 24 characters, presents the certificate
  whose SHA-256 digest it announces, with the matching private key, and offers the one SRTP profile
  from which the media path can make its sessions.
\<close>

theorem startup_outcome:
  assumes "openssl_laws ssl profile_of key_of cert_of" and "rng_laws gen_range"
    and "udp = (case env ''TURN_ADDR'' of Some a \<Rightarrow> parse a | None \<Rightarrow> parse ''127.0.0.1:3336'')"
    and "web = (case env ''WEB_ADDR'' of Some a \<Rightarrow> parse a | None \<Rightarrow> parse ''127.0.0.1:3333'')"
    and "ready = (case (udp, web) of
      (Some a, Some b) \<Rightarrow> bind a = Inr () \<and> (\<exists>cr. Crypto_init ssl cert_pem key_pem = Inr cr) | _ \<Rightarrow> False)"
    and "result = (main ssl cert_pem key_pem parse env bind http_bind gen_range rng ::
      (io_error + ('s, 'b, 'k, 'c, 'a) application) rust)"
  shows "(\<not> ready \<longleftrightarrow> result = Abort ExpectFailed) \<and>
    (ready \<longrightarrow> (case http_bind (the web) of
       Inl e \<Rightarrow> result = Ret (Inl e)
     | Inr _ \<Rightarrow> \<exists>app m cr. result = Ret (Inr app) \<and> system app = create_udp m \<and> meta (server_data app) = m \<and>
         length (user m) = 12 \<and> length (password m) = 24 \<and> public_udp_addr app = the udp \<and>
         cr = crypto (server_data app) \<and> x509_digest_sha256 ssl (x509 cr) = Inr (digest cr) \<and>
         cert_of (ssl_acceptor cr) = Some (x509 cr) \<and> key_of (ssl_acceptor cr) = Some (key cr) \<and>
         (\<forall>(sc :: 's srtp_crate) tls name. selected_srtp_profile tls = profile_of (ssl_acceptor cr) \<longrightarrow>
            SrtpTransport_new sc tls \<noteq> Inl (UnsupportedProfile name))))"
proof (cases ready)
  case True
  then obtain a b cr where a: "udp = Some a" and b: "web = Some b" and bind: "bind a = Inr ()"
    and cr: "Crypto_init ssl cert_pem key_pem = Inr cr"
    using assms(5) by (auto split: option.splits)
  note facts = Crypto_init_Inr [OF assms(1) cr]
  obtain m where "create_server ssl cert_pem key_pem bind gen_range rng a =
      Ret (create_udp m :: ('s, 'b) System, \<lparr>crypto = cr, meta = m\<rparr>)" "length (user m) = 12" "length (password m) = 24"
    using create_server_eq [OF assms(2), of ssl cert_pem key_pem bind rng a] by (auto simp: bind cr)
  with a b True show ?thesis
    unfolding assms(6) main_def addr_from_env_def assms(3) [symmetric] assms(4) [symmetric]
    by (auto simp: facts offered_profile_supported split: sum.splits)
next
  case False
  have "create_server ssl cert_pem key_pem bind gen_range rng a =
      (Abort ExpectFailed :: (('s, 'b) System \<times> ('k, 'c, 'a) ServerData) rust)"
    if "udp = Some a" "web = Some b" for a b
  proof -
    obtain m where "create_server ssl cert_pem key_pem bind gen_range rng a =
      ((case bind a of Inl _ \<Rightarrow> Abort ExpectFailed
        | Inr _ \<Rightarrow> (case Crypto_init ssl cert_pem key_pem of Inl _ \<Rightarrow> Abort ExpectFailed
            | Inr cr \<Rightarrow> Ret (create_udp m, \<lparr>crypto = cr, meta = m\<rparr>))) ::
        (('s, 'b) System \<times> ('k, 'c, 'a) ServerData) rust)"
      using create_server_eq [OF assms(2)] by blast
    with False that show ?thesis
      by (auto simp: assms(5) split: sum.splits)
  qed
  with False show ?thesis
    unfolding assms(6) main_def addr_from_env_def assms(3) [symmetric] assms(4) [symmetric]
    by (cases udp; cases web) auto
qed

theorem startup_outcome_witness:
  "\<exists>(app :: (nat, nat, bytes, bytes, string option \<times> bytes option \<times> bytes option) application) cr.
    main toy_openssl [1] [2] toy_parse (\<lambda>_. None) (\<lambda>_. Inr ()) (\<lambda>_. Inr ()) counting_rng 0 = Ret (Inr app) \<and>
    public_udp_addr app = V4 0x7f000001 3336 \<and> cr = crypto (server_data app) \<and>
    x509_digest_sha256 toy_openssl (x509 cr) = Inr (digest cr) \<and> snd (snd (ssl_acceptor cr)) = Some (x509 cr)"
proof -
  have init: "\<exists>cr. Crypto_init toy_openssl [1] [2] = Inr cr"
    by (simp add: Crypto_init_def toy_openssl_def)
  have "case (\<lambda>_ :: SocketAddr. Inr () :: io_error + unit) (the (Some (V4 0x7f000001 3333))) of
      Inl e \<Rightarrow> (main toy_openssl [1] [2] toy_parse (\<lambda>_. None) (\<lambda>_. Inr ()) (\<lambda>_. Inr ()) counting_rng 0 ::
        (io_error + (nat, nat, bytes, bytes, string option \<times> bytes option \<times> bytes option) application) rust) = Ret (Inl e)
    | Inr _ \<Rightarrow> \<exists>(app :: (nat, nat, bytes, bytes, string option \<times> bytes option \<times> bytes option) application) m cr.
        main toy_openssl [1] [2] toy_parse (\<lambda>_. None) (\<lambda>_. Inr ()) (\<lambda>_. Inr ()) counting_rng 0 = Ret (Inr app) \<and>
        system app = create_udp m \<and> meta (server_data app) = m \<and> length (user m) = 12 \<and> length (password m) = 24 \<and>
        public_udp_addr app = the (Some (V4 0x7f000001 3336)) \<and>
        cr = crypto (server_data app) \<and> x509_digest_sha256 toy_openssl (x509 cr) = Inr (digest cr) \<and>
        (snd \<circ> snd) (ssl_acceptor cr) = Some (x509 cr) \<and> (fst \<circ> snd) (ssl_acceptor cr) = Some (key cr) \<and>
        (\<forall>(sc :: nat srtp_crate) tls name. selected_srtp_profile tls = fst (ssl_acceptor cr) \<longrightarrow>
            SrtpTransport_new sc tls \<noteq> Inl (UnsupportedProfile name))"
    by (rule startup_outcome [OF toy_openssl_laws counting_rng_laws _ _ _ refl, THEN conjunct2, rule_format,
          where ready = True and env = "\<lambda>_. None" and parse = toy_parse])
      (use init in \<open>auto simp: toy_parse_def\<close>)
  then show ?thesis
    by auto
qed

end
