(* ===== verification/Spec2Isabelle.thy ===== *)
theory Spec2Isabelle
  imports Mailbox_Conservation Ssl_Stream Startup
begin

text \<open>
  A verification of r-streamer, a WebRTC server that forwards the audio and video of a sender to the
  viewers of its group (\<open>src/src\<close>, Rust on the actix actor framework).

  \<^bold>\<open>The program.\<close> A browser posts an SDP offer (\<open>main.rs\<close>, \<open>sdp/mod.rs\<close>); the server answers it and
  registers a session with the UDP server. From then on the browser talks UDP: \<open>UdpRecv\<close>
  (\<open>server/udp.rs\<close>) classifies every datagram. A STUN request of a known session is answered by
  \<open>UdpSend\<close>, and the client actor (\<open>client/actor.rs\<close>) is told the group, the role and the media of the
  address. A DTLS record creates the client and feeds its handshake (\<open>dtls/connector.rs\<close>,
  \<open>client/stream.rs\<close>), which keys its SRTP sessions (\<open>rtp/srtp.rs\<close>). An RTP packet waits in the jitter
  actor (\<open>rtp/jitter.rs\<close>) and then goes to the media actor (\<open>client/rtc_actor.rs\<close>), which decrypts it,
  renumbers it and encrypts it for each receiver of the client. The clients are shared objects behind
  \<open>Arc\<close>s: the storage both actors use, and the receiver tables of the clients, refer to them.

  \<^bold>\<open>The theories\<close>, in the order of their imports.

  \<^item> \<open>Rust_Prelude\<close>: machine integers as words, \<open>'a rust\<close> for computations that may abort (a panic, or
    a thread that waits for a lock it holds), slices with their bounds checks, arithmetic under the two
    build profiles, socket addresses, the \<open>byteorder\<close> crate. \<open>Rust_Text\<close>: UTF-8, \<open>str::replace\<close>,
    decimal printing.
  \<^item> \<open>Stun_Parse\<close>, \<open>Stun_Response\<close>: \<open>stun/mod.rs\<close>. The parser as the loop of the source over byte
    offsets, proved to return on every datagram and to refine a specification on attribute lists; the
    response writer as in-place writes into a buffer, proved to give exactly the bytes of the response,
    from which the reader gets its address back.
  \<^item> \<open>Srtp\<close>, \<open>Rtp_Core\<close>: \<open>rtp/srtp.rs\<close> and \<open>rtp/core.rs\<close>. \<open>Demux\<close>: the classification of
    datagrams; the locale \<open>demux\<close> says what makes its three recognisers exclusive.
  \<^item> \<open>Actor\<close>: runs of an actor, and the contracts its handlers are proved to meet (an invariant,
    returning always, conserving what they buffer) as locales with their consequences for whole runs.
    \<open>Jitter\<close>: \<open>rtp/jitter.rs\<close>, which meets all of them. \<open>Group_Table\<close>: \<open>client/group.rs\<close>, behind the
    locale \<open>sender_registry\<close>. \<open>Media\<close>: \<open>sdp/media.rs\<close>.
  \<^item> \<open>Clients\<close>: \<open>client/clients.rs\<close> and \<open>dtls/connector.rs\<close>. The clients live on an explicit heap, a
    reference is an index; \<open>sharing_ok\<close> is the invariant of the references. \<open>Client_Actor\<close>:
    \<open>client/actor.rs\<close>, one definition per handler; the task a DTLS record spawns is split where it
    awaits, so that other messages may come in between; \<open>client_step\<close> is the step relation.
  \<^item> \<open>Rtc_Actor\<close>: \<open>client/rtc_actor.rs\<close>, one definition per block of the handler. The order in which
    the parallel iterator reaches the receivers is an argument, which may leave receivers out (after an
    error the iterator does; otherwise this allows more than the code does); the locale \<open>forwarder\<close>
    gives what any order keeps.
  \<^item> \<open>Udp_Server\<close>: \<open>server/udp.rs\<close>, \<open>client/sessions.rs\<close>, \<open>server/meta.rs\<close>. \<open>Ssl_Stream\<close>:
    \<open>client/stream.rs\<close> and \<open>push_dtls\<close>. \<open>Sdp_Response\<close>: \<open>sdp/mod.rs\<close> and the HTTP route.
  \<^item> \<open>Server_Model\<close>: the states of the actors together, \<open>server_step\<close> (any handler on any message) and
    its invariant. \<open>Step_Systems\<close>: contracts of step relations (a refinement mapping, working off a
    multiset of pending work, conserving what arrives) with their consequences for runs, as locales.
  \<^item> \<open>Mailboxes\<close>: the running server. \<open>System\<close> adds to the actors their mailboxes, the tasks between
    handlers and what they wait for, the threads of the media actor; \<open>arrival\<close> is what comes from
    outside, \<open>internal\<close> what the server does by itself. \<open>Mailbox_Invariant\<close>: what messages and tasks
    look like, and the refinement of \<open>Server_Model\<close>. \<open>Mailbox_Order\<close>: the order of the packets of a
    stream. \<open>Mailbox_Progress\<close>: termination, progress, and that what is queued is sent.
    \<open>Mailbox_Conservation\<close>: runs with the datagrams that arrive, and where their packets are.
  \<^item> \<open>Startup\<close>: \<open>main.rs\<close>, \<open>server/crypto.rs\<close> and the rest of \<open>create_udp\<close>.
  \<^item> This theory: the properties of the actors that span components.

  \<^bold>\<open>What is shown.\<close> Safety of the parsers and of classification (the empty datagram is the only one
  that panics). Exact bytes of the STUN response; a request of a known session is answered in every run
  of the whole server, from the bytes that arrive to the bytes that leave. The jitter actor keeps every
  stream complete and in order, its delay refines a counter, and a released buffer reaches the media
  actor in order. Between the socket and the media actor no packet is lost, doubled or given to another
  client; at rest, all are handled but those the jitter buffer holds. In every reachable state of the server, under any interleaving, a receiver that is
  not marked deleted is the client registered at its address; hence media is sent to registered
  clients only, to none that was deleted, and nothing is sent to an address that was not heard from. A
  packet of a sender reaches every live receiver exactly once, and a viewer that joins a group gets it.
  Mailboxes only hold requests their actor handles. Left alone, the server comes to rest with empty
  mailboxes, unless the client actor deadlocks. An offer opens sessions that STUN accepts until sixty
  seconds later. Start-up announces the certificate it presents. Each handler's behaviour on its
  branches, errors included. Some theorems show where the code does something else than it seems to
  mean: the GroupId handler deadlocks when a sender displaces another, the payload type is never
  adapted, the jitter estimate underflows, a sequence number that wraps around is repeated, a USERNAME
  near the end of a STUN request is not seen, a later buffer overtakes an earlier one.

  \<^bold>\<open>Parameters.\<close> What is not in \<open>src\<close> is an argument: the \<open>byteorder\<close>, \<open>bimap\<close>, \<open>srtp\<close>,
  \<open>webrtc-sdp\<close>, \<open>openssl\<close> and \<open>futures\<close> crates and the hash functions as records of functions, with
  their documented laws as named predicates (\<open>network_endian\<close>, \<open>bimap_laws\<close>, \<open>stun_crypto_laws\<close>,
  \<open>keeps_header\<close>, \<open>sdp_laws\<close>, \<open>openssl_laws\<close>, \<open>mpsc_laws\<close>, \<open>rng_laws\<close>); the TLS handshake, clocks and
  the network as the answers they give. Every law is satisfied by a concrete instance, which the
  witnesses use. Two small pieces of crates are written out as documented: that a thread which takes a
  lock it holds for writing never returns, and that putting more into a read buffer than fits panics.

  \<^bold>\<open>Bounds.\<close> No recursion needs fuel: the STUN loop ends by its measure, every other recursion is
  structural, and the internal steps of the server are well founded. Lengths and times are natural
  numbers; everything the program keeps in 8, 16 or 32 bits is a word of that size.

  \<^bold>\<open>Not modelled.\<close> Log messages and the \<open>Display\<close> texts only they use; the HTTP framework beyond the
  routes; capacities of mailboxes; what is left of the actors after a handler panicked (an aborting
  handler has no step); races inside one handler of the media actor: a handler is one step.
\<close>

section \<open>Properties\<close>

text \<open>
  C1. In every reachable state of the server: the sessions have distinct keys; a reference in a
  receiver table is valid and is marked deleted exactly when it is not the client registered at its
  address; a client has SRTP sessions when it is connected and none while it is new; and no jitter
  buffer has a delay below 50 ms.
\<close>

theorem server_state_consistent:
  assumes "server_reachable p be sc bm S" and "r < length (heap (client_actor S))"
    and "c = client_at (client_actor S) r"
  shows "distinct (map fst (sessions (udp_recv S))) \<and>
    (receivers c a = Some x \<longrightarrow> x < length (heap (client_actor S)) \<and>
       (\<not> is_deleted (client_at (client_actor S) x) \<longleftrightarrow> client_storage (client_actor S) a = Some x)) \<and>
    (state c = New \<longrightarrow> srtp c = None) \<and> (state c = Connected \<longrightarrow> srtp c \<noteq> None) \<and>
    (jitter_control S a' = Some j \<longrightarrow> millis 50 \<le> delay j)"
proof -
  have i: "recv_inv (udp_recv S)" "sharing_ok (client_actor S)"
    "list_all handshake_ok (heap (client_actor S))" "jitter_inv (jitter_control S)"
    using server_reachable_inv [OF assms(1)] by (simp_all add: server_inv_def)
  have "x < length (heap (client_actor S)) \<and>
      (\<not> is_deleted (client_at (client_actor S) x) \<longleftrightarrow> client_storage (client_actor S) a = Some x)"
    if "receivers c a = Some x"
  proof -
    have "occurs (client_actor S) a x"
      using that assms(2,3) by (auto simp: occurs_def)
    then show ?thesis
      using sharing_okD(1,3,4) [OF i(2)] by blast
  qed
  moreover have "handshake_ok c"
    using i(3) assms(2,3) by (simp add: list_all_length client_at_def)
  moreover have "millis 50 \<le> delay j" if "jitter_control S a' = Some j"
    using i(4) that by (force simp: jitter_inv_def delay_ok_iff)
  ultimately show ?thesis
    using i(1) by (simp add: recv_inv_def handshake_ok_def)
qed

theorem server_state_consistent_witness:
  "\<not> is_deleted (client_at one_sender 0) \<longleftrightarrow> client_storage one_sender addr1 = Some 0"
proof -
  let ?S = "\<lparr>udp_recv = UdpRecv_new \<lparr>user = ''a'', password = ''b''\<rparr>, client_actor = one_sender,
    jitter_control = Map.empty\<rparr>"
  have "server_reachable Release NetworkEndian counting_crate two_maps ?S"
    by (rule client_reachable_server [OF one_sender_reachable])
  from server_state_consistent [OF this, of 0 _ addr1 0] show ?thesis
    by (simp add: one_sender_eq client_at_def)
qed

text \<open>
  C5. Media goes to registered clients only: in every reachable state, whatever packet the media
  actor handles and in whatever order it reaches the receivers, each datagram it sends is media for an
  address at which a client is registered.
\<close>

theorem media_only_to_registered:
  assumes "server_reachable p be sc bm S"
    and "handle_Rtc p be sc bm clk sched msg (client_actor S) = Ret (warned, out, w')"
    and "q \<in> set (datagrams out)"
  shows "\<exists>m a. q = Rtc m a \<and> client_storage (client_actor S) a \<noteq> None"
proof (rule rtc_sends_registered [OF _ assms(2)])
  show "sharing_ok (client_actor S)"
    using server_reachable_inv [OF assms(1)] by (simp add: server_inv_def)
  show "ToUdp q \<in> set out"
    using assms(3) by (auto simp: datagrams_def map_filter_def split: rtc_out.splits if_splits)
qed

theorem media_only_to_registered_witness:
  "\<exists>warned out w'. handle_Rtc Release NetworkEndian counting_crate two_maps (\<lambda>_. 0) [addr1]
      (Rtc rtcp_packet addr1) connected_sender = Ret (warned, out, w') \<and>
    datagrams out = [Rtc rtcp_packet addr1] \<and> client_storage connected_sender addr1 \<noteq> None"
proof -
  let ?S = "\<lparr>udp_recv = UdpRecv_new \<lparr>user = ''a'', password = ''b''\<rparr>, client_actor = connected_sender,
    jitter_control = Map.empty\<rparr>"
  have S: "server_reachable Release NetworkEndian counting_crate two_maps ?S"
    by (rule client_reachable_server [OF connected_sender_reachable])
  have "rtcp_like rtcp_packet"
    by (simp add: rtcp_like_def rtp_like_def rtcp_packet_def drop_bit_eq_div)
  then obtain warned out w' where h: "handle_Rtc Release NetworkEndian counting_crate two_maps (\<lambda>_. 0) [addr1]
      (Rtc rtcp_packet addr1) connected_sender = Ret (warned, out, w')"
    and d: "datagrams out = [Rtc rtcp_packet addr1]"
    by (simp add: handle_Rtc_def from_buf_eq rtcp_like_def rtc_process_def connected_sender_eq decrypt_package_def
        client_at_def unprotect_rtcp_def deliver_def live_receivers_def map_filter_def forward_to_def
        protect_rtcp_def prepare_payload_def codec_n_frequency_def update_client_def)
  from media_only_to_registered [OF S, of "\<lambda>_. 0" "[addr1]" "Rtc rtcp_packet addr1" warned out w'] h d
  show ?thesis by auto
qed

text \<open>
  C23. Clients only advance: over any number of steps of the server, no client disappears from the heap,
  its connection never goes back from \<open>Shutdown\<close> to \<open>Connected\<close> or from \<open>Connected\<close> to \<open>New\<close>, and a
  deleted client stays deleted.
\<close>

theorem clients_only_advance:
  assumes "(server_step p be sc bm)\<^sup>*\<^sup>* S S'" and "r < length (heap (client_actor S))"
  shows "r < length (heap (client_actor S')) \<and>
    state (client_at (client_actor S) r) \<le> state (client_at (client_actor S') r) \<and>
    (is_deleted (client_at (client_actor S) r) \<longrightarrow> is_deleted (client_at (client_actor S') r))"
proof -
  have "advances (client_actor S) (client_actor S')"
    using assms(1)
  proof (induction rule: rtranclp_induct)
    case base
    show ?case by simp
  next
    case (step S' S'')
    show ?case
      by (rule advances_trans [OF step.IH server_step_advances [OF step.hyps(2)]])
  qed
  then show ?thesis
    using assms(2) by (auto simp: advances_def)
qed

theorem clients_only_advance_witness:
  "\<exists>S S'. (server_step Release NetworkEndian counting_crate two_maps)\<^sup>*\<^sup>* S S' \<and>
    client_actor S = one_sender \<and> client_actor S' = connected_sender \<and>
    state (client_at one_sender 0) \<le> state (client_at connected_sender 0) \<and>
    state (client_at connected_sender 0) = Connected"
proof -
  let ?S = "\<lparr>udp_recv = UdpRecv_new \<lparr>user = ''a'', password = ''b''\<rparr>, client_actor = one_sender,
    jitter_control = Map.empty\<rparr>"
  let ?S' = "?S\<lparr>client_actor := connected_sender\<rparr>"
  have "client_step counting_crate one_sender connected_sender"
    unfolding connected_sender_def
    by (rule client_step.connected [of 0]) (simp add: one_sender_eq, rule prod.collapse [symmetric])
  then have steps: "(server_step Release NetworkEndian counting_crate two_maps)\<^sup>*\<^sup>* ?S ?S'"
    by (intro r_into_rtranclp server_step.client) simp
  have "(0::nat) < length (heap (client_actor ?S))"
    by (simp add: one_sender_eq)
  from clients_only_advance [OF steps this] steps show ?thesis
    by (intro exI [of _ ?S] exI [of _ ?S']) (simp add: connected_sender_eq [THEN arg_cong, of heap] client_at_def)
qed

text \<open>
  C24. Once a client is deleted, no media reaches its address: in the state after the deletion, the
  media actor sends nothing to it, whoever's packet it handles, although other clients may still hold
  it as a receiver.
\<close>

theorem deleted_client_gets_no_media:
  assumes "server_reachable p be sc bm S"
    and "handle_DeleteMessage addr (client_actor S) = (deleted, w')"
    and "handle_Rtc p be sc bm clk sched msg w' = Ret (warned, out, w'')"
  shows "Rtc m addr \<notin> set (datagrams out)"
proof
  assume "Rtc m addr \<in> set (datagrams out)"
  then have u: "ToUdp (Rtc m addr) \<in> set out"
    by (auto simp: datagrams_def map_filter_def split: rtc_out.splits if_splits)
  have "sharing_ok w'"
    using server_reachable_inv [OF assms(1)] sharing_delete [of "client_actor S" addr] assms(2)
    by (simp add: server_inv_def)
  from rtc_sends_registered [OF this assms(3) u] have "client_storage w' addr \<noteq> None"
    by auto
  moreover have "client_storage w' addr = None"
    using assms(2) by (auto simp: handle_DeleteMessage_def Let_def split: option.splits)
  ultimately show False by simp
qed

theorem deleted_client_gets_no_media_witness:
  "\<exists>w' warned out w''. handle_DeleteMessage addr2 viewer_joined = (True, w') \<and>
    handle_Rtc Release NetworkEndian counting_crate two_maps (\<lambda>_. 0) [addr1, addr2] (Rtc rtcp_packet addr1) w' =
      Ret (warned, out, w'') \<and> datagrams out = [Rtc rtcp_packet addr1] \<and>
    Rtc rtcp_packet addr2 \<notin> set (datagrams out)"
proof -
  let ?S = "\<lparr>udp_recv = UdpRecv_new \<lparr>user = ''a'', password = ''b''\<rparr>, client_actor = viewer_joined,
    jitter_control = Map.empty\<rparr>"
  have S: "server_reachable Release NetworkEndian counting_crate two_maps ?S"
    by (rule client_reachable_server [OF viewer_joined_reachable])
  have rt: "rtcp_like rtcp_packet"
    by (simp add: rtcp_like_def rtp_like_def rtcp_packet_def drop_bit_eq_div)
  let ?w' = "snd (handle_DeleteMessage addr2 viewer_joined)"
  have d: "handle_DeleteMessage addr2 viewer_joined = (True, ?w')"
    by (simp add: handle_DeleteMessage_def Let_def split: option.splits)
  have w': "heap ?w' = [(Client_default 0)\<lparr>state := Connected, srtp := Some sessions0, dtls_connected := True,
        sender_addr := Some addr1, receivers := [addr1 \<mapsto> 0, addr2 \<mapsto> 1],
        rtp_runtime_storage := runtime_entries (\<lambda>_. (1000, 100, 0)) (get_frequencies vp8_media) Map.empty,
        media := Some vp8_media\<rparr>,
      (Client_default 0)\<lparr>state := Connected, srtp := Some sessions0, dtls_connected := True,
        sender_addr := Some addr1, is_deleted := True\<rparr>]" "client_storage ?w' addr1 = Some 0"
    by (simp_all add: handle_DeleteMessage_def viewer_joined_eq Let_def client_at_def update_client_def Client_default_def)
  obtain warned out w'' where h: "handle_Rtc Release NetworkEndian counting_crate two_maps (\<lambda>_. 0) [addr1, addr2]
      (Rtc rtcp_packet addr1) ?w' = Ret (warned, out, w'')" and out: "datagrams out = [Rtc rtcp_packet addr1]"
    using rt w' by (simp add: handle_Rtc_def from_buf_eq rtcp_like_def rtc_process_def decrypt_package_def
        client_at_def unprotect_rtcp_def deliver_def live_receivers_def map_filter_def forward_to_def
        protect_rtcp_def prepare_payload_def codec_n_frequency_def update_client_def)
  from deleted_client_gets_no_media [OF S, of addr2 True ?w' "\<lambda>_. 0" "[addr1, addr2]" "Rtc rtcp_packet addr1"
      warned out w'' rtcp_packet] d h out
  show ?thesis by auto
qed

text \<open>
  C10. A viewer that joins a group gets the stream: after the join, the next RTP packet of the group's
  sender that decrypts and whose codec and runtime are known is sent to the viewer, encrypted for it,
  by the release build, provided the viewer and the receivers the sender already has and that are not
  deleted can encrypt it (one that cannot stops the fan-out). No other client is concerned. The
  parallel iterator reaches each receiver once (\<open>sched\<close>).
\<close>

theorem joined_viewer_gets_stream:
  assumes "server_reachable Release be sc bm S" and "w = client_actor S" and "network_endian be"
    and "groups_storage (groups w) k = Some p" and "p \<noteq> addr"
    and "client_storage w addr = Some v" and "client_storage w p = Some q"
    and "from_buf be message = Ret (Inr h)" and "\<not> rtcp_like message" and "payload h \<noteq> 111"
    and "srtp (client_at w q) = Some t"
    and "srtp_unprotect sc (client t) message = (Inr plain, s')" and "8 \<le> length plain"
    and "codec_n_frequency bm False h (client_at w q) = Some (name, f)"
    and "rtp_runtime_storage (client_at w q) f = Some rt"
    and "advance_runtime Release (clk 0) h rt = Ret (d, e, rt')"
    and "m = take 2 plain @ bytes16 (server_sequence rt') @ bytes32 (server_ts rt') @ drop 8 plain"
    and "encrypted sc False m (client_at w v) \<noteq> None"
    and "\<forall>a x. receivers (client_at w q) a = Some x \<and> \<not> is_deleted (client_at w x) \<longrightarrow>
      encrypted sc False m (client_at w x) \<noteq> None"
    and "distinct sched" and "insert addr (dom (receivers (client_at w q))) \<subseteq> set sched"
  shows "\<exists>w' out w''. handle_GroupId k addr False w = Ret w' \<and>
    handle_Rtc Release be sc bm clk sched (Rtc message p) w' = Ret (False, out, w'') \<and>
    Rtc (the (encrypted sc False m (client_at w v))) addr \<in> set (datagrams out)"
proof -
  have ok: "sharing_ok w"
    using server_reachable_inv [OF assms(1)] assms(2) by (simp add: server_inv_def)
  obtain w' where j: "handle_GroupId k addr False w = Ret w'"
    using assms(4-7) unfolding handle_GroupId_cases last_sender_def by auto
  note keep = join_keeps_media [OF ok assms(4-7) j]
  note cl = join_keeps_clients [OF ok assms(4-7) j]
  have rc: "receivers (client_at w' q) = (receivers (client_at w q))(addr \<mapsto> v)"
    using cl(1) [of q] by simp
  have live: "\<not> is_deleted (client_at w' v)"
    using sharing_okD(3) [OF ok assms(6)] by (simp add: keep(5))
  note ready = join_receivers_ready [OF ok assms(4-7) j assms(18,19)]
  have dom: "dom (receivers (client_at w' q)) \<subseteq> set sched"
    using assms(21) by (simp add: rc)
  have "\<exists>rs out w''. handle_Rtc Release be sc bm clk sched (Rtc message p) w' = Ret (False, out, w'') \<and>
      distinct (map fst rs) \<and>
      set rs = {(a, x). receivers (client_at w' q) a = Some x \<and> \<not> is_deleted (client_at w' x)} \<and>
      datagrams out = map (\<lambda>(a, x). Rtc (the (encrypted sc False m (client_at w' x))) a) rs"
    using assms(7,11,14,15)
    by (intro rtp_forwarded [where clk = clk, OF assms(3) sharing_GroupId [OF ok j] _ assms(8-10) _
          assms(12,13) _ _ assms(16,17) ready assms(20) dom])
      (simp_all add: keep cl(2))
  then obtain rs out w'' where h: "handle_Rtc Release be sc bm clk sched (Rtc message p) w' = Ret (False, out, w'')"
    and rs: "set rs = {(a, x). receivers (client_at w' q) a = Some x \<and> \<not> is_deleted (client_at w' x)}"
    and out: "datagrams out = map (\<lambda>(a, x). Rtc (the (encrypted sc False m (client_at w' x))) a) rs"
    by blast
  have "(addr, v) \<in> set rs"
    unfolding rs using live by (simp add: rc)
  then have "Rtc (the (encrypted sc False m (client_at w v))) addr \<in> set (datagrams out)"
    unfolding out by (force simp: keep(4))
  with j h show ?thesis by blast
qed

theorem joined_viewer_gets_stream_witness:
  "\<exists>w' out w''. handle_GroupId 7 addr2 False both_connected = Ret w' \<and>
    handle_Rtc Release NetworkEndian counting_crate two_maps (\<lambda>_. 0) [addr1, addr2] (Rtc vp8_packet addr1) w' =
      Ret (False, out, w'') \<and>
    Rtc [128, 96, 0, 100, 0, 0, 3, 232, 0, 0, 0, 1, 7, 7] addr2 \<in> set (datagrams out)"
proof -
  let ?S = "\<lparr>udp_recv = UdpRecv_new \<lparr>user = ''a'', password = ''b''\<rparr>, client_actor = both_connected,
    jitter_control = Map.empty\<rparr>"
  let ?m = "[128, 96, 0, 100, 0, 0, 3, 232, 0, 0, 0, 1, 7, 7] :: bytes"
  let ?rt = "ClientRtpRuntime_default 1000 100 0"
  let ?rt' = "?rt\<lparr>client_sequence := Some 5, client_ts := Some 9\<rparr>"
  have S: "server_reachable Release NetworkEndian counting_crate two_maps ?S"
    by (rule client_reachable_server [OF both_connected_reachable])
  have adv: "advance_runtime Release ((\<lambda>_. 0) (0::nat))
      \<lparr>marker = False, payload = 96, sequence = 5, timestamp = 9\<rparr> ?rt = Ret (0, 0, ?rt')"
    by (simp add: advance_runtime_def ClientRtpRuntime_default_def add_ovf_def duration_sub_def elapsed_def)
  have m: "?m = take 2 vp8_packet @ bytes16 (server_sequence ?rt') @ bytes32 (server_ts ?rt') @ drop 8 vp8_packet"
    by (simp add: vp8_packet_def ClientRtpRuntime_default_def bytes16_def bytes32_def)
  have enc: "encrypted counting_crate False ?m (client_at both_connected 1) = Some ?m"
    "encrypted counting_crate False ?m (client_at both_connected 0) = Some ?m"
    and rc: "receivers (client_at both_connected 0) = [addr1 \<mapsto> 0]"
    by (simp_all add: both_connected_eq encrypted_def client_at_def)
  have q: "client_storage both_connected addr1 = Some 0" "client_storage both_connected addr2 = Some 1"
    "groups_storage (groups both_connected) 7 = Some addr1" "srtp (client_at both_connected 0) = Some sessions0"
    "rtp_runtime_storage (client_at both_connected 0) 90000 = Some ?rt"
    "insert addr2 (dom (receivers (client_at both_connected 0))) \<subseteq> set [addr1, addr2]"
    by (simp_all add: both_connected_eq client_at_def vp8_runtime)
  have codec: "codec_n_frequency two_maps False \<lparr>marker = False, payload = 96, sequence = 5, timestamp = 9\<rparr>
       (client_at both_connected 0) = Some (''VP8'', 90000)"
    by (simp add: both_connected_eq client_at_def codec_n_frequency_def get_name_def
        get_frequency_def vp8_media_def MediaList_insert_def MediaList_default_def two_maps_def)
  have len: "8 \<le> length vp8_packet"
    by (simp add: vp8_packet_def)
  have "\<exists>w' out w''. handle_GroupId 7 addr2 False both_connected = Ret w' \<and>
    handle_Rtc Release NetworkEndian counting_crate two_maps (\<lambda>_. 0) [addr1, addr2] (Rtc vp8_packet addr1) w' =
      Ret (False, out, w'') \<and>
    Rtc (the (encrypted counting_crate False ?m (client_at both_connected 1))) addr2 \<in> set (datagrams out)"
    using enc
    by (intro joined_viewer_gets_stream [where clk = "\<lambda>_. 0", OF S _ NetworkEndian_endian q(3) _ q(2,1)
          vp8_packet_header vp8_packet_rtp(2) _ q(4) _ len codec q(5) adv m _ _ _ q(6)]) (auto simp: rc split: if_splits)
  then show ?thesis
    using enc by simp
qed

definition passed_on :: "SocketAddr \<Rightarrow> 'b recv_out list \<Rightarrow> bytes list" where
  "passed_on a out = List.map_filter (\<lambda>y. case y of
     RtcRequest (Rtc m b) \<Rightarrow> if b = a \<and> \<not> rtcp_like m then Some m else None | _ \<Rightarrow> None) out"

lemma passed_on_append [simp]: "passed_on a (xs @ ys) = passed_on a xs @ passed_on a ys"
  by (simp add: passed_on_def map_filter_def)

lemma passed_on_Nil [simp]: "passed_on a [] = []"
  by (simp add: passed_on_def map_filter_def)

lemma passed_on_reply:
  "passed_on a (handle_JitterReply b r) =
     filter (\<lambda>m. \<not> rtcp_like m) (released_at a (b, r)) @
     (case r of Packet m \<Rightarrow> if b = a \<and> \<not> rtcp_like m then [m] else [] | _ \<Rightarrow> [])"
proof -
  have "passed_on a (map (\<lambda>m. RtcRequest (Rtc m b)) ms) = (if b = a then filter (\<lambda>m. \<not> rtcp_like m) ms else [])" for ms
    by (induction ms) (auto simp: passed_on_def map_filter_simps)
  then show ?thesis
    by (auto simp: handle_JitterReply_def passed_on_def map_filter_simps
        split: GetOrStoreJitterBufferResponse.splits option.splits)
qed

lemma packet_reply_rtcp:
  assumes "run_actor handle_jitter st ms = Ret (outs, st')" and "(b, Packet m) \<in> set outs"
  shows "rtcp_like m"
  using assms
proof (induction ms arbitrary: st outs)
  case Nil
  then show ?case by simp
next
  case (Cons jm ms)
  from Cons.prems(1) obtain out st1 rest where h: "handle_jitter st jm = Ret (out, st1)"
    and r: "run_actor handle_jitter st1 ms = Ret (rest, st')" and o: "outs = out @ rest"
    by (rule run_actor_Cons_Ret)
  have "rtcp_like m" if "(b, Packet m) \<in> set out"
    using h that by (cases rule: handle_jitter.elims)
      (auto simp: rust_iffs handle_GetOrStoreJitterBuffer_def Let_def split: if_splits)
  then show ?case
    using Cons.prems(2) Cons.IH [OF r] by (auto simp: o)
qed

lemma accepted_not_rtcp: "m \<in> set (accepted_at a jm) \<Longrightarrow> \<not> rtcp_like m"
  by (cases "(a, jm)" rule: accepted_at.cases) (auto split: if_splits)

text \<open>
  The jitter buffer keeps the order of a stream: over any run from an empty buffer, the RTP packets of
  an address that the replies hand to the receiving actor, in the order of the replies, followed by
  those still buffered, are exactly the RTP packets of that address that arrived, in the order they
  arrived. (The tasks that forward different replies run side by side, see \<open>Mailbox_Order\<close>.)
\<close>

theorem stream_order_to_media_actor:
  assumes "run_actor handle_jitter Map.empty ms = Ret (outs, st')"
  shows "passed_on a (concat (map (\<lambda>(b, r). handle_JitterReply b r :: 'b recv_out list) outs)) @ stored_at a st' =
    concat (map (accepted_at a) ms)"
proof -
  have cons: "concat (map (released_at a) outs) @ stored_at a st' = concat (map (accepted_at a) ms)"
    using jitter_fifo.run_conserves [OF assms, of a] by (simp add: stored_at_def)
  have rtp: "\<not> rtcp_like m" if "m \<in> set (concat (map (released_at a) outs))" for m
  proof -
    have "m \<in> set (concat (map (accepted_at a) ms))"
      unfolding cons [symmetric] using that by simp
    then show ?thesis
      using accepted_not_rtcp by force
  qed
  have "passed_on a (concat (map (\<lambda>(b, r). handle_JitterReply b r :: 'b recv_out list) os)) = concat (map (released_at a) os)"
    if "set os \<subseteq> set outs" for os
    using that
  proof (induction os)
    case (Cons y os)
    obtain b r where y: "y = (b, r)" by (cases y)
    have "filter (\<lambda>m. \<not> rtcp_like m) (released_at a (b, r)) = released_at a (b, r)"
      using Cons.prems rtp by (intro filter_True) (force simp: y)
    moreover have "rtcp_like m" if "r = Packet m" for m
      using packet_reply_rtcp [OF assms, of b m] Cons.prems that by (simp add: y)
    ultimately show ?case
      using Cons by (auto simp: y passed_on_reply split: GetOrStoreJitterBufferResponse.splits)
  qed simp
  then show ?thesis
    using cons by simp
qed

theorem stream_order_to_media_actor_witness:
  "\<exists>outs st'. run_actor handle_jitter Map.empty jitter_example = Ret (outs, st') \<and>
    passed_on (V4 1 1) (concat (map (\<lambda>(b, r). handle_JitterReply b r) outs)) @ stored_at (V4 1 1) st' =
      [rtp_sample 1, rtp_sample 2, rtp_sample 3]"
proof -
  obtain outs st' where r: "run_actor handle_jitter Map.empty jitter_example = Ret (outs, st')"
    using jitter.run_returns [of Map.empty jitter_example] by (auto simp: jitter_inv_def)
  with stream_order_to_media_actor [OF r, of "V4 1 1"] show ?thesis
    by (auto simp: jitter_example_def)
qed

end
